(* ===== verification/Prelude.thy ===== *)
theory Prelude
  imports Complex_Main "HOL-Library.Char_ord" "HOL-Library.List_Lexorder" "HOL-Library.Log_Nat"
begin

text \<open>
  Shared vocabulary of the development: the results of fallible JavaScript code, decimal
  digit strings and the generic list facts that the component theories use. Nothing here
  models a particular file of the repository.
\<close>

named_theorems res_simps \<open>unfolding of the sequencing of fallible code\<close>
named_theorems digit_simps \<open>decimal digit strings and their values\<close>


section \<open>Results of fallible code\<close>

text \<open>
  A JavaScript function either returns a value or leaves abnormally: an \<open>Error\<close> thrown by the
  script itself, a \<open>TypeError\<close> or another error raised by the language, an error of the
  operating system, a call of \<open>process.exit\<close>, or an \<open>await\<close> on a promise that never settles.
\<close>

datatype js_error =
    ErrorMsg string
  | TypeError string
  | SyntaxError string
  | ReferenceError string
  | URIError string
  | SysError string
  | Exit int
  | NeverSettles

type_synonym 'a res = "js_error + 'a"

definition res_bind :: "'e + 'a \<Rightarrow> ('a \<Rightarrow> 'e + 'b) \<Rightarrow> 'e + 'b" where
  "res_bind m f = (case m of Inl e \<Rightarrow> Inl e | Inr x \<Rightarrow> f x)"

lemma res_bind_Inl [simp, res_simps]: "res_bind (Inl e) f = Inl e"
  by (simp add: res_bind_def)

lemma res_bind_Inr [simp, res_simps]: "res_bind (Inr x) f = f x"
  by (simp add: res_bind_def)

lemma res_bind_eq_Inr:
  "res_bind m f = Inr y \<longleftrightarrow> (\<exists>x. m = Inr x \<and> f x = Inr y)"
  by (cases m) auto

lemma res_bind_eq_Inl:
  "res_bind m f = Inl e \<longleftrightarrow> m = Inl e \<or> (\<exists>x. m = Inr x \<and> f x = Inl e)"
  by (cases m) auto

lemma res_bind_assoc: "res_bind (res_bind m f) g = res_bind m (\<lambda>x. res_bind (f x) g)"
  by (cases m) auto


text \<open>
  Code with effects is a function of the world: it returns the world it leaves behind, also when it
  fails, with its result. The scripts fail with a \<open>js_error\<close> (\<open>act\<close>), the pallets of the chain with
  a dispatch error (theory \<open>Frame\<close>).
\<close>

type_synonym ('w, 'e, 'a) eact = "'w \<Rightarrow> 'w \<times> ('e + 'a)"
type_synonym ('w, 'a) act = "('w, js_error, 'a) eact"

definition act_return :: "'a \<Rightarrow> ('w, 'e, 'a) eact" where
  "act_return x w = (w, Inr x)"

definition act_fail :: "'e \<Rightarrow> ('w, 'e, 'a) eact" where
  "act_fail e w = (w, Inl e)"

definition act_lift :: "'e + 'a \<Rightarrow> ('w, 'e, 'a) eact" where
  "act_lift r w = (w, r)"

definition act_update :: "('w \<Rightarrow> 'e + 'w) \<Rightarrow> ('w, 'e, unit) eact" where
  "act_update f w = (case f w of Inl e \<Rightarrow> (w, Inl e) | Inr w' \<Rightarrow> (w', Inr ()))"

definition act_bind :: "('w, 'e, 'a) eact \<Rightarrow> ('a \<Rightarrow> ('w, 'e, 'b) eact) \<Rightarrow> ('w, 'e, 'b) eact" where
  "act_bind m f w = (case m w of (w', Inl e) \<Rightarrow> (w', Inl e) | (w', Inr x) \<Rightarrow> f x w')"

lemmas act_defs = act_return_def act_fail_def act_lift_def act_update_def act_bind_def

lemma act_bind_Inr: "m w = (w', Inr x) \<Longrightarrow> act_bind m f w = f x w'"
  by (simp add: act_bind_def)

lemma act_bind_Inl: "m w = (w', Inl e) \<Longrightarrow> act_bind m f w = (w', Inl e)"
  by (simp add: act_bind_def)

lemma act_bind_eq_Inr:
  "act_bind m f w = (w'', Inr y) \<longleftrightarrow> (\<exists>w' x. m w = (w', Inr x) \<and> f x w' = (w'', Inr y))"
  by (auto simp: act_bind_def split: prod.splits sum.splits)

lemma act_update_eq_Inr: "act_update f w = (w', Inr u) \<longleftrightarrow> f w = Inr w'"
  by (auto simp: act_update_def split: sum.splits)

lemma act_return_apply [simp, res_simps]: "act_return x w = (w, Inr x)"
  by (simp add: act_return_def)

lemma act_fail_apply [simp, res_simps]: "act_fail e w = (w, Inl e)"
  by (simp add: act_fail_def)

lemma act_lift_apply [simp, res_simps]: "act_lift r w = (w, r)"
  by (simp add: act_lift_def)

text \<open>What every step leaves unchanged, a sequence of steps leaves unchanged.\<close>

lemma act_bind_keeps:
  assumes "I (fst (m w))" and "\<And>w' x. m w = (w', Inr x) \<Longrightarrow> I w' \<Longrightarrow> I (fst (f x w'))"
  shows "I (fst (act_bind m f w))"
  using assms by (auto simp: act_bind_def split: prod.splits sum.splits)


section \<open>Nonces\<close>

text \<open>
  A sequence of submissions from one account whose nonce grows by one with each accepted submission.
\<close>

fun nonces_follow :: "('a \<Rightarrow> nat) \<Rightarrow> ('a \<Rightarrow> bool) \<Rightarrow> nat \<Rightarrow> 'a list \<Rightarrow> bool" where
  "nonces_follow nonce accepted n [] = True"
| "nonces_follow nonce accepted n (x # xs) =
     (nonce x = n \<and> nonces_follow nonce accepted (if accepted x then n + 1 else n) xs)"

lemma nonces_follow_append:
  "nonces_follow nonce accepted n (xs @ ys) \<longleftrightarrow>
     nonces_follow nonce accepted n xs \<and>
     nonces_follow nonce accepted (n + length (filter accepted xs)) ys"
  by (induction xs arbitrary: n) auto


section \<open>Decimal digit strings\<close>

definition is_digit :: "char \<Rightarrow> bool" where
  "is_digit c \<longleftrightarrow> 48 \<le> (of_char c :: nat) \<and> (of_char c :: nat) \<le> 57"

definition digit_val :: "char \<Rightarrow> nat" where
  "digit_val c = of_char c - 48"

definition digit_char :: "nat \<Rightarrow> char" where
  "digit_char d = char_of (48 + d)"

definition digits_val :: "string \<Rightarrow> nat" where
  "digits_val s = foldl (\<lambda>a c. 10 * a + digit_val c) 0 s"

fun show_nat :: "nat \<Rightarrow> string" where
  "show_nat n = (if n < 10 then [digit_char n] else show_nat (n div 10) @ [digit_char (n mod 10)])"

declare show_nat.simps [simp del]

lemma of_char_digit_char [digit_simps]: "d < 10 \<Longrightarrow> (of_char (digit_char d) :: nat) = 48 + d"
  by (simp add: digit_char_def)

lemma is_digit_digit_char [simp, digit_simps]: "d < 10 \<Longrightarrow> is_digit (digit_char d)"
  by (simp add: is_digit_def of_char_digit_char)

lemma digit_val_digit_char [simp, digit_simps]: "d < 10 \<Longrightarrow> digit_val (digit_char d) = d"
  by (simp add: digit_val_def of_char_digit_char)

lemma digit_val_less: "is_digit c \<Longrightarrow> digit_val c < 10"
  unfolding is_digit_def digit_val_def by linarith

lemma digit_val_zero_char [simp, digit_simps]: "digit_val (CHR ''0'') = 0"
  by (simp add: digit_val_def)

lemma is_digit_zero_char [simp, digit_simps]: "is_digit (CHR ''0'')"
  by (simp add: is_digit_def)

lemma digit_val_eq_0: "is_digit c \<Longrightarrow> digit_val c = 0 \<longleftrightarrow> c = CHR ''0''"
proof -
  assume "is_digit c"
  then have "digit_val c = 0 \<longleftrightarrow> (of_char c :: nat) = of_char (CHR ''0'')"
    by (auto simp: is_digit_def digit_val_def)
  then show ?thesis by (simp only: of_char_eq_iff)
qed

lemma digits_val_Nil [simp, digit_simps]: "digits_val [] = 0"
  by (simp add: digits_val_def)

lemma digits_val_acc:
  "foldl (\<lambda>a c. 10 * a + digit_val c) a s = a * 10 ^ length s + digits_val s"
proof (induction s arbitrary: a)
  case Nil
  then show ?case by simp
next
  case (Cons c s)
  show ?case
    using Cons.IH [of "10 * a + digit_val c"] Cons.IH [of "digit_val c"]
    by (simp add: digits_val_def algebra_simps)
qed

lemma digits_val_append [digit_simps]:
  "digits_val (s @ t) = digits_val s * 10 ^ length t + digits_val t"
  using digits_val_acc [of "digits_val s" t] by (simp add: digits_val_def)

lemma digits_val_Cons [digit_simps]:
  "digits_val (c # s) = digit_val c * 10 ^ length s + digits_val s"
  using digits_val_append [of "[c]" s] by (simp add: digits_val_def)

lemma digits_val_snoc [digit_simps]: "digits_val (s @ [c]) = 10 * digits_val s + digit_val c"
  by (simp add: digits_val_def)

lemma digits_val_replicate_zero [simp, digit_simps]: "digits_val (replicate n (CHR ''0'')) = 0"
  by (induction n) (simp_all add: digits_val_Cons)

lemma digits_val_strip_zeros [simp, digit_simps]:
  "digits_val (dropWhile (\<lambda>c. c = CHR ''0'') s) = digits_val s"
  by (induction s) (simp_all add: digits_val_Cons)

lemma digits_val_show_nat [simp, digit_simps]: "digits_val (show_nat n) = n"
proof (induction n rule: show_nat.induct)
  case (1 n)
  show ?case
  proof (cases "n < 10")
    case True
    then show ?thesis by (simp add: show_nat.simps [of n] digits_val_Cons)
  next
    case False
    with 1 show ?thesis by (simp add: show_nat.simps [of n] digits_val_snoc)
  qed
qed

lemma show_nat_nonempty [simp]: "show_nat n \<noteq> []"
  by (simp add: show_nat.simps [of n])

lemma show_nat_digits: "c \<in> set (show_nat n) \<Longrightarrow> is_digit c"
proof (induction n rule: show_nat.induct)
  case (1 n)
  show ?case
  proof (cases "n < 10")
    case True
    with 1 show ?thesis by (simp add: show_nat.simps [of n])
  next
    case False
    with 1 show ?thesis by (auto simp: show_nat.simps [of n])
  qed
qed

lemma show_nat_inj [simp]: "show_nat m = show_nat n \<longleftrightarrow> m = n"
  by (metis digits_val_show_nat)


section \<open>Association lists\<close>

lemma map_of_filter_neq [simp]:
  "q \<noteq> p \<Longrightarrow> map_of (filter (\<lambda>f. fst f \<noteq> p) xs) q = map_of xs q"
  by (induction xs) auto

lemma fst_filter_neq: "fst ` set (filter (\<lambda>f. fst f \<noteq> p) xs) = fst ` set xs - {p}"
  by (induction xs) auto

end
