(* ===== verification/TxLifecycle.thy ===== *)
theory TxLifecycle
  imports JsString
begin

text \<open>
  The life cycle of a submitted extrinsic, \<open>_handleTransactionLifecycle\<close> of
  \<open>scripts/claim/claim_init.js\<close> (the copy in \<open>scripts/claim/claim_final_approve.js\<close> is the same
  text). The function submits an extrinsic, watches the status notifications of the node through a
  callback, and resubmits it up to five times when the node answers that the priority is too low.

  The node is a parameter: \<open>sendFunction\<close> is a function from a world to one attempt and the next
  world. An attempt is either a rejected promise or a subscription with the finite sequence of
  notifications that the node delivers, after \<open>signAndSend\<close> has resolved, in their order. A promise
  that no notification settles is the error \<open>NeverSettles\<close>.
\<close>


section \<open>Notifications\<close>

text \<open>A JavaScript value that may be \<open>null\<close> or \<open>undefined\<close>.\<close>

datatype 'a nullable = Null | Undef | Val 'a

text \<open>The transaction status, one constructor per accessor that the code tests.\<close>

datatype ext_status =
    Ready
  | InBlock string
  | Finalized string
  | Invalid
  | StatusError
  | OtherStatus

record event =
  ev_section :: string
  ev_method :: string
  ev_data :: "string list"

record event_record =
  rec_event :: event
  rec_phase :: nat

record notification =
  n_blockNumber :: "nat nullable"
  n_records :: "event_record list"
  n_status :: ext_status

datatype send_error = SendError "int option" string

datatype attempt =
    SendRejected send_error
  | Subscribed "notification list"

text \<open>Reading an array element beyond the end gives \<open>undefined\<close>.\<close>

definition elem_at :: "'a list \<Rightarrow> nat \<Rightarrow> 'a nullable" where
  "elem_at xs i = (if i < length xs then Val (xs ! i) else Undef)"

definition is_success :: "event_record \<Rightarrow> bool" where
  "is_success r \<longleftrightarrow>
     ev_section (rec_event r) = ''system'' \<and> ev_method (rec_event r) = ''ExtrinsicSuccess''"

definition is_new_multisig :: "event_record \<Rightarrow> bool" where
  "is_new_multisig r \<longleftrightarrow>
     ev_section (rec_event r) = ''multisig'' \<and> ev_method (rec_event r) = ''NewMultisig''"


section \<open>The promise of one attempt\<close>

text \<open>The variables that live across callbacks and attempts.\<close>

record lifecycle_vars =
  transactionSuccessEvent :: bool
  done_flag :: bool

record tx_info =
  ti_block :: "string nullable"
  ti_number :: "nat nullable"
  ti_index :: "nat nullable"
  ti_call :: "string nullable"

datatype reject_reason = RejStr string | RejErr send_error

datatype 'i settlement = Resolve 'i | Reject reject_reason

text \<open>The value of \<open>retVal\<close>: \<open>-1\<close>, \<open>undefined\<close> after a retry, or the result object.\<close>

datatype 'i retval = RMinus1 | RUndefined | RObj 'i

fun scan_records ::
  "event_record list \<Rightarrow> bool \<times> string nullable \<times> nat nullable \<Rightarrow>
   bool \<times> string nullable \<times> nat nullable"
where
  "scan_records [] acc = acc"
| "scan_records (r # rs) (succ, callHash, idx) =
     (if is_success r then scan_records rs (True, callHash, idx)
      else if is_new_multisig r
        then scan_records rs (succ, elem_at (ev_data (rec_event r)) 2, Val (rec_phase r))
      else scan_records rs (succ, callHash, idx))"

definition on_notification ::
  "lifecycle_vars \<Rightarrow> notification \<Rightarrow> lifecycle_vars \<times> tx_info settlement option"
where
  "on_notification st n =
     (let (st', blockHash, callHash, idx) =
        (case n_status n of
           InBlock h \<Rightarrow>
             (let (succ, callHash, idx) =
                scan_records (n_records n) (transactionSuccessEvent st, Null, Null)
              in (st\<lparr>transactionSuccessEvent := succ, done_flag := True\<rparr>, Val h, callHash, idx))
         | StatusError \<Rightarrow> (st\<lparr>done_flag := True\<rparr>, Null, Null, Null)
         | _ \<Rightarrow> (st, Null, Null, Null))
      in if done_flag st'
         then (st', Some (if transactionSuccessEvent st'
                          then Resolve \<lparr>ti_block = blockHash, ti_number = n_blockNumber n,
                                        ti_index = idx, ti_call = callHash\<rparr>
                          else Reject (RejStr ''ExtrinsicSuccess has not been seen'')))
         else (st', None))"

text \<open>
  A promise settles once: the first notification that settles it decides, and the subscription is
  cancelled there.
\<close>

fun watch :: "lifecycle_vars \<Rightarrow> notification list \<Rightarrow> lifecycle_vars \<times> tx_info settlement option" where
  "watch st [] = (st, None)"
| "watch st (n # ns) =
     (case on_notification st n of
        (st', None) \<Rightarrow> watch st' ns
      | (st', Some s) \<Rightarrow> (st', Some s))"

definition on_send_error :: "send_error \<Rightarrow> reject_reason" where
  "on_send_error e =
     (case e of SendError c _ \<Rightarrow> if c = Some 1014 then RejStr ''retry'' else RejErr e)"

fun await_attempt ::
  "lifecycle_vars \<Rightarrow> attempt \<Rightarrow> lifecycle_vars \<times> tx_info settlement option"
where
  "await_attempt st (SendRejected e) = (st, Some (Reject (on_send_error e)))"
| "await_attempt st (Subscribed ns) = watch st ns"

lemma on_notification_settles:
  "on_notification st n = (st', Some s) \<Longrightarrow> done_flag st'"
  by (auto simp: on_notification_def Let_def split: ext_status.splits prod.splits if_splits)

lemma watch_settles: "watch st ns = (st', Some s) \<Longrightarrow> done_flag st'"
  by (induction ns arbitrary: st)
    (auto split: prod.splits option.splits dest: on_notification_settles)

lemma await_resolve_done: "await_attempt st a = (st', Some (Resolve i)) \<Longrightarrow> done_flag st'"
  by (cases a) (auto dest: watch_settles)


section \<open>The retry loop\<close>

function lifecycle_loop ::
  "('w \<Rightarrow> attempt \<times> 'w) \<Rightarrow> lifecycle_vars \<Rightarrow> nat \<Rightarrow> tx_info retval \<Rightarrow> 'w \<Rightarrow>
   'w \<times> tx_info retval res"
where
  "lifecycle_loop sendFunction st max_retries retVal w =
     (if \<not> done_flag st \<and> 0 < max_retries then
        (case sendFunction w of (a, w') \<Rightarrow>
           (case await_attempt st a of
              (st', None) \<Rightarrow> (w', Inl NeverSettles)
            | (st', Some (Resolve i)) \<Rightarrow> lifecycle_loop sendFunction st' max_retries (RObj i) w'
            | (st', Some (Reject e)) \<Rightarrow>
                if e \<noteq> RejStr ''retry''
                then lifecycle_loop sendFunction (st'\<lparr>done_flag := True\<rparr>) max_retries RMinus1 w'
                else lifecycle_loop sendFunction st' (max_retries - 1) RUndefined w'))
      else (w, Inr retVal))"
  by pat_completeness auto
termination
  by (relation "measures [\<lambda>(f, st, r, v, w). r, \<lambda>(f, st, r, v, w). if done_flag st then 0 else 1]")
    (auto dest: await_resolve_done [OF sym] await_resolve_done)

declare lifecycle_loop.simps [simp del]

definition handleTransactionLifecycle ::
  "('w \<Rightarrow> attempt \<times> 'w) \<Rightarrow> 'w \<Rightarrow> 'w \<times> tx_info retval res"
where
  "handleTransactionLifecycle sendFunction w =
     lifecycle_loop sendFunction \<lparr>transactionSuccessEvent = False, done_flag = False\<rparr> 5 RMinus1 w"


section \<open>What the life cycle computes\<close>

text \<open>
  The reference description: the first attempt that the node does not answer with the error 1014
  decides, among at most five; its first notification with an inclusion in a block or an error
  status gives the result.
\<close>

definition retryable :: "attempt \<Rightarrow> bool" where
  "retryable a = (case a of SendRejected (SendError c _) \<Rightarrow> c = Some 1014 | _ \<Rightarrow> False)"

definition terminal :: "notification \<Rightarrow> bool" where
  "terminal n = (case n_status n of InBlock _ \<Rightarrow> True | StatusError \<Rightarrow> True | _ \<Rightarrow> False)"

definition multisig_ref :: "event_record list \<Rightarrow> string nullable \<times> nat nullable" where
  "multisig_ref rs =
     (case rev (filter is_new_multisig rs) of
        [] \<Rightarrow> (Null, Null)
      | r # _ \<Rightarrow> (elem_at (ev_data (rec_event r)) 2, Val (rec_phase r)))"

definition inclusion :: "notification \<Rightarrow> tx_info retval" where
  "inclusion n =
     (case n_status n of
        InBlock h \<Rightarrow>
          if list_ex is_success (n_records n)
          then RObj \<lparr>ti_block = Val h, ti_number = n_blockNumber n,
                     ti_index = snd (multisig_ref (n_records n)),
                     ti_call = fst (multisig_ref (n_records n))\<rparr>
          else RMinus1
      | _ \<Rightarrow> RMinus1)"

definition attempt_verdict :: "attempt \<Rightarrow> tx_info retval res" where
  "attempt_verdict a =
     (case a of
        SendRejected _ \<Rightarrow> Inr RMinus1
      | Subscribed ns \<Rightarrow>
          (case List.find terminal ns of None \<Rightarrow> Inl NeverSettles | Some n \<Rightarrow> Inr (inclusion n)))"

fun lifecycle_spec ::
  "nat \<Rightarrow> ('w \<Rightarrow> attempt \<times> 'w) \<Rightarrow> 'w \<Rightarrow> 'w \<times> tx_info retval res"
where
  "lifecycle_spec 0 send w = (w, Inr RUndefined)"
| "lifecycle_spec (Suc n) send w =
     (case send w of (a, w') \<Rightarrow>
        if retryable a then lifecycle_spec n send w' else (w', attempt_verdict a))"

text \<open>The scan of the event records, in one pass, finds what \<open>multisig_ref\<close> describes.\<close>

lemma success_not_multisig: "is_success r \<Longrightarrow> \<not> is_new_multisig r"
  by (simp add: is_success_def is_new_multisig_def)

lemma scan_records_eq:
  "scan_records rs (succ, c, i) =
     (succ \<or> list_ex is_success rs,
      (case rev (filter is_new_multisig rs) of
         [] \<Rightarrow> c | r # _ \<Rightarrow> elem_at (ev_data (rec_event r)) 2),
      (case rev (filter is_new_multisig rs) of [] \<Rightarrow> i | r # _ \<Rightarrow> Val (rec_phase r)))"
proof (induction rs arbitrary: succ c i)
  case Nil
  then show ?case by simp
next
  case (Cons r rs)
  show ?case
    by (cases "rev (filter is_new_multisig rs)") (auto simp: Cons.IH success_not_multisig)
qed

abbreviation fresh_vars :: lifecycle_vars where
  "fresh_vars \<equiv> \<lparr>transactionSuccessEvent = False, done_flag = False\<rparr>"

lemma on_notification_not_terminal:
  "\<not> terminal n \<Longrightarrow> on_notification fresh_vars n = (fresh_vars, None)"
  by (auto simp: terminal_def on_notification_def split: ext_status.splits)

lemma on_notification_terminal:
  assumes "terminal n"
  shows "\<exists>st'. done_flag st' \<and> on_notification fresh_vars n =
    (st', Some (case inclusion n of RObj i \<Rightarrow> Resolve i
                | _ \<Rightarrow> Reject (RejStr ''ExtrinsicSuccess has not been seen'')))"
proof (cases "n_status n")
  case (InBlock h)
  then show ?thesis
    by (auto simp: on_notification_def inclusion_def scan_records_eq multisig_ref_def
        split: list.splits)
qed (use assms in \<open>auto simp: on_notification_def inclusion_def terminal_def\<close>)

lemma watch_fresh:
  "case List.find terminal ns of
     None \<Rightarrow> watch fresh_vars ns = (fresh_vars, None)
   | Some n \<Rightarrow> (\<exists>st'. done_flag st' \<and> watch fresh_vars ns =
       (st', Some (case inclusion n of RObj i \<Rightarrow> Resolve i
                   | _ \<Rightarrow> Reject (RejStr ''ExtrinsicSuccess has not been seen''))))"
proof (induction ns)
  case Nil
  then show ?case by simp
next
  case (Cons n ns)
  show ?case
  proof (cases "terminal n")
    case True
    then show ?thesis using on_notification_terminal [OF True] by auto
  next
    case False
    then have "watch fresh_vars (n # ns) = watch fresh_vars ns"
      by (simp add: on_notification_not_terminal)
    then show ?thesis using Cons.IH False
      by (cases "List.find terminal ns") (simp_all del: watch.simps)
  qed
qed

lemma inclusion_not_undefined: "inclusion n \<noteq> RUndefined"
  by (simp add: inclusion_def split: ext_status.splits)

lemma lifecycle_loop_done:
  "done_flag st \<Longrightarrow> lifecycle_loop send st r v w = (w, Inr v)"
  by (simp add: lifecycle_loop.simps)

lemma lifecycle_loop_retry:
  assumes "send w = (a, w')" and "retryable a" and "0 < r"
  shows "lifecycle_loop send fresh_vars r v w = lifecycle_loop send fresh_vars (r - 1) RUndefined w'"
proof -
  obtain m where "a = SendRejected (SendError (Some 1014) m)"
    using assms(2) by (auto simp: retryable_def split: attempt.splits send_error.splits)
  then show ?thesis
    using assms by (subst lifecycle_loop.simps) (simp add: on_send_error_def)
qed

lemma lifecycle_loop_final:
  assumes "send w = (a, w')" and "\<not> retryable a" and "0 < r"
  shows "lifecycle_loop send fresh_vars r v w = (w', attempt_verdict a)"
proof (cases a)
  case (SendRejected e)
  then have "on_send_error e \<noteq> RejStr ''retry''"
    using assms(2) by (auto simp: retryable_def on_send_error_def split: send_error.splits)
  then show ?thesis
    using assms SendRejected
    by (subst lifecycle_loop.simps) (simp add: lifecycle_loop_done attempt_verdict_def)
next
  case (Subscribed ns)
  show ?thesis
  proof (cases "List.find terminal ns")
    case None
    with watch_fresh [of ns] show ?thesis
      using assms Subscribed by (subst lifecycle_loop.simps) (simp add: attempt_verdict_def)
  next
    case (Some n)
    with watch_fresh [of ns] obtain st' where st': "done_flag st'" and
      w: "watch fresh_vars ns = (st', Some (case inclusion n of RObj i \<Rightarrow> Resolve i
                   | _ \<Rightarrow> Reject (RejStr ''ExtrinsicSuccess has not been seen'')))" by auto
    show ?thesis
      using assms Subscribed Some st' inclusion_not_undefined [of n]
      by (subst lifecycle_loop.simps)
        (simp add: w attempt_verdict_def lifecycle_loop_done split: retval.splits)
  qed
qed

lemma lifecycle_loop_spec:
  assumes "0 < r \<or> v = RUndefined"
  shows "lifecycle_loop send fresh_vars r v w = lifecycle_spec r send w"
  using assms
proof (induction r arbitrary: v w)
  case 0
  then show ?case by (simp add: lifecycle_loop.simps)
next
  case (Suc r)
  obtain a w' where s: "send w = (a, w')" by (cases "send w")
  show ?case
  proof (cases "retryable a")
    case True
    then show ?thesis using s Suc.IH by (simp add: lifecycle_loop_retry)
  next
    case False
    then show ?thesis using s by (simp add: lifecycle_loop_final)
  qed
qed


text \<open>
  C1: The whole function, with its callback, its promise and its retry loop, computes the reference
  description with five attempts, for every node: at most five submissions, \<open>undefined\<close> after five
  answers with the error 1014, and otherwise the verdict of the first other attempt.
\<close>
theorem lifecycle_refines_spec:
  "handleTransactionLifecycle sendFunction w = lifecycle_spec 5 sendFunction w"
  by (simp add: handleTransactionLifecycle_def lifecycle_loop_spec)


section \<open>Submitting a sequence of extrinsics\<close>

text \<open>
  Both claim scripts submit their extrinsics in a loop that awaits each one and breaks when the
  result is \<open>-1\<close>. The results before the break are collected.
\<close>

fun for_until_minus1 ::
  "('c \<Rightarrow> 'w \<Rightarrow> 'w \<times> 'i retval res) \<Rightarrow> 'c list \<Rightarrow> 'w \<Rightarrow> 'w \<times> 'i retval list res"
where
  "for_until_minus1 body [] w = (w, Inr [])"
| "for_until_minus1 body (c # cs) w =
     (case body c w of
        (w', Inl e) \<Rightarrow> (w', Inl e)
      | (w', Inr r) \<Rightarrow>
          if r = RMinus1 then (w', Inr [])
          else (case for_until_minus1 body cs w' of
                  (w'', Inl e) \<Rightarrow> (w'', Inl e)
                | (w'', Inr rs) \<Rightarrow> (w'', Inr (r # rs))))"

text \<open>
  The contract of a loop body: it submits only the extrinsic of its own chunk, at most five times,
  and a result other than \<open>-1\<close> means that the extrinsic was submitted.
\<close>

locale submission =
  fixes body :: "'c \<Rightarrow> 'w \<Rightarrow> 'w \<times> 'i retval res"
    and sent_log :: "'w \<Rightarrow> 'x list"
    and extrinsic_of :: "'c \<Rightarrow> 'x"
  assumes log_body:
    "\<exists>k\<le>5. sent_log (fst (body c w)) = sent_log w @ replicate k (extrinsic_of c) \<and>
       (k = 0 \<longrightarrow> snd (body c w) = Inr RMinus1)"
begin

text \<open>
  The extrinsics go out in the order of the chunks: the log grows by repetitions of the extrinsics
  of a prefix of the chunks, and every chunk with a collected result is in that prefix.
\<close>

lemma log_for_until:
  "\<exists>ks. length ks \<le> length cs \<and> (\<forall>k\<in>set ks. k \<le> 5) \<and>
     sent_log (fst (for_until_minus1 body cs w)) =
       sent_log w @ concat (map2 (\<lambda>k c. replicate k (extrinsic_of c)) ks cs) \<and>
     (\<forall>rs. snd (for_until_minus1 body cs w) = Inr rs \<longrightarrow>
        length rs \<le> length ks \<and> (\<forall>k\<in>set (take (length rs) ks). 0 < k))"
proof (induction cs arbitrary: w)
  case Nil
  show ?case by (rule exI [of _ "[]"]) simp
next
  case (Cons c cs)
  obtain w' r where b: "body c w = (w', r)" by (cases "body c w")
  obtain k where k: "k \<le> 5" "sent_log w' = sent_log w @ replicate k (extrinsic_of c)"
    and kr: "k = 0 \<longrightarrow> r = Inr RMinus1"
    using log_body [of c w] b by auto
  show ?case
  proof (cases "\<exists>v. r = Inr v \<and> v \<noteq> RMinus1")
    case False
    then show ?thesis using b k by (intro exI [of _ "[k]"]) (auto split: sum.splits)
  next
    case True
    then obtain v where v: "r = Inr v" "v \<noteq> RMinus1" by blast
    obtain w'' rs' where l: "for_until_minus1 body cs w' = (w'', rs')"
      by (cases "for_until_minus1 body cs w'")
    obtain ks where "length ks \<le> length cs" "\<forall>k\<in>set ks. k \<le> 5"
      "sent_log w'' = sent_log w' @ concat (map2 (\<lambda>k c. replicate k (extrinsic_of c)) ks cs)"
      "\<forall>rs. rs' = Inr rs \<longrightarrow> length rs \<le> length ks \<and> (\<forall>k\<in>set (take (length rs) ks). 0 < k)"
      using Cons.IH [of w'] l by auto
    then show ?thesis
      using b k kr v l by (intro exI [of _ "k # ks"]) (auto split: sum.splits)
  qed
qed

text \<open>A run in which every chunk has a result has submitted every chunk.\<close>

lemma complete_run_submits_all:
  assumes "snd (for_until_minus1 body cs w) = Inr rs" and "length rs = length cs" and "c \<in> set cs"
  shows "extrinsic_of c \<in> set (sent_log (fst (for_until_minus1 body cs w)))"
proof -
  obtain ks where ks: "length ks \<le> length cs" "length rs \<le> length ks"
    "\<forall>k\<in>set (take (length rs) ks). 0 < k"
    "sent_log (fst (for_until_minus1 body cs w)) =
       sent_log w @ concat (map2 (\<lambda>k c. replicate k (extrinsic_of c)) ks cs)"
    using log_for_until [of cs w] assms(1) by auto
  obtain i where i: "i < length cs" "cs ! i = c" using assms(3) by (auto simp: in_set_conv_nth)
  have "0 < ks ! i" using ks i assms(2) by (auto simp: in_set_conv_nth)
  then have "extrinsic_of c \<in> set (replicate (ks ! i) (extrinsic_of (cs ! i)))" using i by simp
  moreover have "replicate (ks ! i) (extrinsic_of (cs ! i))
      \<in> set (map2 (\<lambda>k c. replicate k (extrinsic_of c)) ks cs)"
    using i ks assms(2) nth_mem [of i "map2 (\<lambda>k c. replicate k (extrinsic_of c)) ks cs"] by simp
  ultimately have "extrinsic_of c \<in> set (concat (map2 (\<lambda>k c. replicate k (extrinsic_of c)) ks cs))"
    unfolding set_concat by (rule UN_I [rotated])
  then show ?thesis unfolding ks(4) set_append by (rule UnI2)
qed

end

text \<open>The life cycle of one extrinsic on a world with a log of submissions.\<close>

lemma lifecycle_spec_log:
  assumes send: "\<And>w. sent_log (snd (send w)) = sent_log w @ [x]"
  shows "\<exists>k\<le>n. sent_log (fst (lifecycle_spec n send w)) = sent_log w @ replicate k x \<and> (0 < n \<longrightarrow> 0 < k)"
proof (induction n arbitrary: w)
  case 0
  then show ?case by simp
next
  case (Suc n)
  obtain a w' where s: "send w = (a, w')" by (cases "send w")
  then have lw: "sent_log w' = sent_log w @ [x]" using send [of w] by simp
  show ?case
  proof (cases "retryable a")
    case True
    obtain k where "k \<le> n" "sent_log (fst (lifecycle_spec n send w')) = sent_log w' @ replicate k x"
      using Suc.IH by blast
    then show ?thesis using True s lw by (intro exI [of _ "Suc k"]) simp
  next
    case False
    then show ?thesis using s lw by (intro exI [of _ 1]) simp
  qed
qed

lemma lifecycle_log:
  assumes "\<And>w. sent_log (snd (send w)) = sent_log w @ [x]"
  shows "\<exists>k. 0 < k \<and> k \<le> 5 \<and>
    sent_log (fst (handleTransactionLifecycle send w)) = sent_log w @ replicate k x"
  using lifecycle_spec_log [of sent_log send x 5 w, OF assms]
  by (auto simp: handleTransactionLifecycle_def lifecycle_loop_spec)

end
