(* ===== verification/NodeFs.thy ===== *)
theory NodeFs
  imports JsString
begin

text \<open>
  The part of Node's \<open>fs\<close> module that the scripts use: \<open>existsSync\<close>, \<open>readFileSync\<close>,
  \<open>writeFileSync\<close> and the recursive \<open>mkdirSync\<close>, on a tree of files given by their paths. Paths are
  compared as they are written: the scripts build every path from the same prefix. The laws that
  the claim scripts rely on are the locale \<open>file_store\<close>.
\<close>


section \<open>The store\<close>

record fs =
  fs_files :: "(string \<times> string) list"
  fs_dirs :: "string list"

definition existsSync :: "fs \<Rightarrow> string \<Rightarrow> bool" where
  "existsSync s p \<longleftrightarrow> p \<in> fst ` set (fs_files s) \<or> p \<in> set (fs_dirs s)"

definition readFileSync :: "fs \<Rightarrow> string \<Rightarrow> string res" where
  "readFileSync s p =
     (case map_of (fs_files s) p of
        Some d \<Rightarrow> Inr d
      | None \<Rightarrow> Inl (SysError (if p \<in> set (fs_dirs s) then ''EISDIR'' else ''ENOENT'')))"

definition parent_dir :: "string \<Rightarrow> string" where
  "parent_dir p =
     (if CHR ''/'' \<in> set p then rev (tl (dropWhile (\<lambda>c. c \<noteq> CHR ''/'') (rev p))) else ''.'')"

definition writeFileSync :: "fs \<Rightarrow> string \<Rightarrow> string \<Rightarrow> fs res" where
  "writeFileSync s p d =
     (if p \<in> set (fs_dirs s) then Inl (SysError ''EISDIR'')
      else if parent_dir p \<notin> set (fs_dirs s) then Inl (SysError ''ENOENT'')
      else Inr (s\<lparr>fs_files := (p, d) # filter (\<lambda>f. fst f \<noteq> p) (fs_files s)\<rparr>))"

text \<open>The directories on the way to a path, the path itself included.\<close>

definition path_chain :: "string \<Rightarrow> string list" where
  "path_chain p = map (\<lambda>i. take i p) (filter (\<lambda>i. p ! i = CHR ''/'') [1..<length p]) @ [p]"

text \<open>\<open>mkdirSync(p, \{ recursive: true \})\<close>.\<close>

definition mkdirSync :: "fs \<Rightarrow> string \<Rightarrow> fs res" where
  "mkdirSync s p =
     (if list_ex (\<lambda>q. q \<in> fst ` set (fs_files s)) (path_chain p) then Inl (SysError ''EEXIST'')
      else Inr (s\<lparr>fs_dirs := filter (\<lambda>q. q \<notin> set (fs_dirs s)) (path_chain p) @ fs_dirs s\<rparr>))"


section \<open>Laws\<close>

lemma path_chain_self [simp]: "p \<in> set (path_chain p)"
  by (simp add: path_chain_def)

lemma path_chain_prefix: "q \<in> set (path_chain p) \<Longrightarrow> length q \<le> length p"
  by (auto simp: path_chain_def)

lemma writeFileSync_read:
  "writeFileSync s p d = Inr s' \<Longrightarrow> readFileSync s' q = (if q = p then Inr d else readFileSync s q)"
  by (auto simp: writeFileSync_def readFileSync_def split: if_splits)

lemma readFileSync_exists: "readFileSync s p = Inr d \<Longrightarrow> existsSync s p"
  by (auto simp: readFileSync_def existsSync_def split: option.splits
      dest!: map_of_SomeD intro: rev_image_eqI)

lemma writeFileSync_files:
  assumes "writeFileSync s p d = Inr s'"
  shows "fst ` set (fs_files s') = insert p (fst ` set (fs_files s))"
proof -
  have "fs_files s' = (p, d) # filter (\<lambda>f. fst f \<noteq> p) (fs_files s)"
    using assms by (auto simp: writeFileSync_def split: if_splits)
  then show ?thesis
    using fst_filter_neq [of p "fs_files s"] by (simp del: set_filter)
qed

lemma writeFileSync_dirs: "writeFileSync s p d = Inr s' \<Longrightarrow> fs_dirs s' = fs_dirs s"
  by (auto simp: writeFileSync_def split: if_splits)

lemma writeFileSync_exists:
  "writeFileSync s p d = Inr s' \<Longrightarrow> existsSync s' q \<longleftrightarrow> q = p \<or> existsSync s q"
  unfolding existsSync_def by (simp add: writeFileSync_files writeFileSync_dirs)

lemma mkdirSync_exists:
  "mkdirSync s p = Inr s' \<Longrightarrow> existsSync s' q \<longleftrightarrow> q \<in> set (path_chain p) \<or> existsSync s q"
  by (auto simp: mkdirSync_def existsSync_def split: if_splits)

lemma mkdirSync_files: "mkdirSync s p = Inr s' \<Longrightarrow> fs_files s' = fs_files s"
  by (auto simp: mkdirSync_def split: if_splits)

lemma mkdirSync_dirs:
  "mkdirSync s p = Inr s' \<Longrightarrow> set (fs_dirs s') = set (path_chain p) \<union> set (fs_dirs s)"
  by (auto simp: mkdirSync_def split: if_splits)

lemma mkdirSync_read:
  "mkdirSync s p = Inr s' \<Longrightarrow> readFileSync s q = Inr d \<Longrightarrow> readFileSync s' q = Inr d"
  by (auto simp: readFileSync_def mkdirSync_files split: option.splits)

text \<open>
  The contract of a store of files. A series is a sequence of file names, its contents the files
  that are there: numbered from zero without a gap.
\<close>

locale file_store =
  fixes exists :: "'s \<Rightarrow> string \<Rightarrow> bool"
    and get_file :: "'s \<Rightarrow> string \<Rightarrow> string res"
    and put_file :: "'s \<Rightarrow> string \<Rightarrow> string \<Rightarrow> 's res"
    and mkdir :: "'s \<Rightarrow> string \<Rightarrow> 's res"
    and chain :: "string \<Rightarrow> string set"
  assumes read_write:
    "put_file s p d = Inr s' \<Longrightarrow> get_file s' q = (if q = p then Inr d else get_file s q)"
    and exists_write: "put_file s p d = Inr s' \<Longrightarrow> exists s' q \<longleftrightarrow> q = p \<or> exists s q"
    and read_mkdir: "mkdir s p = Inr s' \<Longrightarrow> get_file s q = Inr d \<Longrightarrow> get_file s' q = Inr d"
    and exists_mkdir: "mkdir s p = Inr s' \<Longrightarrow> exists s' q \<longleftrightarrow> q \<in> chain p \<or> exists s q"
begin

definition holds_series :: "'s \<Rightarrow> (nat \<Rightarrow> string) \<Rightarrow> string list \<Rightarrow> bool" where
  "holds_series s f ds \<longleftrightarrow>
     (\<forall>i. exists s (f i) \<longleftrightarrow> i < length ds) \<and> (\<forall>i<length ds. get_file s (f i) = Inr (ds ! i))"

lemma series_exists: "holds_series s f ds \<Longrightarrow> exists s (f i) \<longleftrightarrow> i < length ds"
  by (simp add: holds_series_def)

lemma series_read: "holds_series s f ds \<Longrightarrow> i < length ds \<Longrightarrow> get_file s (f i) = Inr (ds ! i)"
  by (simp add: holds_series_def)

lemma series_empty: "(\<And>i. \<not> exists s (f i)) \<Longrightarrow> holds_series s f []"
  by (simp add: holds_series_def)

lemma series_snoc:
  assumes "holds_series s f ds" and "inj f" and w: "put_file s (f (length ds)) d = Inr s'"
  shows "holds_series s' f (ds @ [d])"
  using assms(1,2)
  by (auto simp: holds_series_def exists_write [OF w] read_write [OF w] nth_append less_Suc_eq
      dest: injD)

lemma series_write_other:
  assumes "holds_series s f ds" and "p \<notin> range f" and w: "put_file s p d = Inr s'"
  shows "holds_series s' f ds"
proof -
  have "f i \<noteq> p" for i using assms(2) by auto
  with assms(1) show ?thesis
    by (simp add: holds_series_def exists_write [OF w] read_write [OF w])
qed

lemma series_mkdir:
  assumes "holds_series s f ds" and "range f \<inter> chain p = {}" and m: "mkdir s p = Inr s'"
  shows "holds_series s' f ds"
proof -
  have "f i \<notin> chain p" for i using assms(2) by auto
  with assms(1) show ?thesis
    by (simp add: holds_series_def exists_mkdir [OF m] read_mkdir [OF m])
qed

end

interpretation nfs: file_store existsSync readFileSync writeFileSync mkdirSync "\<lambda>p. set (path_chain p)"
  by unfold_locales
    (auto simp: writeFileSync_read writeFileSync_exists mkdirSync_exists intro: mkdirSync_read)


section \<open>Well-formed trees\<close>

lemma parent_dir_join:
  assumes "CHR ''/'' \<notin> set n"
  shows "parent_dir (p @ ''/'' @ n) = p"
proof -
  have "dropWhile (\<lambda>c. c \<noteq> CHR ''/'') (rev n @ CHR ''/'' # rev p) = CHR ''/'' # rev p"
    using assms by (subst dropWhile_append2) auto
  then show ?thesis by (simp add: parent_dir_def)
qed

text \<open>
  Every file lies in a directory that exists, and so does every directory up to the current one or
  the root; the operations keep it so.
\<close>

definition fs_wf :: "fs \<Rightarrow> bool" where
  "fs_wf s \<longleftrightarrow>
     (\<forall>p\<in>fst ` set (fs_files s). parent_dir p \<in> set (fs_dirs s)) \<and>
     (\<forall>p\<in>set (fs_dirs s). parent_dir p \<in> insert [] (insert ''.'' (set (fs_dirs s))))"

lemma writeFileSync_wf: "fs_wf s \<Longrightarrow> writeFileSync s p d = Inr s' \<Longrightarrow> fs_wf s'"
  unfolding fs_wf_def
  by (simp add: writeFileSync_files writeFileSync_dirs) (simp add: writeFileSync_def split: if_splits)

lemma last_slash:
  assumes "CHR ''/'' \<in> set p"
  obtains r n where "p = r @ ''/'' @ n" and "CHR ''/'' \<notin> set n" and "parent_dir p = r"
proof -
  obtain r n where "p = r @ CHR ''/'' # n" "CHR ''/'' \<notin> set n"
    using split_list_last [OF assms] by blast
  then show ?thesis using parent_dir_join [of n r] that [of r n] by simp
qed

lemma path_chain_mem:
  "q \<in> set (path_chain p) \<longleftrightarrow> q = p \<or> q \<noteq> [] \<and> (\<exists>t. p = q @ ''/'' @ t)"
proof
  assume "q \<in> set (path_chain p)"
  then have "q = p \<or> (\<exists>i. 0 < i \<and> i < length p \<and> p ! i = CHR ''/'' \<and> q = take i p)"
    by (auto simp: path_chain_def)
  then show "q = p \<or> q \<noteq> [] \<and> (\<exists>t. p = q @ ''/'' @ t)"
  proof
    assume "\<exists>i. 0 < i \<and> i < length p \<and> p ! i = CHR ''/'' \<and> q = take i p"
    then obtain i where i: "0 < i" "i < length p" "p ! i = CHR ''/''" "q = take i p" by blast
    have "p = q @ ''/'' @ drop (Suc i) p"
      using id_take_nth_drop [OF i(2)] unfolding i(3,4) by simp
    moreover have "q \<noteq> []" using i by auto
    ultimately show ?thesis by blast
  qed simp
next
  assume "q = p \<or> q \<noteq> [] \<and> (\<exists>t. p = q @ ''/'' @ t)"
  then show "q \<in> set (path_chain p)"
  proof
    assume "q \<noteq> [] \<and> (\<exists>t. p = q @ ''/'' @ t)"
    then obtain t where "q \<noteq> []" and p: "p = q @ ''/'' @ t" by blast
    then have "length q \<in> set (filter (\<lambda>i. p ! i = CHR ''/'') [1..<length p])"
      by (simp add: Suc_le_eq)
    moreover have "take (length q) p = q" using p by simp
    ultimately show ?thesis unfolding path_chain_def set_append set_map
      by (intro UnI1 image_eqI [where x = "length q"]) simp_all
  qed simp
qed

lemma path_chain_parent:
  assumes "q \<in> set (path_chain p)"
  shows "parent_dir q \<in> insert [] (insert ''.'' (set (path_chain p)))"
proof (cases "CHR ''/'' \<in> set q")
  case True
  then obtain r n where q: "q = r @ ''/'' @ n" "parent_dir q = r" by (rule last_slash)
  have "p = q \<or> (\<exists>t. p = q @ ''/'' @ t)" using assms by (auto simp: path_chain_mem)
  then have "\<exists>t. p = r @ ''/'' @ t" using q(1) by auto
  then show ?thesis using q(2) by (auto simp: path_chain_mem)
qed (simp add: parent_dir_def)

lemma mkdirSync_wf: "fs_wf s \<Longrightarrow> mkdirSync s p = Inr s' \<Longrightarrow> fs_wf s'"
  using path_chain_parent [of _ p]
  by (auto simp: fs_wf_def mkdirSync_files mkdirSync_dirs)

lemma fs_wf_no_entry:
  assumes "fs_wf s" and "\<not> existsSync s (parent_dir p)" and "CHR ''/'' \<in> set (parent_dir p)"
  shows "\<not> existsSync s p"
  using assms by (auto simp: fs_wf_def existsSync_def)

end
