(* ===== verification/JsNumber.thy ===== *)
theory JsNumber
  imports JsString
begin

text \<open>
  Numbers of JavaScript: the Number type with the IEEE-754 rounding of its conversions, the
  conversion of strings to Number, comparison, remainder and division, and BigInt. The values of
  command-line options are strings or undefined, and the scripts compare them with numbers; the
  coercions of these comparisons are written out here. The sign of zero is left out: no operation
  of the scripts observes it.
\<close>


section \<open>The Number type\<close>

datatype jsnum = NaN | PosInf | NegInf | Fin rat

definition round_half_even :: "rat \<Rightarrow> int" where
  "round_half_even x =
     (let f = \<lfloor>x\<rfloor>; r = x - of_int f in
      if r < 1/2 then f else if 1/2 < r then f + 1 else if even f then f else f + 1)"

text \<open>The largest \<open>e\<close> with \<open>2 ^ e \<le> q\<close>, for positive \<open>q\<close>.\<close>

definition floor_log2 :: "rat \<Rightarrow> int" where
  "floor_log2 q =
     (let (n, d) = quotient_of q; e = int (floorlog 2 (nat n)) - int (floorlog 2 (nat d)) in
      if 2 powi e \<le> q then e else e - 1)"

text \<open>
  The double nearest to a rational: 53 significant bits, ties to even, gradual underflow below
  \<open>2 ^ -1022\<close> and overflow to infinity at \<open>2 ^ 1024\<close>.
\<close>

definition double_overflow :: rat where
  "double_overflow = 2 ^ 1024"

definition double_of_rat :: "rat \<Rightarrow> jsnum" where
  "double_of_rat q =
     (if q = 0 then Fin 0 else
      let a = \<bar>q\<bar>;
          e = max (floor_log2 a - 52) (-1074);
          v = of_int (round_half_even (a / 2 powi e)) * 2 powi e
      in if double_overflow \<le> v then (if 0 < q then PosInf else NegInf) else Fin (sgn q * v))"

fun num_lt :: "jsnum \<Rightarrow> jsnum \<Rightarrow> bool" where
  "num_lt (Fin a) (Fin b) = (a < b)"
| "num_lt NegInf (Fin b) = True"
| "num_lt NegInf PosInf = True"
| "num_lt (Fin a) PosInf = True"
| "num_lt _ _ = False"

definition num_eq :: "jsnum \<Rightarrow> jsnum \<Rightarrow> bool" where
  "num_eq a b \<longleftrightarrow> a \<noteq> NaN \<and> a = b"

definition num_le :: "jsnum \<Rightarrow> jsnum \<Rightarrow> bool" where
  "num_le a b \<longleftrightarrow> num_lt a b \<or> num_eq a b"

text \<open>The remainder operator: truncating division, the sign of the dividend.\<close>

fun num_rem :: "jsnum \<Rightarrow> jsnum \<Rightarrow> jsnum" where
  "num_rem (Fin a) (Fin b) =
     (if b = 0 then NaN else Fin (sgn a * (\<bar>a\<bar> - \<bar>b\<bar> * of_int \<lfloor>\<bar>a\<bar> / \<bar>b\<bar>\<rfloor>)))"
| "num_rem (Fin a) PosInf = Fin a"
| "num_rem (Fin a) NegInf = Fin a"
| "num_rem _ _ = NaN"

text \<open>Division by a finite non-zero constant.\<close>

fun num_div_const :: "jsnum \<Rightarrow> rat \<Rightarrow> jsnum" where
  "num_div_const (Fin a) c = double_of_rat (a / c)"
| "num_div_const x c = x"

fun num_add :: "jsnum \<Rightarrow> jsnum \<Rightarrow> jsnum" where
  "num_add (Fin a) (Fin b) = double_of_rat (a + b)"
| "num_add NaN _ = NaN"
| "num_add _ NaN = NaN"
| "num_add PosInf NegInf = NaN"
| "num_add NegInf PosInf = NaN"
| "num_add PosInf _ = PosInf"
| "num_add _ PosInf = PosInf"
| "num_add NegInf _ = NegInf"
| "num_add _ NegInf = NegInf"


section \<open>Strings to numbers\<close>

text \<open>Non-decimal literals \<open>0x\<close>, \<open>0o\<close> and \<open>0b\<close>.\<close>

definition radix_digit :: "char \<Rightarrow> nat" where
  "radix_digit c =
     (let n = (of_char c :: nat) in
      if 48 \<le> n \<and> n \<le> 57 then n - 48
      else if 97 \<le> n \<and> n \<le> 102 then n - 87
      else if 65 \<le> n \<and> n \<le> 70 then n - 55
      else 255)"

definition radix_val :: "nat \<Rightarrow> string \<Rightarrow> nat option" where
  "radix_val b s =
     (if s \<noteq> [] \<and> list_all (\<lambda>c. radix_digit c < b) s
      then Some (foldl (\<lambda>a c. b * a + radix_digit c) 0 s) else None)"

definition radix_prefix :: "string \<Rightarrow> nat option" where
  "radix_prefix s =
     (case s of
        c # x # _ \<Rightarrow>
          if c \<noteq> CHR ''0'' then None
          else if x \<in> {CHR ''x'', CHR ''X''} then Some 16
          else if x \<in> {CHR ''o'', CHR ''O''} then Some 8
          else if x \<in> {CHR ''b'', CHR ''B''} then Some 2
          else None
      | _ \<Rightarrow> None)"

definition split_sign :: "string \<Rightarrow> int \<times> string" where
  "split_sign s =
     (case s of
        c # t \<Rightarrow> if c = CHR ''-'' then (-1, t) else if c = CHR ''+'' then (1, t) else (1, s)
      | [] \<Rightarrow> (1, s))"

definition signed_digits :: "string \<Rightarrow> int option" where
  "signed_digits s =
     (let (sg, t) = split_sign s in
      if t \<noteq> [] \<and> list_all is_digit t then Some (sg * int (digits_val t)) else None)"

text \<open>
  An unsigned decimal literal as a mantissa and a power of ten: digits with an optional point and
  an optional exponent, at least one digit in the mantissa.
\<close>

definition unsigned_decimal :: "string \<Rightarrow> (nat \<times> int) option" where
  "unsigned_decimal s =
     (let i = takeWhile is_digit s;
          r = dropWhile is_digit s;
          (f, r') = (case r of
                       c # t \<Rightarrow> if c = CHR ''.'' then (takeWhile is_digit t, dropWhile is_digit t)
                                else ([], r)
                     | [] \<Rightarrow> ([], r))
      in if i = [] \<and> f = [] then None
         else (case r' of
                 [] \<Rightarrow> Some (digits_val (i @ f), - int (length f))
               | c # t \<Rightarrow>
                   if c = CHR ''e'' \<or> c = CHR ''E''
                   then map_option (\<lambda>x. (digits_val (i @ f), x - int (length f))) (signed_digits t)
                   else None))"

definition StringToNumber :: "string \<Rightarrow> jsnum" where
  "StringToNumber s =
     (let t = js_trim s in
      if t = [] then Fin 0
      else case radix_prefix t of
        Some b \<Rightarrow> (case radix_val b (drop 2 t) of
                     Some n \<Rightarrow> double_of_rat (of_nat n) | None \<Rightarrow> NaN)
      | None \<Rightarrow>
          (let (sg, u) = split_sign t in
           if u = ''Infinity'' then (if sg = 1 then PosInf else NegInf)
           else case unsigned_decimal u of
                  Some (m, e) \<Rightarrow> double_of_rat (of_int sg * of_nat m * 10 powi e)
                | None \<Rightarrow> NaN))"

text \<open>\<open>BigInt(s)\<close>: white space is trimmed and the empty string is zero.\<close>

definition BigInt :: "string \<Rightarrow> int res" where
  "BigInt s =
     (let t = js_trim s in
      if t = [] then Inr 0
      else case radix_prefix t of
        Some b \<Rightarrow> (case radix_val b (drop 2 t) of
                     Some n \<Rightarrow> Inr (int n) | None \<Rightarrow> Inl (SyntaxError ''BigInt''))
      | None \<Rightarrow> (case signed_digits t of
                     Some n \<Rightarrow> Inr n | None \<Rightarrow> Inl (SyntaxError ''BigInt'')))"

text \<open>\<open>n.toString()\<close> of a BigInt.\<close>

definition show_int :: "int \<Rightarrow> string" where
  "show_int n = (if n < 0 then CHR ''-'' # show_nat (nat (- n)) else show_nat (nat n))"


section \<open>Option values\<close>

text \<open>
  The value of a variable that the scripts set from a default or from the command line: a number
  or an array element that may be missing.
\<close>

datatype jsval = Undefined | Str string | Num jsnum

fun ToNumber :: "jsval \<Rightarrow> jsnum" where
  "ToNumber Undefined = NaN"
| "ToNumber (Str s) = StringToNumber s"
| "ToNumber (Num n) = n"

text \<open>\<open>v == n\<close> for a number \<open>n\<close>: a string operand is converted, undefined equals no number.\<close>

fun loose_eq_num :: "jsval \<Rightarrow> jsnum \<Rightarrow> bool" where
  "loose_eq_num Undefined n = False"
| "loose_eq_num (Str s) n = num_eq (StringToNumber s) n"
| "loose_eq_num (Num m) n = num_eq m n"

abbreviation num_of_nat :: "nat \<Rightarrow> jsnum" where
  "num_of_nat n \<equiv> Fin (of_nat n)"


section \<open>Digit strings\<close>

lemma digit_not_sign: "is_digit c \<Longrightarrow> c \<noteq> CHR ''-'' \<and> c \<noteq> CHR ''+'' \<and> c \<noteq> CHR ''.''"
  by (auto simp: is_digit_def)

lemma split_sign_digits:
  "s \<noteq> [] \<Longrightarrow> list_all is_digit s \<Longrightarrow> split_sign s = (1, s)"
  by (cases s) (auto simp: split_sign_def dest: digit_not_sign)

lemma signed_digits_digits [digit_simps]:
  "s \<noteq> [] \<Longrightarrow> list_all is_digit s \<Longrightarrow> signed_digits s = Some (int (digits_val s))"
  by (simp add: signed_digits_def split_sign_digits)

lemma radix_prefix_digits [digit_simps]: "list_all is_digit s \<Longrightarrow> radix_prefix s = None"
  by (auto simp: radix_prefix_def is_digit_def split: list.splits)

lemma js_trim_digits [digit_simps]: "list_all is_digit s \<Longrightarrow> js_trim s = s"
  by (rule js_trim_no_space) (auto simp: list_all_iff dest: not_space_digit)

lemma BigInt_digits [digit_simps]:
  "list_all is_digit s \<Longrightarrow> BigInt s = Inr (int (digits_val s))"
  by (cases "s = []")
    (simp_all add: BigInt_def js_trim_digits radix_prefix_digits signed_digits_digits)

lemma list_all_show_nat [simp, digit_simps]: "list_all is_digit (show_nat n)"
  by (auto simp: list_all_iff dest: show_nat_digits)

lemma BigInt_show_nat [simp, digit_simps]: "BigInt (show_nat n) = Inr (int n)"
  by (simp add: BigInt_digits)

lemma BigInt_show_int: "0 \<le> n \<Longrightarrow> BigInt (show_int n) = Inr n"
  by (simp add: show_int_def)

lemma unsigned_decimal_digits:
  assumes "s \<noteq> []" and "list_all is_digit s"
  shows "unsigned_decimal s = Some (digits_val s, 0)"
proof -
  have tw: "takeWhile is_digit s = s" and dw: "dropWhile is_digit s = []"
    using assms by (simp_all add: list_all_iff)
  show ?thesis using assms(1) by (simp add: unsigned_decimal_def Let_def tw dw)
qed

lemma StringToNumber_digits [digit_simps]:
  assumes "s \<noteq> []" and "list_all is_digit s"
  shows "StringToNumber s = double_of_rat (of_nat (digits_val s))"
proof -
  have "s \<noteq> ''Infinity''"
    using assms(2) by (auto simp: is_digit_def)
  with assms show ?thesis
    by (simp add: StringToNumber_def js_trim_digits radix_prefix_digits split_sign_digits
        unsigned_decimal_digits)
qed

lemma num_rem_nat:
  assumes "0 < b"
  shows "num_rem (num_of_nat n) (num_of_nat b) = num_of_nat (n mod b)"
proof (cases "n = 0")
  case True
  with assms show ?thesis by simp
next
  case False
  have "\<lfloor>of_nat n / (of_nat b :: rat)\<rfloor> = int (n div b)" by (rule floor_divide_of_nat_eq)
  moreover have "of_nat n - of_nat b * of_nat (n div b) = (of_nat (n mod b) :: rat)"
    by (metis add_diff_cancel_left' div_mult_mod_eq mult.commute of_nat_add of_nat_mult)
  ultimately show ?thesis using assms False by simp
qed


section \<open>Rounding\<close>

lemma floorlog_rat_bounds:
  assumes "0 < n"
  shows "2 powi (int (floorlog 2 (nat n)) - 1) \<le> (of_int n :: rat)"
    and "(of_int n :: rat) < 2 powi int (floorlog 2 (nat n))"
proof -
  define a where "a = floorlog 2 (nat n)"
  have A: "2 ^ (a - 1) \<le> nat n" "nat n < 2 ^ a"
    unfolding a_def using floorlog_bounds [of "nat n" 2] assms by auto
  have a1: "0 < a" using A(2) assms by (cases a) auto
  have "(2::rat) powi (int a - 1) = 2 ^ (a - 1)"
    using a1 by (simp add: power_int_def nat_diff_distrib' of_nat_diff)
  moreover have "of_nat (2 ^ (a - 1)) \<le> (of_nat (nat n) :: rat)" using A(1) by (rule of_nat_mono)
  ultimately show "2 powi (int (floorlog 2 (nat n)) - 1) \<le> (of_int n :: rat)"
    using assms by (simp add: a_def)
  have "(of_nat (nat n) :: rat) < of_nat (2 ^ a)" using A(2) by (rule of_nat_less_iff [THEN iffD2])
  then show "(of_int n :: rat) < 2 powi int (floorlog 2 (nat n))"
    using assms by (simp add: a_def)
qed

lemma floor_log2_bounds:
  assumes "0 < q"
  shows "2 powi floor_log2 q \<le> q" and "q < 2 powi (floor_log2 q + 1)"
proof -
  obtain n d where nd: "quotient_of q = (n, d)" by (cases "quotient_of q")
  then have d: "0 < d" and q: "q = of_int n / of_int d"
    by (auto dest: quotient_of_denom_pos quotient_of_div)
  with assms have n: "0 < n" by (simp add: zero_less_divide_iff)
  define a b where "a = int (floorlog 2 (nat n))" and "b = int (floorlog 2 (nat d))"
  note N = floorlog_rat_bounds [OF n, folded a_def] and D = floorlog_rat_bounds [OF d, folded b_def]
  have "2 powi (a - b - 1) = 2 powi (a - 1) / (2 :: rat) powi b"
    by (simp add: power_int_diff)
  also have "\<dots> \<le> q"
    unfolding q using N(1) D(2) n d by (intro frac_le) auto
  finally have lo: "2 powi (a - b - 1) \<le> q" .
  have "q < 2 powi a / (2 :: rat) powi (b - 1)"
    unfolding q using N(2) D(1) n d by (intro frac_less) auto
  also have "\<dots> = 2 powi (a - b + 1)"
    by (simp add: power_int_diff power_int_add)
  finally have hi: "q < 2 powi (a - b + 1)" .
  have fl: "floor_log2 q = (if 2 powi (a - b) \<le> q then a - b else a - b - 1)"
    by (simp add: floor_log2_def nd a_def b_def Let_def)
  show "2 powi floor_log2 q \<le> q" using lo fl by simp
  show "q < 2 powi (floor_log2 q + 1)" using hi fl by simp
qed


lemma round_half_even_of_int [simp]: "round_half_even (of_int k) = k"
  by (simp add: round_half_even_def)

lemma round_half_even_ge: "of_int k \<le> x \<Longrightarrow> k \<le> round_half_even x"
  by (simp add: round_half_even_def Let_def le_floor_iff [symmetric])

lemma round_half_even_half:
  "round_half_even (of_int k / 2) = (if even k then k div 2 else if even (k div 2) then k div 2 else k div 2 + 1)"
proof (cases "even k")
  case True
  then obtain j where "k = 2 * j" by blast
  then show ?thesis by simp
next
  case False
  then obtain j where j: "k = 2 * j + 1" using oddE by blast
  have fl: "\<lfloor>(of_int k / 2 :: rat)\<rfloor> = j" by (rule floor_unique) (simp_all add: j)
  have "(of_int k / 2 :: rat) - of_int j = 1 / 2" by (simp add: j field_simps)
  moreover have "k div 2 = j" using j by simp
  ultimately show ?thesis using False by (simp add: round_half_even_def fl Let_def)
qed

lemma power_int_2_less: "(2 :: rat) powi i < 2 powi j \<Longrightarrow> i < j"
  by (rule ccontr) (use power_int_increasing [of j i "2 :: rat"] in simp)

lemma floor_log2_eqI:
  assumes "2 powi k \<le> q" and "q < 2 powi (k + 1)"
  shows "floor_log2 q = k"
proof -
  have "0 < q" using assms(1) by (rule less_le_trans [rotated]) simp
  note b = floor_log2_bounds [OF this]
  have "(2::rat) powi floor_log2 q < 2 powi (k + 1)" using b(1) assms(2) by (rule le_less_trans)
  then have "floor_log2 q < k + 1" by (rule power_int_2_less)
  moreover have "(2::rat) powi k < 2 powi (floor_log2 q + 1)" using assms(1) b(2) by (rule le_less_trans)
  then have "k < floor_log2 q + 1" by (rule power_int_2_less)
  ultimately show ?thesis by simp
qed


lemma double_overflow_gt:
  assumes "q \<le> 2 powi k" and "k < 1024"
  shows "\<not> double_overflow \<le> q"
proof -
  have "(2 :: rat) powi k < 2 powi 1024" using assms(2) by (intro power_int_strict_increasing) auto
  also have "\<dots> = double_overflow"
    unfolding double_overflow_def power_int_def by (simp del: power_numeral)
  finally show ?thesis using assms(1) by simp
qed

lemma double_of_nat_small [digit_simps]:
  assumes "n < 2 ^ 53"
  shows "double_of_rat (of_nat n) = Fin (of_nat n)"
proof (cases "n = 0")
  case True
  then show ?thesis by (simp add: double_of_rat_def)
next
  case False
  define q :: rat where "q = of_nat n"
  define e where "e = max (floor_log2 q - 52) (-1074)"
  have q: "0 < q" using False by (simp add: q_def)
  have "q < of_nat (2 ^ 53)" unfolding q_def using assms by (rule of_nat_less_iff [THEN iffD2])
  then have qlt: "q < 2 powi 53" by simp
  with floor_log2_bounds(1) [OF q] have "2 powi floor_log2 q < (2 :: rat) powi 53"
    by (rule le_less_trans)
  then have "floor_log2 q < 53" by (rule power_int_2_less)
  then have e: "e \<le> 0" by (simp add: e_def)
  have p: "(2 :: rat) powi e = inverse (2 ^ nat (- e))"
    using power_int_minus [of "2 :: rat" "- e"] e by (simp add: power_int_def [of _ "- e"])
  have i: "q / 2 powi e = of_int (int n * 2 ^ nat (- e))"
    unfolding p by (simp add: q_def divide_inverse)
  have r: "of_int (round_half_even (q / 2 powi e)) * 2 powi e = q"
    unfolding i round_half_even_of_int by (simp add: p q_def)
  have big: "\<not> double_overflow \<le> q"
    using qlt by (intro double_overflow_gt [of q 53]) auto
  have "double_of_rat q = Fin (sgn q * q)"
    unfolding double_of_rat_def Let_def
    using q big by (simp add: e_def [symmetric] r)
  with q show ?thesis by (simp add: q_def)
qed

lemma double_of_rat_ge:
  assumes "2 powi k \<le> q" and "0 \<le> k"
  shows "double_of_rat q = PosInf \<or> (\<exists>v. double_of_rat q = Fin v \<and> 2 powi k \<le> v)"
proof -
  define e where "e = max (floor_log2 q - 52) (-1074)"
  have q: "0 < q" using assms(1) by (rule less_le_trans [rotated]) simp
  have "(2 :: rat) powi k < 2 powi (floor_log2 q + 1)"
    using assms(1) floor_log2_bounds(2) [OF q] by (rule le_less_trans)
  then have kl: "k \<le> floor_log2 q" using power_int_2_less by fastforce
  then have e: "e = floor_log2 q - 52" using assms(2) by (simp add: e_def)
  have "of_int (2 ^ 52) = (2 :: rat) powi floor_log2 q / 2 powi e"
    by (simp add: e power_int_diff)
  also have "\<dots> \<le> q / 2 powi e"
    using floor_log2_bounds(1) [OF q] by (simp add: divide_right_mono)
  finally have "2 ^ 52 \<le> round_half_even (q / 2 powi e)" by (rule round_half_even_ge)
  then have "of_int (2 ^ 52) \<le> (of_int (round_half_even (q / 2 powi e)) :: rat)"
    by (rule of_int_le_iff [THEN iffD2])
  then have "2 powi 52 * 2 powi e \<le> of_int (round_half_even (q / 2 powi e)) * (2 :: rat) powi e"
    by (intro mult_right_mono) simp_all
  moreover have "(2 :: rat) powi k \<le> 2 powi 52 * 2 powi e"
  proof -
    have "2 powi 52 * (2 :: rat) powi e = 2 powi floor_log2 q"
      by (simp add: e power_int_diff)
    then show ?thesis using kl by (simp add: power_int_increasing)
  qed
  ultimately have "2 powi k \<le> of_int (round_half_even (q / 2 powi e)) * (2 :: rat) powi e"
    by (rule order_trans [rotated])
  then show ?thesis
    using q unfolding double_of_rat_def Let_def by (auto simp: e_def [symmetric])
qed

lemma double_of_nat_odd_range:
  assumes "2 ^ 53 \<le> n" and "n < 2 ^ 54"
  shows "double_of_rat (of_nat n) = Fin (2 * of_int (round_half_even (of_nat n / 2)))"
proof -
  define q :: rat where "q = of_nat n"
  have "of_nat (2 ^ 53) \<le> q" unfolding q_def using assms(1) by (rule of_nat_mono)
  then have lo: "2 powi 53 \<le> q" by simp
  have "q < of_nat (2 ^ 54)" unfolding q_def using assms(2) by (rule of_nat_less_iff [THEN iffD2])
  then have hi: "q < 2 powi (53 + 1)" by simp
  have q: "0 < q" using lo by simp
  have fl: "floor_log2 q = 53" using lo hi by (rule floor_log2_eqI)
  have m: "round_half_even (q / 2) \<le> 2 ^ 53"
  proof -
    have "\<lfloor>q / 2\<rfloor> < 2 ^ 53" using hi by (simp add: floor_less_iff)
    then show ?thesis by (simp add: round_half_even_def Let_def)
  qed
  have "of_int (round_half_even (q / 2)) * 2 \<le> (2 :: rat) powi 54"
  proof -
    have "(of_int (round_half_even (q / 2)) :: rat) \<le> of_int (2 ^ 53)"
      using m by (rule of_int_le_iff [THEN iffD2])
    then show ?thesis by simp
  qed
  then have "\<not> double_overflow \<le> of_int (round_half_even (q / 2)) * 2"
    by (rule double_overflow_gt) simp
  with q show ?thesis
    unfolding q_def [symmetric] double_of_rat_def Let_def by (simp add: fl mult.commute)
qed


section \<open>Rounding keeps the order\<close>

lemma round_half_even_floor: "\<lfloor>x\<rfloor> \<le> round_half_even x" "round_half_even x \<le> \<lfloor>x\<rfloor> + 1"
  by (simp_all add: round_half_even_def Let_def)

lemma round_half_even_mono:
  assumes "x \<le> y"
  shows "round_half_even x \<le> round_half_even y"
proof (cases "\<lfloor>x\<rfloor> = \<lfloor>y\<rfloor>")
  case True
  then show ?thesis using assms by (auto simp: round_half_even_def Let_def)
next
  case False
  then have "\<lfloor>x\<rfloor> + 1 \<le> \<lfloor>y\<rfloor>" using floor_mono [OF assms] by simp
  then show ?thesis using round_half_even_floor(2) [of x] round_half_even_floor(1) [of y] by simp
qed

text \<open>The double of a rational from 1 on that is far from the overflow.\<close>

definition rounded :: "rat \<Rightarrow> rat" where
  "rounded q = of_int (round_half_even (q / 2 powi (floor_log2 q - 52))) * 2 powi (floor_log2 q - 52)"

lemma floor_log2_mono:
  assumes "0 < p" and "p \<le> q"
  shows "floor_log2 p \<le> floor_log2 q"
proof -
  have "0 < q" using assms by simp
  have "2 powi floor_log2 p \<le> q" using floor_log2_bounds(1) [OF assms(1)] assms(2) by (rule order_trans)
  also have "q < 2 powi (floor_log2 q + 1)" by (rule floor_log2_bounds(2) [OF \<open>0 < q\<close>])
  finally have "floor_log2 p < floor_log2 q + 1" by (rule power_int_2_less)
  then show ?thesis by simp
qed

lemma rounded_bounds:
  assumes "0 < q"
  shows "2 powi floor_log2 q \<le> rounded q" and "rounded q \<le> 2 powi (floor_log2 q + 1)"
proof -
  let ?e = "floor_log2 q - 52"
  have pos: "0 < (2 :: rat) powi ?e" by simp
  have lo: "of_int (2 ^ 52) \<le> q / 2 powi ?e"
    using floor_log2_bounds(1) [OF assms] by (simp add: pos_le_divide_eq power_int_diff)
  have hi: "q / 2 powi ?e \<le> of_int (2 ^ 53)"
    using floor_log2_bounds(2) [OF assms] by (simp add: pos_divide_le_eq power_int_diff power_int_add)
  have "2 ^ 52 \<le> round_half_even (q / 2 powi ?e)" using round_half_even_mono [OF lo] by (simp only: round_half_even_of_int)
  then have "of_int (2 ^ 52) * 2 powi ?e \<le> rounded q"
    unfolding rounded_def by (intro mult_right_mono of_int_le_iff [THEN iffD2]) simp_all
  then show "2 powi floor_log2 q \<le> rounded q" by (simp add: power_int_diff)
  have "round_half_even (q / 2 powi ?e) \<le> 2 ^ 53" using round_half_even_mono [OF hi] by (simp only: round_half_even_of_int)
  then have "rounded q \<le> of_int (2 ^ 53) * 2 powi ?e"
    unfolding rounded_def by (intro mult_right_mono of_int_le_iff [THEN iffD2]) simp_all
  then show "rounded q \<le> 2 powi (floor_log2 q + 1)" by (simp add: power_int_diff power_int_add)
qed

lemma rounded_mono:
  assumes "0 < p" and "p \<le> q"
  shows "rounded p \<le> rounded q"
proof (cases "floor_log2 p = floor_log2 q")
  case True
  have "p / 2 powi (floor_log2 q - 52) \<le> q / 2 powi (floor_log2 q - 52)"
    using assms(2) by (simp add: divide_right_mono)
  then show ?thesis unfolding rounded_def True
    by (intro mult_right_mono of_int_le_iff [THEN iffD2] round_half_even_mono) simp_all
next
  case False
  have "0 < q" using assms by simp
  have "floor_log2 p + 1 \<le> floor_log2 q" using False floor_log2_mono [OF assms] by simp
  then have "2 powi (floor_log2 p + 1) \<le> (2 :: rat) powi floor_log2 q" by (simp add: power_int_increasing)
  then show ?thesis
    using rounded_bounds(2) [OF assms(1)] rounded_bounds(1) [OF \<open>0 < q\<close>] by linarith
qed

lemma double_of_rat_rounded:
  assumes "1 \<le> q" and "q < 2 powi 1000"
  shows "double_of_rat q = Fin (rounded q)"
proof -
  have q: "0 < q" using assms(1) by simp
  have "2 powi 0 \<le> q" using assms(1) by simp
  then have "(2 :: rat) powi 0 < 2 powi (floor_log2 q + 1)"
    using floor_log2_bounds(2) [OF q] by (rule le_less_trans)
  then have "0 < floor_log2 q + 1" by (rule power_int_2_less)
  then have e: "max (floor_log2 q - 52) (-1074) = floor_log2 q - 52" by simp
  have "(2 :: rat) powi floor_log2 q < 2 powi 1000"
    using floor_log2_bounds(1) [OF q] assms(2) by (rule le_less_trans)
  then have "floor_log2 q < 1000" by (rule power_int_2_less)
  then have "\<not> double_overflow \<le> rounded q"
    using rounded_bounds(2) [OF q] by (intro double_overflow_gt [of _ "floor_log2 q + 1"]) simp_all
  then show ?thesis
    using q e unfolding double_of_rat_def Let_def by (simp add: rounded_def)
qed

lemma double_of_nat_mono:
  assumes "m \<le> n" and "n < 2 ^ 128"
  shows "\<exists>u v. double_of_rat (of_nat m) = Fin u \<and> double_of_rat (of_nat n) = Fin v \<and> u \<le> v"
proof -
  have fin: "double_of_rat (of_nat k) = Fin (rounded (of_nat k))" if "0 < k" "k \<le> n" for k
  proof (rule double_of_rat_rounded)
    show "1 \<le> (of_nat k :: rat)" using that(1) by simp
    have "(of_nat k :: rat) < of_nat (2 ^ 128)" using that assms(2) by (intro of_nat_less_iff [THEN iffD2]) simp
    also have "\<dots> = 2 powi 128" by simp
    also have "\<dots> < 2 powi 1000" by (intro power_int_strict_increasing) simp_all
    finally show "(of_nat k :: rat) < 2 powi 1000" .
  qed
  have zero: "double_of_rat (of_nat 0) = Fin 0" by (simp add: double_of_rat_def)
  show ?thesis
  proof (cases "m = 0")
    case True
    have "0 \<le> rounded (of_nat n)" if "0 < n"
      by (rule order_trans [OF _ rounded_bounds(1)]) (simp_all add: that)
    then show ?thesis using True zero fin [of n] by (cases "n = 0") auto
  next
    case False
    then have "rounded (of_nat m) \<le> rounded (of_nat n)" using assms(1) by (intro rounded_mono) simp_all
    then show ?thesis using False fin assms(1) by auto
  qed
qed

lemma num_le_Fin: "num_le (Fin a) (Fin b) \<longleftrightarrow> a \<le> b"
  by (auto simp: num_le_def num_eq_def)

lemma double_of_rat_nonpos:
  assumes "q \<le> 0" and "0 \<le> b"
  shows "num_le (double_of_rat q) (Fin b)"
proof -
  define e where "e = max (floor_log2 \<bar>q\<bar> - 52) (-1074)"
  define v where "v = of_int (round_half_even (\<bar>q\<bar> / 2 powi e)) * (2 :: rat) powi e"
  have "0 \<le> round_half_even (\<bar>q\<bar> / 2 powi e)" by (rule round_half_even_ge) simp
  then have "0 \<le> v" by (simp add: v_def)
  moreover have "double_of_rat q = (if q = 0 then Fin 0 else if double_overflow \<le> v then NegInf else Fin (- v))"
    using assms(1) by (simp add: double_of_rat_def Let_def e_def [symmetric] v_def [symmetric] del: abs_of_nonpos)
  ultimately show ?thesis using assms(2) by (simp add: num_le_Fin num_le_def [of NegInf])
qed

end
