(* ===== verification/ClaimCsv.thy ===== *)
theory ClaimCsv
  imports JsNumber
begin

text \<open>
  The input side of \<open>scripts/claim/claim_init.js\<close>: amounts in tokens turned into base units
  (\<open>parse_amount\<close>), and the rows of the CSV file gathered in batches of beneficiaries
  (\<open>read_airdrop_csv\<close>). The CSV parser itself (neat-csv) is outside the repository: a row is what
  it delivers, the column labels with their strings.
\<close>


section \<open>Amounts\<close>

text \<open>
  \<open>18 - (tokens.length - 1 - decimal_position)\<close> zeros are appended, none when that is negative.
\<close>

definition parse_amount :: "string \<Rightarrow> string" where
  "parse_amount tokens =
     (let decimal_position = indexOf (CHR ''.'') tokens;
          multiplier = (if decimal_position \<noteq> -1
                        then 18 - (int (length tokens) - 1 - decimal_position) else 18);
          tokens' = strip_leading_zeros (replace_first (CHR ''.'') tokens)
      in tokens' @ replicate (nat multiplier) (CHR ''0''))"


section \<open>Beneficiaries\<close>

text \<open>
  A \<open>Map\<close> compares object keys by identity, so an object key carries the number of its allocation
  beside its contents.
\<close>

datatype beneficiary = Ethereum string | Substrate string

datatype map_key = KeyStr string | KeyObj nat beneficiary

type_synonym batch = "(map_key \<times> string) list"

type_synonym csv_row = "(string \<times> string) list"

definition map_has :: "batch \<Rightarrow> map_key \<Rightarrow> bool" where
  "map_has m k \<longleftrightarrow> k \<in> fst ` set m"

definition map_set :: "batch \<Rightarrow> map_key \<Rightarrow> string \<Rightarrow> batch" where
  "map_set m k v =
     (if map_has m k then map (\<lambda>(k', v'). if k' = k then (k', v) else (k', v')) m else m @ [(k, v)])"

definition USE_PALLET_TOKEN_CLAIM :: bool where
  "USE_PALLET_TOKEN_CLAIM = True"

record reader =
  rd_beneficiaries :: "batch list"
  rd_count :: nat
  rd_current_map :: batch
  rd_next_object :: nat

text \<open>The key under which an address is stored, or the complaint about its format.\<close>

definition beneficiary_key :: "bool \<Rightarrow> nat \<Rightarrow> string \<Rightarrow> map_key res" where
  "beneficiary_key use_token_claim obj address =
     (if use_token_claim then
        (if startsWith address ''0x'' then
           (if length address \<noteq> 42
            then Inl (ErrorMsg ''Unexpected format for Ethereum address'')
            else Inr (KeyObj obj (Ethereum address)))
         else
           (if length address \<noteq> 49
            then Inl (ErrorMsg ''Unexpected format for Substrate address'')
            else Inr (KeyObj obj (Substrate address))))
      else Inr (KeyStr address))"

definition read_row :: "bool \<Rightarrow> string \<Rightarrow> string \<Rightarrow> jsval \<Rightarrow> csv_row \<Rightarrow> reader \<Rightarrow> reader res" where
  "read_row use_token_claim address_col amount_col batch_size row rd =
     (case map_of row amount_col of
        None \<Rightarrow> Inl (ErrorMsg ''Cannot find any amount in column'')
      | Some tokens \<Rightarrow>
          (let amount = parse_amount tokens in
           res_bind (BigInt amount) (\<lambda>n.
             if n = 0 then Inr rd
             else
               (case map_of row address_col of
                  None \<Rightarrow> Inl (ErrorMsg ''Cannot find any address in column'')
                | Some address \<Rightarrow>
                    if map_has (rd_current_map rd) (KeyStr address)
                    then Inl (ErrorMsg ''Duplicate address found!'')
                    else res_bind (beneficiary_key use_token_claim (rd_next_object rd) address) (\<lambda>key.
                      (let m = map_set (rd_current_map rd) key amount;
                           count = rd_count rd + 1;
                           flush = num_eq (num_rem (num_of_nat count) (ToNumber batch_size)) (Fin 0)
                       in Inr \<lparr>rd_beneficiaries = (if flush then rd_beneficiaries rd @ [m]
                                                   else rd_beneficiaries rd),
                               rd_count = count,
                               rd_current_map = (if flush then [] else m),
                               rd_next_object = rd_next_object rd + 1\<rparr>))))))"

fun read_rows ::
  "bool \<Rightarrow> string \<Rightarrow> string \<Rightarrow> jsval \<Rightarrow> csv_row list \<Rightarrow> reader \<Rightarrow> reader res"
where
  "read_rows u ac tc b [] rd = Inr rd"
| "read_rows u ac tc b (row # rows) rd = res_bind (read_row u ac tc b row rd) (read_rows u ac tc b rows)"

definition empty_reader :: reader where
  "empty_reader = \<lparr>rd_beneficiaries = [], rd_count = 0, rd_current_map = [], rd_next_object = 0\<rparr>"

definition read_airdrop_csv :: "csv_row list \<Rightarrow> string \<Rightarrow> string \<Rightarrow> jsval \<Rightarrow> batch list res" where
  "read_airdrop_csv csv_data address_col amount_col batch_size =
     res_bind (read_rows USE_PALLET_TOKEN_CLAIM address_col amount_col batch_size csv_data empty_reader)
       (\<lambda>rd. Inr (rd_beneficiaries rd @ [rd_current_map rd]))"



section \<open>The value of an amount\<close>

lemma digit_not_point: "is_digit c \<Longrightarrow> c \<noteq> CHR ''.''"
  using digit_not_sign by blast

lemma digits_no_point: "list_all is_digit s \<Longrightarrow> CHR ''.'' \<notin> set s"
  by (auto simp: list_all_iff is_digit_def)

lemma replace_first_point:
  "list_all is_digit i \<Longrightarrow> replace_first (CHR ''.'') (i @ ''.'' @ f) = i @ f"
  by (simp add: replace_first_def remove1_append digits_no_point)

lemma indexOf_point:
  assumes "list_all is_digit i"
  shows "indexOf (CHR ''.'') (i @ ''.'' @ f) = int (length i)"
proof -
  have "takeWhile (\<lambda>x. x \<noteq> CHR ''.'') (i @ ''.'' @ f) = i"
    using digits_no_point [OF assms] by (subst takeWhile_append2) auto
  then show ?thesis by (simp add: indexOf_def)
qed

lemma parse_amount_point:
  assumes "list_all is_digit i"
  shows "parse_amount (i @ ''.'' @ f) =
    strip_leading_zeros (i @ f) @ replicate (18 - length f) (CHR ''0'')"
proof -
  have "nat (18 - (int (length (i @ ''.'' @ f)) - 1 - int (length i))) = 18 - length f" by simp
  then show ?thesis
    unfolding parse_amount_def Let_def indexOf_point [OF assms] replace_first_point [OF assms]
    by simp
qed

lemma parse_amount_integer:
  assumes "list_all is_digit i"
  shows "parse_amount i = strip_leading_zeros i @ replicate 18 (CHR ''0'')"
  using digits_no_point [OF assms]
  by (simp add: parse_amount_def Let_def indexOf_def replace_first_def remove1_idem)

lemma list_all_strip: "list_all P s \<Longrightarrow> list_all P (strip_leading_zeros s)"
  by (auto simp: strip_leading_zeros_def list_all_iff dest: set_dropWhileD)

lemma BigInt_scaled:
  assumes "list_all is_digit s"
  shows "BigInt (strip_leading_zeros s @ replicate n (CHR ''0'')) = Inr (int (digits_val s * 10 ^ n))"
proof -
  have "list_all is_digit (strip_leading_zeros s @ replicate n (CHR ''0''))"
    using list_all_strip [OF assms] by (auto simp: list_all_iff)
  then show ?thesis
    by (simp only: BigInt_digits) (simp add: digits_val_append strip_leading_zeros_def)
qed

text \<open>The number of tokens that a decimal \<open>i.f\<close> denotes.\<close>

definition tokens_denoted :: "string \<Rightarrow> string \<Rightarrow> rat" where
  "tokens_denoted i f = of_nat (digits_val i) + of_nat (digits_val f) / 10 ^ length f"

lemma tokens_denoted_scaled:
  "tokens_denoted i f * 10 ^ length f = of_nat (digits_val (i @ f))"
  by (simp add: tokens_denoted_def digits_val_append field_simps)



text \<open>
  An amount with more than 18 decimals is not rejected and not truncated: the result is the
  denoted amount of base units multiplied by a power of ten, one factor for each decimal beyond the
  eighteenth.
\<close>
theorem parse_amount_excess_decimals:
  assumes "list_all is_digit i" and "list_all is_digit f" and "18 < length f"
  shows "\<exists>n. BigInt (parse_amount (i @ ''.'' @ f)) = Inr n \<and>
    of_int n = tokens_denoted i f * 10 ^ 18 * 10 ^ (length f - 18)"
proof (intro exI conjI)
  show "BigInt (parse_amount (i @ ''.'' @ f)) = Inr (int (digits_val (i @ f)))"
    unfolding parse_amount_point [OF assms(1)] using assms BigInt_scaled [of "i @ f" 0] by simp
  have "(10 :: rat) ^ 18 * 10 ^ (length f - 18) = 10 ^ length f"
    using assms(3) by (simp only: power_add [symmetric]) simp
  then show "of_int (int (digits_val (i @ f))) =
      tokens_denoted i f * 10 ^ 18 * 10 ^ (length f - 18)"
    by (simp add: mult.assoc tokens_denoted_scaled)
qed

theorem parse_amount_excess_decimals_witness:
  "\<exists>n. BigInt (parse_amount (''0'' @ ''.'' @ ''1234567890123456789'')) = Inr n \<and>
    of_int n = tokens_denoted ''0'' ''1234567890123456789'' * 10 ^ 18 *
      10 ^ (length ''1234567890123456789'' - 18)"
  by (rule parse_amount_excess_decimals) (simp_all add: is_digit_def)


section \<open>The rows and the batches\<close>

text \<open>
  The reference description of the file: the entries of the rows with a non-zero amount, in their
  order, or the first complaint.
\<close>

definition classify_address :: "string \<Rightarrow> beneficiary res" where
  "classify_address address =
     (if startsWith address ''0x'' \<and> length address = 42 then Inr (Ethereum address)
      else if startsWith address ''0x''
        then Inl (ErrorMsg ''Unexpected format for Ethereum address'')
      else if length address = 49 then Inr (Substrate address)
      else Inl (ErrorMsg ''Unexpected format for Substrate address''))"

definition row_entry :: "string \<Rightarrow> string \<Rightarrow> csv_row \<Rightarrow> (beneficiary \<times> string) list res" where
  "row_entry address_col amount_col row =
     (case map_of row amount_col of
        None \<Rightarrow> Inl (ErrorMsg ''Cannot find any amount in column'')
      | Some tokens \<Rightarrow>
          res_bind (BigInt (parse_amount tokens)) (\<lambda>n.
            if n = 0 then Inr []
            else (case map_of row address_col of
                    None \<Rightarrow> Inl (ErrorMsg ''Cannot find any address in column'')
                  | Some address \<Rightarrow>
                      res_bind (classify_address address) (\<lambda>b. Inr [(b, parse_amount tokens)]))))"

fun csv_entries :: "string \<Rightarrow> string \<Rightarrow> csv_row list \<Rightarrow> (beneficiary \<times> string) list res" where
  "csv_entries ac tc [] = Inr []"
| "csv_entries ac tc (row # rows) =
     res_bind (row_entry ac tc row) (\<lambda>e. res_bind (csv_entries ac tc rows) (\<lambda>es. Inr (e @ es)))"

fun batch_entry :: "map_key \<times> string \<Rightarrow> beneficiary \<times> string" where
  "batch_entry (KeyObj _ b, amount) = (b, amount)"
| "batch_entry (KeyStr s, amount) = (Substrate s, amount)"

definition entries_of :: "batch list \<Rightarrow> (beneficiary \<times> string) list" where
  "entries_of bs = map batch_entry (concat bs)"

definition reader_contents :: "reader \<Rightarrow> batch" where
  "reader_contents rd = concat (rd_beneficiaries rd) @ rd_current_map rd"

text \<open>Every key is an object, allocated before the next one.\<close>

definition object_keys :: "reader \<Rightarrow> bool" where
  "object_keys rd \<longleftrightarrow>
     (\<forall>k\<in>fst ` set (rd_current_map rd). \<exists>i b. k = KeyObj i b \<and> i < rd_next_object rd)"

definition flushes :: "jsval \<Rightarrow> nat \<Rightarrow> bool" where
  "flushes batch_size count \<longleftrightarrow>
     num_eq (num_rem (num_of_nat count) (ToNumber batch_size)) (Fin 0)"

definition push_entry :: "jsval \<Rightarrow> beneficiary \<times> string \<Rightarrow> reader \<Rightarrow> reader" where
  "push_entry batch_size e rd =
     (let m = rd_current_map rd @ [(KeyObj (rd_next_object rd) (fst e), snd e)];
          fl = flushes batch_size (rd_count rd + 1)
      in \<lparr>rd_beneficiaries = (if fl then rd_beneficiaries rd @ [m] else rd_beneficiaries rd),
          rd_count = rd_count rd + 1,
          rd_current_map = (if fl then [] else m),
          rd_next_object = rd_next_object rd + 1\<rparr>)"

lemma object_keys_no_string: "object_keys rd \<Longrightarrow> \<not> map_has (rd_current_map rd) (KeyStr s)"
  by (auto simp: object_keys_def map_has_def)

lemma object_keys_fresh:
  "object_keys rd \<Longrightarrow> \<not> map_has (rd_current_map rd) (KeyObj (rd_next_object rd) b)"
  by (auto simp: object_keys_def map_has_def)

lemma push_entry_object_keys: "object_keys rd \<Longrightarrow> object_keys (push_entry b e rd)"
  by (auto simp: object_keys_def push_entry_def Let_def less_Suc_eq)

lemma beneficiary_key_classify:
  "beneficiary_key True i address = res_bind (classify_address address) (\<lambda>b. Inr (KeyObj i b))"
  by (simp add: beneficiary_key_def classify_address_def)

lemma read_row_entry:
  assumes "object_keys rd"
  shows "read_row True ac tc b row rd =
    res_bind (row_entry ac tc row) (\<lambda>es. Inr (fold (push_entry b) es rd))"
  using assms
  by (auto simp: read_row_def row_entry_def res_bind_def beneficiary_key_classify
      object_keys_no_string object_keys_fresh map_set_def push_entry_def flushes_def Let_def
      split: option.splits sum.splits)

lemma fold_push_object_keys: "object_keys rd \<Longrightarrow> object_keys (fold (push_entry b) es rd)"
  by (induction es arbitrary: rd) (simp_all add: push_entry_object_keys)

lemma read_rows_entries:
  assumes "object_keys rd"
  shows "read_rows True ac tc b rows rd =
    res_bind (csv_entries ac tc rows) (\<lambda>es. Inr (fold (push_entry b) es rd))"
  using assms
proof (induction rows arbitrary: rd)
  case Nil
  then show ?case by simp
next
  case (Cons row rows)
  show ?case
  proof (cases "row_entry ac tc row")
    case (Inl e)
    with Cons.prems show ?thesis by (simp add: read_row_entry)
  next
    case (Inr es)
    have "object_keys (fold (push_entry b) es rd)" using Cons.prems by (rule fold_push_object_keys)
    with Inr Cons show ?thesis by (simp add: read_row_entry res_bind_assoc)
  qed
qed

lemma object_keys_empty [simp]: "object_keys empty_reader"
  by (simp add: object_keys_def empty_reader_def)

lemma read_airdrop_csv_entries:
  "read_airdrop_csv rows ac tc b =
    res_bind (csv_entries ac tc rows) (\<lambda>es.
      (let rd = fold (push_entry b) es empty_reader in
       Inr (rd_beneficiaries rd @ [rd_current_map rd])))"
  by (simp add: read_airdrop_csv_def USE_PALLET_TOKEN_CLAIM_def read_rows_entries res_bind_assoc Let_def)

lemma push_entry_contents:
  "map batch_entry (reader_contents (push_entry b e rd)) = map batch_entry (reader_contents rd) @ [e]"
  by (cases e) (simp add: reader_contents_def push_entry_def Let_def)

lemma fold_push_contents:
  "map batch_entry (reader_contents (fold (push_entry b) es rd)) =
    map batch_entry (reader_contents rd) @ es"
  by (induction es arbitrary: rd) (simp_all add: push_entry_contents)

lemma read_airdrop_csv_complete_aux:
  "res_bind (read_airdrop_csv rows ac tc b) (\<lambda>bs. Inr (entries_of bs)) = csv_entries ac tc rows"
proof (cases "csv_entries ac tc rows")
  case (Inl e)
  then show ?thesis by (simp add: read_airdrop_csv_entries)
next
  case (Inr es)
  have "map batch_entry (reader_contents (fold (push_entry b) es empty_reader)) = es"
    by (simp add: fold_push_contents) (simp add: reader_contents_def empty_reader_def)
  with Inr show ?thesis
    by (simp add: read_airdrop_csv_entries entries_of_def reader_contents_def Let_def)
qed


text \<open>
  C4: Reading the file loses, adds and reorders nothing: for every column choice and every value of
  the batch size, the batches one after the other hold exactly the entries of the rows with a
  non-zero amount, in the order of the file, and a file is refused exactly when a row is, with the
  complaint of its first bad row.
\<close>
theorem read_airdrop_csv_complete:
  "res_bind (read_airdrop_csv rows ac tc b) (\<lambda>bs. Inr (entries_of bs)) = csv_entries ac tc rows"
  by (rule read_airdrop_csv_complete_aux)

text \<open>The batches under a positive integer batch size.\<close>

lemma flushes_nat: "ToNumber b = num_of_nat n \<Longrightarrow> 0 < n \<Longrightarrow> flushes b c \<longleftrightarrow> c mod n = 0"
  by (simp add: flushes_def num_rem_nat num_eq_def del: num_rem.simps)

definition batched :: "nat \<Rightarrow> reader \<Rightarrow> bool" where
  "batched n rd \<longleftrightarrow>
     (\<forall>m\<in>set (rd_beneficiaries rd). length m = n) \<and> length (rd_current_map rd) < n \<and>
     rd_count rd = n * length (rd_beneficiaries rd) + length (rd_current_map rd)"

lemma push_entry_batched:
  assumes "ToNumber b = num_of_nat n" and "batched n rd"
  shows "batched n (push_entry b e rd)"
proof -
  define k where "k = length (rd_current_map rd)"
  have n: "k < n" and c: "rd_count rd = n * length (rd_beneficiaries rd) + k"
    using assms(2) by (auto simp: batched_def k_def)
  have "(rd_count rd + 1) mod n = Suc k mod n" using c by simp
  then have fl: "flushes b (rd_count rd + 1) \<longleftrightarrow> Suc k = n"
    using flushes_nat [OF assms(1)] n by (auto simp: mod_Suc)
  show ?thesis
    using assms(2) fl n by (auto simp: batched_def push_entry_def Let_def k_def)
qed

lemma fold_push_batched:
  assumes "ToNumber b = num_of_nat n" and "batched n rd"
  shows "batched n (fold (push_entry b) es rd)"
  using assms(2)
  by (induction es arbitrary: rd) (simp_all add: push_entry_batched [OF assms(1)])

lemma fold_push_count: "rd_count (fold (push_entry b) es rd) = rd_count rd + length es"
  by (induction es arbitrary: rd) (simp_all add: push_entry_def Let_def)

lemma read_airdrop_csv_batch_sizes_aux:
  assumes "ToNumber b = num_of_nat n" and "0 < n"
    and "read_airdrop_csv rows ac tc b = Inr bs"
  shows "(\<forall>m\<in>set (butlast bs). length m = n) \<and>
    length (last bs) = length (entries_of bs) mod n \<and>
    length bs = length (entries_of bs) div n + 1"
proof -
  obtain es where es: "csv_entries ac tc rows = Inr es"
    using assms(3) by (auto simp: read_airdrop_csv_entries res_bind_eq_Inr)
  define rd where "rd = fold (push_entry b) es empty_reader"
  have bs: "bs = rd_beneficiaries rd @ [rd_current_map rd]"
    using assms(3) es by (simp add: read_airdrop_csv_entries rd_def Let_def)
  have "batched n empty_reader" using assms(2) by (simp add: batched_def empty_reader_def)
  then have inv: "batched n rd" unfolding rd_def by (rule fold_push_batched [OF assms(1)])
  have "rd_count rd = length es"
    by (simp add: rd_def fold_push_count) (simp add: empty_reader_def)
  moreover have "entries_of bs = es"
    using fold_push_contents [of b es empty_reader]
    by (simp add: entries_of_def bs rd_def reader_contents_def) (simp add: empty_reader_def)
  ultimately have len: "length (entries_of bs) =
      n * length (rd_beneficiaries rd) + length (rd_current_map rd)"
    using inv by (simp add: batched_def)
  show ?thesis using inv unfolding len by (auto simp: bs batched_def)
qed

text \<open>
  With a positive integer batch size \<open>n\<close> every batch but the last has exactly \<open>n\<close> entries and
  the last one has the rest, fewer than \<open>n\<close>. In particular the last batch is empty when the number
  of entries is a multiple of the batch size.
\<close>
theorem read_airdrop_csv_batch_sizes:
  assumes "ToNumber b = num_of_nat n" and "0 < n"
    and "read_airdrop_csv rows ac tc b = Inr bs"
  shows "(\<forall>m\<in>set (butlast bs). length m = n) \<and>
    length (last bs) = length (entries_of bs) mod n \<and>
    length bs = length (entries_of bs) div n + 1"
  by (rule read_airdrop_csv_batch_sizes_aux [OF assms])

definition sample_rows :: "csv_row list" where
  "sample_rows =
     [[(''address'', ''0xabcdefabcdefabcdefabcdefabcdefabcdefabcd''), (''total'', ''1.5'')],
      [(''address'', ''nobody''), (''total'', ''0.00'')],
      [(''address'', ''0xabcdefabcdefabcdefabcdefabcdefabcdefabcd''), (''total'', ''2'')]]"

lemmas amount_eval = parse_amount_def indexOf_def replace_first_def strip_leading_zeros_def Let_def

lemma sample_amounts:
  "parse_amount ''1.5'' = ''1500000000000000000''"
  "parse_amount ''0.00'' = ''0000000000000000''"
  "parse_amount ''2'' = ''2000000000000000000''"
  by (simp_all add: amount_eval) (simp_all add: numeral_eq_Suc)

lemmas BigInt_eval = BigInt_def js_trim_def is_space_def radix_prefix_def signed_digits_def
  split_sign_def is_digit_def digits_val_def digit_val_def

lemma sample_entries:
  "csv_entries ''address'' ''total'' sample_rows =
     Inr [(Ethereum ''0xabcdefabcdefabcdefabcdefabcdefabcdefabcd'', ''1500000000000000000''),
          (Ethereum ''0xabcdefabcdefabcdefabcdefabcdefabcdefabcd'', ''2000000000000000000'')]"
  by (simp add: row_entry_def sample_rows_def sample_amounts classify_address_def startsWith_def
      BigInt_eval)


lemma sample_batches:
  "read_airdrop_csv sample_rows ''address'' ''total'' (Num (num_of_nat 2)) =
     Inr [[(KeyObj 0 (Ethereum ''0xabcdefabcdefabcdefabcdefabcdefabcdefabcd''), ''1500000000000000000''),
           (KeyObj 1 (Ethereum ''0xabcdefabcdefabcdefabcdefabcdefabcdefabcd''), ''2000000000000000000'')],
          []]"
proof -
  have "flushes (Num (num_of_nat 2)) (Suc (Suc 0))" and "\<not> flushes (Num (num_of_nat 2)) (Suc 0)"
    by (simp_all add: flushes_nat [of _ 2])
  then show ?thesis
    by (simp add: read_airdrop_csv_entries sample_entries push_entry_def empty_reader_def Let_def)
qed

theorem read_airdrop_csv_batch_sizes_witness:
  "\<exists>bs. read_airdrop_csv sample_rows ''address'' ''total'' (Num (num_of_nat 2)) = Inr bs \<and>
    (\<forall>m\<in>set (butlast bs). length m = 2) \<and>
    length (last bs) = length (entries_of bs) mod 2 \<and>
    length bs = length (entries_of bs) div 2 + 1"
proof -
  obtain bs where bs:
    "read_airdrop_csv sample_rows ''address'' ''total'' (Num (num_of_nat 2)) = Inr bs"
    using sample_batches by blast
  show ?thesis using bs read_airdrop_csv_batch_sizes [OF _ _ bs, of 2] by auto
qed

text \<open>
  A batch size that is not a number, such as the one of an option \<open>-b\<close> with a misspelt or a
  missing argument, passes the batching silently: everything goes into one single batch, however
  large.
\<close>
theorem read_airdrop_csv_nan_batch:
  assumes "ToNumber b = NaN" and "read_airdrop_csv rows ac tc b = Inr bs"
  shows "\<exists>m. bs = [m] \<and> csv_entries ac tc rows = Inr (map batch_entry m)"
proof -
  obtain es where es: "csv_entries ac tc rows = Inr es"
    using assms(2) by (auto simp: read_airdrop_csv_entries res_bind_eq_Inr)
  have "\<not> flushes b c" for c using assms(1) by (simp add: flushes_def num_eq_def)
  then have "rd_beneficiaries (fold (push_entry b) xs rd) = rd_beneficiaries rd" for xs rd
    by (induction xs arbitrary: rd) (simp_all add: push_entry_def Let_def)
  then have "bs = [rd_current_map (fold (push_entry b) es empty_reader)]"
    using assms(2) es by (simp add: read_airdrop_csv_entries Let_def empty_reader_def)
  moreover have "res_bind (read_airdrop_csv rows ac tc b) (\<lambda>bs. Inr (entries_of bs)) = Inr es"
    using es by (simp add: read_airdrop_csv_complete_aux)
  ultimately show ?thesis using assms(2) es by (simp add: entries_of_def)
qed

theorem read_airdrop_csv_nan_batch_witness:
  "ToNumber (Str ''1O'') = NaN \<and>
   (\<exists>m. read_airdrop_csv sample_rows ''address'' ''total'' (Str ''1O'') = Inr [m] \<and>
        csv_entries ''address'' ''total'' sample_rows = Inr (map batch_entry m))"
proof -
  have nan: "ToNumber (Str ''1O'') = NaN"
    by (simp add: StringToNumber_def BigInt_eval unsigned_decimal_def Let_def)
  obtain bs where bs: "read_airdrop_csv sample_rows ''address'' ''total'' (Str ''1O'') = Inr bs"
    by (simp add: read_airdrop_csv_entries sample_entries Let_def)
  show ?thesis using nan bs read_airdrop_csv_nan_batch [OF nan bs] by auto
qed

lemma BigInt_error: "BigInt s = Inl e \<Longrightarrow> e = SyntaxError ''BigInt''"
  by (auto simp: BigInt_def Let_def split: if_splits option.splits)

lemma row_entry_no_duplicate: "row_entry ac tc row \<noteq> Inl (ErrorMsg ''Duplicate address found!'')"
  by (auto simp: row_entry_def res_bind_eq_Inl classify_address_def
      dest: BigInt_error split: option.splits if_splits)

lemma csv_entries_no_duplicate:
  "csv_entries ac tc rows \<noteq> Inl (ErrorMsg ''Duplicate address found!'')"
  by (induction rows) (auto simp: res_bind_eq_Inl row_entry_no_duplicate)

lemma csv_entries_append:
  "csv_entries ac tc (xs @ ys) =
     res_bind (csv_entries ac tc xs) (\<lambda>a. res_bind (csv_entries ac tc ys) (\<lambda>b. Inr (a @ b)))"
proof (induction xs)
  case Nil
  show ?case by (cases "csv_entries ac tc ys") simp_all
next
  case (Cons row xs)
  then show ?case by (simp add: res_bind_assoc)
qed

text \<open>
  The check for a duplicate address never fires: it looks an address up as a string among keys
  that are fresh objects. A file whose rows are repeated is accepted like the file itself, and every
  entry is in the batches twice.
\<close>
theorem read_airdrop_csv_accepts_duplicates:
  "read_airdrop_csv rows ac tc b \<noteq> Inl (ErrorMsg ''Duplicate address found!'') \<and>
   res_bind (read_airdrop_csv (rows @ rows) ac tc b) (\<lambda>bs. Inr (entries_of bs)) =
   res_bind (read_airdrop_csv rows ac tc b) (\<lambda>bs. Inr (entries_of bs @ entries_of bs))"
proof
  show "read_airdrop_csv rows ac tc b \<noteq> Inl (ErrorMsg ''Duplicate address found!'')"
    by (auto simp: read_airdrop_csv_entries res_bind_eq_Inl csv_entries_no_duplicate Let_def)
  have "res_bind (read_airdrop_csv rows ac tc b) (\<lambda>bs. Inr (entries_of bs @ entries_of bs)) =
      res_bind (csv_entries ac tc rows) (\<lambda>es. Inr (es @ es))"
    unfolding read_airdrop_csv_complete_aux [symmetric, of ac tc rows b] by (simp add: res_bind_assoc)
  then show "res_bind (read_airdrop_csv (rows @ rows) ac tc b) (\<lambda>bs. Inr (entries_of bs)) =
      res_bind (read_airdrop_csv rows ac tc b) (\<lambda>bs. Inr (entries_of bs @ entries_of bs))"
    by (cases "csv_entries ac tc rows")
      (simp_all add: read_airdrop_csv_complete_aux csv_entries_append)
qed

text \<open>
  With plain string keys, the configuration for the older claim pallet, the same check does refuse
  a second row with an address of the current batch.
\<close>

lemma read_row_string_duplicate:
  assumes "map_of row tc = Some t" and "BigInt (parse_amount t) = Inr n" and "n \<noteq> 0"
    and "map_of row ac = Some a" and "map_has (rd_current_map rd) (KeyStr a)"
  shows "read_row False ac tc b row rd = Inl (ErrorMsg ''Duplicate address found!'')"
  using assms by (simp add: read_row_def Let_def)

end
