(* ===== verification/ClaimArgs.thy ===== *)
theory ClaimArgs
  imports JsNumber
begin

text \<open>
  The command line of \<open>scripts/claim/claim_init.js\<close>: its defaults, \<open>parse_args\<close> and \<open>usage\<close>. An
  option takes the next argument, which is \<open>undefined\<close> at the end of the line; \<open>usage\<close> ends the
  process with status 1. \<open>DEFAULT_WS_ENDPOINTS[key]\<close> is the lookup of the object's own keys; the names an
  object inherits (\<open>toString\<close>, \<open>constructor\<close>, ...) are not endpoints of the model.
\<close>


section \<open>Defaults\<close>

definition DEFAULT_ADDRESS_COL :: string where
  "DEFAULT_ADDRESS_COL = ''address''"

definition DEFAULT_AMOUNT_COL :: string where
  "DEFAULT_AMOUNT_COL = ''total''"

definition DEFAULT_WS_ENDPOINT :: string where
  "DEFAULT_WS_ENDPOINT = ''ws://localhost:9944''"

definition DEFAULT_WS_ENDPOINTS :: "(string \<times> string) list" where
  "DEFAULT_WS_ENDPOINTS =
     [(''local'', DEFAULT_WS_ENDPOINT),
      (''volta'', ''wss://zkverify-volta-rpc.zkverify.io''),
      (''mainnet'', ''wss://zkverify-rpc.zkverify.io'')]"

definition EXISTENTIAL_DEPOSIT :: string where
  "EXISTENTIAL_DEPOSIT = ''10000000000000000''"

definition DEFAULT_BATCH_SIZE :: nat where
  "DEFAULT_BATCH_SIZE = 10000"

definition DEFAULT_PREFIX :: nat where
  "DEFAULT_PREFIX = 251"

definition DEFAULT_SEED :: string where
  "DEFAULT_SEED = ''//Alice''"

definition DEFAULT_MULTISIG_THRESHOLD :: nat where
  "DEFAULT_MULTISIG_THRESHOLD = 0"

definition DEFAULT_OUT_FILE_PATH :: string where
  "DEFAULT_OUT_FILE_PATH = ''.''"

definition INIT_CAMPAIGN :: bool where
  "INIT_CAMPAIGN = True"

definition DEFAULT_CLAIM_MSG_PREFIX :: string where
  "DEFAULT_CLAIM_MSG_PREFIX = ''zkverify claim''"


section \<open>Options\<close>

text \<open>An option that is a string, or \<open>None\<close> for \<open>undefined\<close>.\<close>

record claim_options =
  co_csv_file :: "string option"
  co_ws_endpoint :: "string option"
  co_ss58_prefix :: jsval
  co_batch_size :: jsval
  co_address_col_label :: "string option"
  co_amount_col_label :: "string option"
  co_secret :: "string option"
  co_threshold :: jsval
  co_multisig_addresses :: "string option list"
  co_out_file_path :: "string option"
  co_claim_msg :: "string option"

text \<open>The text of an option in a template literal.\<close>

definition opt_text :: "string option \<Rightarrow> string" where
  "opt_text v = (case v of Some s \<Rightarrow> s | None \<Rightarrow> ''undefined'')"

definition arg_val :: "string option \<Rightarrow> jsval" where
  "arg_val v = (case v of Some s \<Rightarrow> Str s | None \<Rightarrow> Undefined)"

text \<open>\<open>args[++i]\<close>: the next argument and those after it.\<close>

definition next_arg :: "string list \<Rightarrow> string option \<times> string list" where
  "next_arg args = (case args of [] \<Rightarrow> (None, []) | a # as \<Rightarrow> (Some a, as))"

definition usage :: "'a res" where
  "usage = Inl (Exit 1)"

definition default_options :: "nat \<Rightarrow> claim_options" where
  "default_options now =
     \<lparr>co_csv_file = None,
      co_ws_endpoint = Some DEFAULT_WS_ENDPOINT,
      co_ss58_prefix = Num (num_of_nat DEFAULT_PREFIX),
      co_batch_size = Num (num_of_nat DEFAULT_BATCH_SIZE),
      co_address_col_label = Some DEFAULT_ADDRESS_COL,
      co_amount_col_label = Some DEFAULT_AMOUNT_COL,
      co_secret = Some DEFAULT_SEED,
      co_threshold = Num (num_of_nat DEFAULT_MULTISIG_THRESHOLD),
      co_multisig_addresses = [],
      co_out_file_path = Some DEFAULT_OUT_FILE_PATH,
      co_claim_msg = Some (DEFAULT_CLAIM_MSG_PREFIX @ '' '' @ show_nat now)\<rparr>"

definition resolve_endpoint :: "string option \<Rightarrow> string option" where
  "resolve_endpoint v =
     (case map_of DEFAULT_WS_ENDPOINTS (opt_text v) of Some a \<Rightarrow> Some a | None \<Rightarrow> v)"

function claim_parse_loop ::
  "string list \<Rightarrow> claim_options \<Rightarrow> string list \<Rightarrow> bool \<Rightarrow> (claim_options \<times> string list) res"
where
  "claim_parse_loop [] res extra_args is_multisig = Inr (res, extra_args)"
| "claim_parse_loop (a # args) res extra_args is_multisig =
     (let (v, rest) = next_arg args in
      if a = ''-e'' \<or> a = ''--end-point'' then
        claim_parse_loop rest (res\<lparr>co_ws_endpoint := resolve_endpoint v\<rparr>) extra_args is_multisig
      else if a = ''-p'' \<or> a = ''--prefix'' then
        claim_parse_loop rest (res\<lparr>co_ss58_prefix := arg_val v\<rparr>) extra_args is_multisig
      else if a = ''-b'' \<or> a = ''--batch-size'' then
        claim_parse_loop rest (res\<lparr>co_batch_size := arg_val v\<rparr>) extra_args is_multisig
      else if a = ''-k'' \<or> a = ''--claim-msg'' then
        claim_parse_loop rest (res\<lparr>co_claim_msg := v\<rparr>) extra_args is_multisig
      else if a = ''-u'' \<or> a = ''--uri'' then
        claim_parse_loop rest (res\<lparr>co_secret := v\<rparr>) extra_args is_multisig
      else if a = ''-m'' \<or> a = ''--multi-address'' then
        (let ms = (if is_multisig then co_multisig_addresses res else [])
         in claim_parse_loop rest (res\<lparr>co_multisig_addresses := ms @ [v]\<rparr>) extra_args True)
      else if a = ''-n'' \<or> a = ''--multi-threshold'' then
        claim_parse_loop rest (res\<lparr>co_threshold := arg_val v\<rparr>) extra_args is_multisig
      else if a = ''-o'' \<or> a = ''--out'' then
        claim_parse_loop rest (res\<lparr>co_out_file_path := v\<rparr>) extra_args is_multisig
      else if a = ''-s'' \<or> a = ''--col-address'' then
        claim_parse_loop rest (res\<lparr>co_address_col_label := v\<rparr>) extra_args is_multisig
      else if a = ''-t'' \<or> a = ''--col-amount'' then
        claim_parse_loop rest (res\<lparr>co_amount_col_label := v\<rparr>) extra_args is_multisig
      else if a = ''-h'' \<or> a = ''--help'' then usage
      else claim_parse_loop args res (extra_args @ [a]) is_multisig)"
  by pat_completeness auto
termination
  by (relation "measure (\<lambda>(args, _, _, _). length args)")
    (auto simp: next_arg_def split: list.splits)

definition claim_parse_args :: "nat \<Rightarrow> string list \<Rightarrow> claim_options res" where
  "claim_parse_args now args =
     res_bind (claim_parse_loop args (default_options now) [] False) (\<lambda>(res, extra_args).
       if length extra_args \<noteq> 1
          \<or> num_lt (num_of_nat (length (co_multisig_addresses res))) (ToNumber (co_threshold res))
          \<or> length (co_multisig_addresses res) \<noteq> 0 \<and> loose_eq_num (co_threshold res) (Fin 0)
          \<or> num_le (ToNumber (co_batch_size res)) (Fin 0)
       then usage
       else Inr (res\<lparr>co_csv_file := Some (hd extra_args)\<rparr>))"

declare claim_parse_loop.simps [simp del]


section \<open>What the command line means\<close>

text \<open>
  The arguments as a sequence of tokens: an option with the value that follows it, a request for
  help, or a positional argument.
\<close>

datatype arg_token = Opt string "string option" | Help | Pos string

definition option_names :: "(string \<times> string) list" where
  "option_names =
     [(''-e'', ''-e''), (''--end-point'', ''-e''), (''-p'', ''-p''), (''--prefix'', ''-p''),
      (''-b'', ''-b''), (''--batch-size'', ''-b''), (''-k'', ''-k''), (''--claim-msg'', ''-k''),
      (''-u'', ''-u''), (''--uri'', ''-u''), (''-m'', ''-m''), (''--multi-address'', ''-m''),
      (''-n'', ''-n''), (''--multi-threshold'', ''-n''), (''-o'', ''-o''), (''--out'', ''-o''),
      (''-s'', ''-s''), (''--col-address'', ''-s''), (''-t'', ''-t''), (''--col-amount'', ''-t'')]"

function arg_tokens :: "string list \<Rightarrow> arg_token list" where
  "arg_tokens [] = []"
| "arg_tokens (a # args) =
     (case map_of option_names a of
        Some opt \<Rightarrow> (let (v, rest) = next_arg args in Opt opt v # arg_tokens rest)
      | None \<Rightarrow> (if a = ''-h'' \<or> a = ''--help'' then Help else Pos a) # arg_tokens args)"
  by pat_completeness auto
termination
  by (relation "measure length") (auto simp: next_arg_def split: list.splits)

text \<open>The last value given to an option, or its default; all values of an option; the positionals.\<close>

fun last_given :: "string \<Rightarrow> (string option \<Rightarrow> 'a) \<Rightarrow> 'a \<Rightarrow> arg_token list \<Rightarrow> 'a" where
  "last_given opt conv d [] = d"
| "last_given opt conv d (t # ts) =
     last_given opt conv
       (case t of Opt opt' v \<Rightarrow> (if opt' = opt then conv v else d) | _ \<Rightarrow> d) ts"

fun all_given :: "string \<Rightarrow> arg_token list \<Rightarrow> string option list" where
  "all_given opt [] = []"
| "all_given opt (t # ts) =
     (case t of Opt opt' v \<Rightarrow> (if opt' = opt then [v] else []) | _ \<Rightarrow> []) @ all_given opt ts"

fun positionals :: "arg_token list \<Rightarrow> string list" where
  "positionals [] = []"
| "positionals (t # ts) = (case t of Pos a \<Rightarrow> [a] | _ \<Rightarrow> []) @ positionals ts"

definition set_options :: "arg_token list \<Rightarrow> bool \<Rightarrow> claim_options \<Rightarrow> claim_options" where
  "set_options ts is_multisig res =
     \<lparr>co_csv_file = co_csv_file res,
      co_ws_endpoint = last_given ''-e'' resolve_endpoint (co_ws_endpoint res) ts,
      co_ss58_prefix = last_given ''-p'' arg_val (co_ss58_prefix res) ts,
      co_batch_size = last_given ''-b'' arg_val (co_batch_size res) ts,
      co_address_col_label = last_given ''-s'' id (co_address_col_label res) ts,
      co_amount_col_label = last_given ''-t'' id (co_amount_col_label res) ts,
      co_secret = last_given ''-u'' id (co_secret res) ts,
      co_threshold = last_given ''-n'' arg_val (co_threshold res) ts,
      co_multisig_addresses =
        (if is_multisig \<or> all_given ''-m'' ts = [] then co_multisig_addresses res else [])
        @ all_given ''-m'' ts,
      co_out_file_path = last_given ''-o'' id (co_out_file_path res) ts,
      co_claim_msg = last_given ''-k'' id (co_claim_msg res) ts\<rparr>"

definition options_spec :: "nat \<Rightarrow> arg_token list \<Rightarrow> claim_options res" where
  "options_spec now ts =
     (let opts = set_options ts False (default_options now);
          others = num_of_nat (length (all_given ''-m'' ts));
          threshold = last_given ''-n'' arg_val (Num (Fin 0)) ts in
      if Help \<in> set ts then Inl (Exit 1)
      else case positionals ts of
        [csv] \<Rightarrow>
          (if num_lt others (ToNumber threshold)
              \<or> all_given ''-m'' ts \<noteq> [] \<and> loose_eq_num threshold (Fin 0)
              \<or> num_le (ToNumber (co_batch_size opts)) (Fin 0)
           then Inl (Exit 1) else Inr (opts\<lparr>co_csv_file := Some csv\<rparr>))
      | _ \<Rightarrow> Inl (Exit 1))"

lemma set_options_Nil [simp]: "set_options [] m res = res"
  by (simp add: set_options_def)

lemma claim_parse_loop_tokens:
  "claim_parse_loop args res extra m =
     (if Help \<in> set (arg_tokens args) then usage
      else Inr (set_options (arg_tokens args) m res, extra @ positionals (arg_tokens args)))"
proof (induction args res extra m rule: claim_parse_loop.induct)
  case (1 res extra m)
  then show ?case by (simp add: claim_parse_loop.simps)
next
  case (2 a args res extra m)
  obtain v rest where nx: "next_arg args = (v, rest)" by fastforce
  note IH = 2 [OF nx [symmetric] refl]
  show ?case
    using IH
    by (simp add: claim_parse_loop.simps nx option_names_def set_options_def Let_def cong: if_cong)
qed

lemma claim_parse_args_tokens:
  "claim_parse_args now args = options_spec now (arg_tokens args)"
  by (auto simp: claim_parse_args_def options_spec_def claim_parse_loop_tokens usage_def Let_def
      set_options_def default_options_def DEFAULT_MULTISIG_THRESHOLD_def
      split: list.splits)

text \<open>
  C8. The command line of \<open>claim_init.js\<close> means what its tokens say: for every argument list,
  \<open>parse_args\<close> gives each option the last value set for it (or its default), collects the \<open>-m\<close>
  addresses in order, takes the single positional argument as the csv file, and ends the process with
  status 1 exactly when help is asked for, when there is not exactly one positional argument, or
  when one of the checks on threshold and batch size fails.
\<close>

theorem claim_parse_args_refines:
  "claim_parse_args now args = options_spec now (arg_tokens args)"
  by (rule claim_parse_args_tokens)

end
