(* ===== verification/ClaimSend.thy ===== *)
theory ClaimSend
  imports TxLifecycle NodeFs ClaimCsv ClaimArgs
begin

text \<open>
  The submission side of \<open>scripts/claim/claim_init.js\<close>: the calls it builds, \<open>send_as_multi_sudo\<close>,
  \<open>send_as_sudo\<close>, \<open>send\<close> and the two functions that send a batch of beneficiaries, and
  \<open>check_preconditions\<close>.

  The polkadot library and the node are the record \<open>api\<close>: the encodings, the fee query, and the node
  itself, which answers a submission as a function of all submissions so far. A world is the tree of
  files and the log of submissions.
\<close>


section \<open>Calls\<close>

datatype timepoint = NullTimepoint | Timepoint "nat nullable" "nat nullable"

datatype weight = ZeroWeight | Weight string

text \<open>The extrinsics of the script, one constructor per \<open>api.tx\<close> function, and \<open>api.tx(hex)\<close>.\<close>

datatype call =
    BeginClaim batch "string option"
  | AddBeneficiaries batch
  | BeginAirdrop batch
  | AirdropAddBeneficiaries batch
  | Sudo call
  | AsMulti jsval "string option list" timepoint string weight
  | ApproveAsMulti jsval "string option list" timepoint "string nullable" weight
  | BatchAll "call list"
  | RawTx string

type_synonym submission_log = "(string \<times> call) list"

record world =
  w_fs :: fs
  w_sent :: submission_log

record api =
  api_node :: "submission_log \<Rightarrow> attempt"
  api_methodHex :: "call \<Rightarrow> string"
  api_extrinsicHex :: "call \<Rightarrow> string"
  api_paymentWeight :: "call \<Rightarrow> string \<Rightarrow> string res"
  api_claimActive :: bool
  api_maxOpBeneficiaries :: nat
  api_palletFree :: nat

definition signAndSend :: "api \<Rightarrow> string \<Rightarrow> call \<Rightarrow> world \<Rightarrow> attempt \<times> world" where
  "signAndSend api account c w =
     (let sent = w_sent w @ [(account, c)] in (api_node api sent, w\<lparr>w_sent := sent\<rparr>))"

text \<open>
  \<open>signatories.filter(key => key != me).sort()\<close>: the default order of strings, with every
  \<open>undefined\<close> at the end.
\<close>

definition js_sort :: "string option list \<Rightarrow> string option list" where
  "js_sort xs = map Some (sort (map the (filter (\<lambda>x. x \<noteq> None) xs))) @ filter (\<lambda>x. x = None) xs"

definition other_signatories :: "string option \<Rightarrow> string option list \<Rightarrow> string option list" where
  "other_signatories me signatories = js_sort (filter (\<lambda>key. key \<noteq> me) signatories)"


section \<open>Sending\<close>

record multi_call =
  mc_block :: "nat nullable"
  mc_index :: "nat nullable"
  mc_hash :: "string nullable"
  mc_weight :: string
  mc_data :: string

datatype send_info = MultiInfo multi_call | SudoInfo tx_info

definition multi_proposal :: "api \<Rightarrow> string \<Rightarrow> jsval \<Rightarrow> string option list \<Rightarrow> call \<Rightarrow> call" where
  "multi_proposal api account threshold signatories c =
     AsMulti threshold (other_signatories (Some account) signatories) NullTimepoint
       (api_methodHex api (Sudo c)) ZeroWeight"

definition send_as_multi_sudo ::
  "api \<Rightarrow> string \<Rightarrow> jsval \<Rightarrow> string option list \<Rightarrow> call \<Rightarrow> world \<Rightarrow> world \<times> send_info retval res"
where
  "send_as_multi_sudo api account threshold signatories c w =
     (let sudo_call = Sudo c;
          proposal = multi_proposal api account threshold signatories c in
      case handleTransactionLifecycle (signAndSend api account proposal) w of
        (w', Inl e) \<Rightarrow> (w', Inl e)
      | (w', Inr RMinus1) \<Rightarrow> (w', Inr RMinus1)
      | (w', Inr RUndefined) \<Rightarrow> (w', Inl (TypeError ''Cannot read properties of undefined''))
      | (w', Inr (RObj i)) \<Rightarrow>
          (w', res_bind (api_paymentWeight api sudo_call account) (\<lambda>wt.
             Inr (RObj (MultiInfo
               \<lparr>mc_block = ti_number i, mc_index = ti_index i, mc_hash = ti_call i,
                mc_weight = wt, mc_data = api_methodHex api sudo_call\<rparr>)))))"

fun sudo_info :: "tx_info retval \<Rightarrow> send_info retval" where
  "sudo_info RMinus1 = RMinus1"
| "sudo_info RUndefined = RUndefined"
| "sudo_info (RObj i) = RObj (SudoInfo i)"

definition send_as_sudo ::
  "api \<Rightarrow> string \<Rightarrow> call \<Rightarrow> world \<Rightarrow> world \<times> send_info retval res"
where
  "send_as_sudo api account c w =
     (case handleTransactionLifecycle (signAndSend api account (Sudo c)) w of
        (w', r) \<Rightarrow> (w', res_bind r (\<lambda>v. Inr (sudo_info v))))"

definition send ::
  "api \<Rightarrow> string \<Rightarrow> jsval \<Rightarrow> string option list \<Rightarrow> call \<Rightarrow> world \<Rightarrow> world \<times> send_info retval res"
where
  "send api account threshold signatories c w =
     (if num_lt (Fin 0) (ToNumber threshold)
      then send_as_multi_sudo api account threshold signatories c w
      else send_as_sudo api account c w)"

definition begin_claim_call :: "batch \<Rightarrow> string option \<Rightarrow> call" where
  "begin_claim_call beneficiaries msg =
     (if USE_PALLET_TOKEN_CLAIM then BeginClaim beneficiaries msg else BeginAirdrop beneficiaries)"

definition add_beneficiaries_call :: "batch \<Rightarrow> call" where
  "add_beneficiaries_call beneficiaries =
     (if USE_PALLET_TOKEN_CLAIM then AddBeneficiaries beneficiaries
      else AirdropAddBeneficiaries beneficiaries)"

definition send_begin_claim_tx ::
  "api \<Rightarrow> string \<Rightarrow> jsval \<Rightarrow> string option list \<Rightarrow> batch \<Rightarrow> string option \<Rightarrow> world \<Rightarrow>
   world \<times> send_info retval res"
where
  "send_begin_claim_tx api account threshold signatories beneficiaries msg w =
     send api account threshold signatories (begin_claim_call beneficiaries msg) w"

definition send_add_beneficiaries_tx ::
  "api \<Rightarrow> string \<Rightarrow> jsval \<Rightarrow> string option list \<Rightarrow> batch \<Rightarrow> world \<Rightarrow>
   world \<times> send_info retval res"
where
  "send_add_beneficiaries_tx api account threshold signatories beneficiaries w =
     send api account threshold signatories (add_beneficiaries_call beneficiaries) w"


section \<open>Preconditions\<close>

text \<open>\<open>tot\<close>: the sum of the amounts on top of a start value, or the first amount that is no integer.\<close>

fun add_amounts :: "(map_key \<times> string) list \<Rightarrow> int \<Rightarrow> int res" where
  "add_amounts [] tot = Inr tot"
| "add_amounts ((k, v) # es) tot = res_bind (BigInt v) (\<lambda>n. add_amounts es (tot + n))"

definition check_preconditions :: "api \<Rightarrow> batch list \<Rightarrow> jsval \<Rightarrow> bool res" where
  "check_preconditions api beneficiaries batch_size =
     (let max_batch_size = (if USE_PALLET_TOKEN_CLAIM then api_maxOpBeneficiaries api else 10000) in
      if api_claimActive api = INIT_CAMPAIGN then Inr False
      else
        res_bind (BigInt EXISTENTIAL_DEPOSIT) (\<lambda>ed.
        res_bind (add_amounts (concat beneficiaries) ed) (\<lambda>tot.
          if int (api_palletFree api) < tot then Inr False
          else if num_lt (num_of_nat max_batch_size) (ToNumber batch_size) then Inr False
          else Inr True)))"


section \<open>What sending submits\<close>

text \<open>The extrinsic that \<open>send\<close> signs for a call.\<close>

definition signed_call :: "api \<Rightarrow> string \<Rightarrow> jsval \<Rightarrow> string option list \<Rightarrow> call \<Rightarrow> call" where
  "signed_call api account threshold signatories c =
     (if num_lt (Fin 0) (ToNumber threshold) then multi_proposal api account threshold signatories c
      else Sudo c)"

lemma signAndSend_log: "w_sent (snd (signAndSend api a c w)) = w_sent w @ [(a, c)]"
  by (simp add: signAndSend_def Let_def)

lemma signAndSend_fs: "w_fs (snd (signAndSend api a c w)) = w_fs w"
  by (simp add: signAndSend_def Let_def)

lemma lifecycle_spec_keeps:
  assumes "\<And>w. f (snd (snd_fun w)) = f w"
  shows "f (fst (lifecycle_spec n snd_fun w)) = f w"
proof (induction n arbitrary: w)
  case (Suc n)
  then show ?case using assms [of w] by (auto split: prod.splits)
qed simp

lemma lifecycle_fs:
  "w_fs (fst (handleTransactionLifecycle (signAndSend api a c) w)) = w_fs w"
  by (simp add: handleTransactionLifecycle_def lifecycle_loop_spec lifecycle_spec_keeps signAndSend_fs)

lemma send_world:
  "fst (send api account th sigs c w) =
     fst (handleTransactionLifecycle (signAndSend api account (signed_call api account th sigs c)) w)"
  by (auto simp: send_def signed_call_def send_as_multi_sudo_def send_as_sudo_def Let_def
      split: prod.splits sum.splits retval.splits)

lemma send_fs: "w_fs (fst (send api account th sigs c w)) = w_fs w"
  by (simp add: send_world lifecycle_fs)

lemma send_log:
  "\<exists>k. 0 < k \<and> k \<le> 5 \<and> w_sent (fst (send api account th sigs c w)) =
     w_sent w @ replicate k (account, signed_call api account th sigs c)"
  unfolding send_world by (rule lifecycle_log) (rule signAndSend_log)


section \<open>What the preconditions guarantee\<close>

lemma add_amounts_eq_Inr:
  "add_amounts es t = Inr t' \<longleftrightarrow>
     (\<exists>ns. list_all2 (\<lambda>e n. BigInt (snd e) = Inr n) es ns \<and> t' = t + sum_list ns)"
proof (induction es t rule: add_amounts.induct)
  case (2 k v es tot)
  show ?case
  proof (cases "BigInt v")
    case (Inr n)
    then show ?thesis using 2 [of n] by (auto simp: list_all2_Cons1 algebra_simps)
  qed (simp add: list_all2_Cons1)
qed auto

lemma existential_deposit: "BigInt EXISTENTIAL_DEPOSIT = Inr (10 ^ 16)"
proof -
  have "EXISTENTIAL_DEPOSIT = show_nat (10 ^ 16)"
    by (simp add: EXISTENTIAL_DEPOSIT_def show_nat.simps digit_char_def char_of_def bit_0)
  then have "BigInt EXISTENTIAL_DEPOSIT = Inr (int (10 ^ 16))" by (metis BigInt_show_nat)
  then show ?thesis by (simp only: of_nat_power of_nat_numeral)
qed

lemma check_preconditions_iff_aux:
  "check_preconditions api bs batch_size = Inr True \<longleftrightarrow>
     \<not> api_claimActive api \<and>
     (\<exists>ns. list_all2 (\<lambda>e n. BigInt (snd e) = Inr n) (concat bs) ns \<and>
           10 ^ 16 + sum_list ns \<le> int (api_palletFree api)) \<and>
     \<not> num_lt (num_of_nat (api_maxOpBeneficiaries api)) (ToNumber batch_size)"
  unfolding check_preconditions_def Let_def existential_deposit INIT_CAMPAIGN_def
    USE_PALLET_TOKEN_CLAIM_def
  by (auto simp: res_bind_eq_Inr add_amounts_eq_Inr not_less split: if_splits)

text \<open>
  C9: \<open>check_preconditions\<close> passes exactly when no claim is active, the free balance of the pallet
  account covers the existential deposit of \<open>10 ^ 16\<close> base units and all amounts of all batches
  together, and the batch size does not exceed the limit of the pallet.
\<close>
theorem check_preconditions_iff:
  "check_preconditions api bs batch_size = Inr True \<longleftrightarrow>
     \<not> api_claimActive api \<and>
     (\<exists>ns. list_all2 (\<lambda>e n. BigInt (snd e) = Inr n) (concat bs) ns \<and>
           10 ^ 16 + sum_list ns \<le> int (api_palletFree api)) \<and>
     \<not> num_lt (num_of_nat (api_maxOpBeneficiaries api)) (ToNumber batch_size)"
  by (rule check_preconditions_iff_aux)

end
