(* ===== verification/ClaimInit.thy ===== *)
theory ClaimInit
  imports ClaimSend
begin

text \<open>
  The rest of \<open>scripts/claim/claim_init.js\<close>: the approval calls of the other signatories, the files
  that carry them, and \<open>main\<close>. The operator's answer, the CSV parser and the key ring are the record
  \<open>host\<close>; the connection to the node is established when it is asked for. The progress messages
  on the console are not modelled.
\<close>


section \<open>Approval calls\<close>

definition get_approve_as_multi ::
  "multi_call \<Rightarrow> jsval \<Rightarrow> string option \<Rightarrow> string option list \<Rightarrow> call"
where
  "get_approve_as_multi approvee threshold approver signatories =
     ApproveAsMulti threshold (other_signatories approver signatories)
       (Timepoint (mc_block approvee) (mc_index approvee)) (mc_hash approvee) ZeroWeight"

definition get_approve_batch ::
  "multi_call list \<Rightarrow> jsval \<Rightarrow> string option \<Rightarrow> string option list \<Rightarrow> call"
where
  "get_approve_batch approvees threshold approver signatories =
     BatchAll (map (\<lambda>a. get_approve_as_multi a threshold approver signatories) approvees)"

definition get_final_approve ::
  "multi_call \<Rightarrow> jsval \<Rightarrow> string option \<Rightarrow> string option list \<Rightarrow> call"
where
  "get_final_approve approvee threshold approver signatories =
     AsMulti threshold (other_signatories approver signatories)
       (Timepoint (mc_block approvee) (mc_index approvee)) (mc_data approvee)
       (Weight (mc_weight approvee))"


section \<open>Files\<close>

definition addr_path :: "string option \<Rightarrow> string option \<Rightarrow> string" where
  "addr_path out_path addr = opt_text out_path @ ''/'' @ opt_text addr"

fun check_no_prev_calls :: "fs \<Rightarrow> string option \<Rightarrow> string option list \<Rightarrow> bool" where
  "check_no_prev_calls s out_path [] = True"
| "check_no_prev_calls s out_path (addr # addrs) =
     (if existsSync s (addr_path out_path addr) then False
      else check_no_prev_calls s out_path addrs)"

definition call_file :: "string \<Rightarrow> string \<Rightarrow> string \<Rightarrow> nat \<Rightarrow> string" where
  "call_file path fname_prefix addr i =
     path @ ''/'' @ fname_prefix @ ''_'' @ addr @ ''_'' @ show_nat i @ ''.txt''"

lemma call_file_inj [simp]: "call_file p f a i = call_file p f a j \<longleftrightarrow> i = j"
  by (simp add: call_file_def show_nat_inj)

lemma finite_existing: "finite {j. existsSync s (call_file p f a j)}"
proof (rule finite_subset)
  have "inj (call_file p f a)" by (rule injI) simp
  then show "finite (call_file p f a -` (fst ` set (fs_files s) \<union> set (fs_dirs s)))"
    by (intro finite_vimageI) auto
qed (auto simp: existsSync_def)

lemma existing_decreases:
  assumes "existsSync s (call_file p f a i)"
  shows "card {j. Suc i \<le> j \<and> existsSync s (call_file p f a j)} <
    card {j. i \<le> j \<and> existsSync s (call_file p f a j)}" (is "card (?S (Suc i)) < card (?S i)")
proof (rule psubset_card_mono)
  show "finite (?S i)" by (rule finite_subset [OF _ finite_existing [of s p f a]]) auto
  have "i \<in> ?S i" "i \<notin> ?S (Suc i)" using assms by auto
  moreover have "?S (Suc i) \<subseteq> ?S i" by auto
  ultimately show "?S (Suc i) \<subset> ?S i" by blast
qed

text \<open>The \<open>do ... while\<close> loop ends because finitely many of the names are taken.\<close>

function free_index :: "fs \<Rightarrow> string \<Rightarrow> string \<Rightarrow> string \<Rightarrow> nat \<Rightarrow> nat" where
  "free_index s path fname_prefix addr i =
     (if existsSync s (call_file path fname_prefix addr i)
      then free_index s path fname_prefix addr (Suc i) else i)"
  by pat_completeness auto
termination
  by (relation "measure (\<lambda>(s, p, f, a, i). card {j. i \<le> j \<and> existsSync s (call_file p f a j)})")
    (simp_all add: existing_decreases)

declare free_index.simps [simp del]

definition write_new_file_name ::
  "string \<Rightarrow> string \<Rightarrow> string \<Rightarrow> string \<Rightarrow> (fs, string) act"
where
  "write_new_file_name path fname_prefix addr data =
     act_bind (act_update (\<lambda>s. mkdirSync s path)) (\<lambda>_ s.
       (let fname = call_file path fname_prefix addr (free_index s path fname_prefix addr 0) in
        act_bind (act_update (\<lambda>s. writeFileSync s fname data)) (\<lambda>_. act_return fname) s))"


section \<open>Main\<close>

record host =
  h_now :: nat
  h_argv :: "string list"
  h_answer :: string
  h_neatCsv :: "string \<Rightarrow> csv_row list res"
  h_address :: "jsval \<Rightarrow> string option \<Rightarrow> string res"

definition read_airdrop_file ::
  "host \<Rightarrow> fs \<Rightarrow> string option \<Rightarrow> string option \<Rightarrow> string option \<Rightarrow> jsval \<Rightarrow> batch list res"
where
  "read_airdrop_file h s csv_file address_col amount_col batch_size =
     res_bind (readFileSync s (opt_text csv_file)) (\<lambda>fdata.
     res_bind (h_neatCsv h fdata) (\<lambda>csv_data.
       read_airdrop_csv csv_data (opt_text address_col) (opt_text amount_col) batch_size))"

text \<open>The body of the sending loop, for the chunk \<open>m\<close>.\<close>

definition send_chunk ::
  "api \<Rightarrow> string \<Rightarrow> claim_options \<Rightarrow> nat \<times> batch \<Rightarrow> world \<Rightarrow> world \<times> send_info retval res"
where
  "send_chunk api account options chunk w =
     (case chunk of (m, beneficiaries) \<Rightarrow>
        if INIT_CAMPAIGN \<and> m = 0
        then send_begin_claim_tx api account (co_threshold options) (co_multisig_addresses options)
               beneficiaries (co_claim_msg options) w
        else send_add_beneficiaries_tx api account (co_threshold options)
               (co_multisig_addresses options) beneficiaries w)"

text \<open>\<open>multi_calls_to_be_approved\<close>: the results are pushed only for a positive threshold.\<close>

fun multi_call_of :: "send_info retval \<Rightarrow> multi_call list" where
  "multi_call_of (RObj (MultiInfo mc)) = [mc]"
| "multi_call_of _ = []"

definition multi_calls :: "claim_options \<Rightarrow> send_info retval list \<Rightarrow> multi_call list" where
  "multi_calls options results =
     (if num_lt (Fin 0) (ToNumber (co_threshold options))
      then concat (map multi_call_of results) else [])"

fun write_final_calls ::
  "api \<Rightarrow> claim_options \<Rightarrow> string option \<Rightarrow> multi_call list \<Rightarrow> (fs, unit) act"
where
  "write_final_calls api options addr [] = act_return ()"
| "write_final_calls api options addr (m # ms) =
     act_bind (write_new_file_name (addr_path (co_out_file_path options) addr)
         ''encoded_final_approve'' (opt_text addr)
         (api_extrinsicHex api (get_final_approve m (co_threshold options) addr
            (co_multisig_addresses options))))
       (\<lambda>fname. write_final_calls api options addr ms)"

definition write_calls ::
  "api \<Rightarrow> claim_options \<Rightarrow> multi_call list \<Rightarrow> string option \<Rightarrow> (fs, unit) act"
where
  "write_calls api options ms addr =
     act_bind (write_new_file_name (addr_path (co_out_file_path options) addr)
         ''encoded_batch_approve'' (opt_text addr)
         (api_extrinsicHex api (get_approve_batch ms (co_threshold options) addr
            (co_multisig_addresses options))))
       (\<lambda>fname. write_final_calls api options addr ms)"

fun write_all_calls ::
  "api \<Rightarrow> claim_options \<Rightarrow> multi_call list \<Rightarrow> string option list \<Rightarrow> (fs, unit) act"
where
  "write_all_calls api options ms [] = act_return ()"
| "write_all_calls api options ms (addr # addrs) =
     act_bind (write_calls api options ms addr) (\<lambda>_. write_all_calls api options ms addrs)"

definition on_fs :: "(fs, 'a) act \<Rightarrow> (world, 'a) act" where
  "on_fs f w = (case f (w_fs w) of (s, r) \<Rightarrow> (w\<lparr>w_fs := s\<rparr>, r))"

text \<open>
  \<open>main\<close>, from the parsed command line to the end of the connection. A precondition that is not met
  ends it without an error.
\<close>

definition claim_send_all ::
  "api \<Rightarrow> string \<Rightarrow> claim_options \<Rightarrow> batch list \<Rightarrow> (world, send_info retval list) act"
where
  "claim_send_all api account options beneficiaries =
     for_until_minus1 (send_chunk api account options)
       (zip [0..<length beneficiaries] beneficiaries)"

definition claim_main :: "host \<Rightarrow> api \<Rightarrow> (world, unit) act" where
  "claim_main h api =
     act_bind (act_lift (claim_parse_args (h_now h) (h_argv h))) (\<lambda>options.
       if h_answer h \<noteq> ''Y'' \<and> h_answer h \<noteq> ''y'' then act_fail (Exit 0)
       else (\<lambda>w.
         if \<not> check_no_prev_calls (w_fs w) (co_out_file_path options) (co_multisig_addresses options)
         then (w, Inl (Exit 1))
         else act_bind (act_lift (read_airdrop_file h (w_fs w) (co_csv_file options)
                (co_address_col_label options) (co_amount_col_label options)
                (co_batch_size options))) (\<lambda>beneficiaries.
              act_bind (act_lift (check_preconditions api beneficiaries (co_batch_size options)))
                (\<lambda>ok.
                  if \<not> ok then act_return ()
                  else act_bind (act_lift (h_address h (co_ss58_prefix options) (co_secret options)))
                    (\<lambda>account.
                      act_bind (claim_send_all api account options beneficiaries) (\<lambda>results.
                        on_fs (write_all_calls api options (multi_calls options results)
                          (co_multisig_addresses options)))))) w))"


section \<open>New files\<close>

lemma free_index_free: "\<not> existsSync s (call_file p f a (free_index s p f a i))"
  by (induction s p f a i rule: free_index.induct) (simp add: free_index.simps)

lemma write_new_file_name_eq:
  "write_new_file_name path pre addr d s = (s', Inr fname) \<longleftrightarrow>
     (\<exists>s1. mkdirSync s path = Inr s1 \<and>
           fname = call_file path pre addr (free_index s1 path pre addr 0) \<and>
           writeFileSync s1 fname d = Inr s')"
  by (auto simp: write_new_file_name_def act_bind_eq_Inr act_update_eq_Inr Let_def)

text \<open>
  C10: \<open>write_new_file_name\<close> never overwrites anything: the file it creates was not there before,
  holds the data afterwards, and every file that could be read before reads the same.
\<close>
theorem write_new_file_name_fresh:
  assumes "write_new_file_name path pre addr d s = (s', Inr fname)"
  shows "\<not> existsSync s fname \<and> readFileSync s' fname = Inr d \<and>
    (\<forall>q x. readFileSync s q = Inr x \<longrightarrow> readFileSync s' q = Inr x)"
proof -
  obtain s1 where s1: "mkdirSync s path = Inr s1"
    and fname: "fname = call_file path pre addr (free_index s1 path pre addr 0)"
    and w: "writeFileSync s1 fname d = Inr s'"
    using assms by (auto simp: write_new_file_name_eq)
  have free: "\<not> existsSync s1 fname" unfolding fname by (rule free_index_free)
  then have "\<not> existsSync s fname" by (simp add: mkdirSync_exists [OF s1])
  moreover have "readFileSync s' q = Inr x" if "readFileSync s q = Inr x" for q x
  proof -
    have "readFileSync s1 q = Inr x" using mkdirSync_read [OF s1 that] .
    moreover have "existsSync s q" using that by (rule readFileSync_exists)
    then have "q \<noteq> fname" using free by (auto simp: mkdirSync_exists [OF s1])
    ultimately show ?thesis by (simp add: writeFileSync_read [OF w])
  qed
  ultimately show ?thesis by (simp add: writeFileSync_read [OF w])
qed

definition sample_fs :: fs where
  "sample_fs = \<lparr>fs_files = [(''./a.csv'', ''data''), (''./X/c_X_0.txt'', ''old'')],
               fs_dirs = [''.'', ''./X'']\<rparr>"

theorem write_new_file_name_fresh_witness:
  "\<not> existsSync sample_fs ''./X/c_X_1.txt'' \<and>
   snd (write_new_file_name ''./X'' ''c'' ''X'' ''new'' sample_fs) = Inr ''./X/c_X_1.txt'' \<and>
   readFileSync (fst (write_new_file_name ''./X'' ''c'' ''X'' ''new'' sample_fs)) ''./X/c_X_0.txt'' =
     Inr ''old''"
proof -
  have run: "write_new_file_name ''./X'' ''c'' ''X'' ''new'' sample_fs =
    (sample_fs\<lparr>fs_files := (''./X/c_X_1.txt'', ''new'') # fs_files sample_fs\<rparr>,
     Inr ''./X/c_X_1.txt'')"
    by code_simp
  have old: "readFileSync sample_fs ''./X/c_X_0.txt'' = Inr ''old''" by code_simp
  show ?thesis using write_new_file_name_fresh [OF run] old run by simp
qed


section \<open>What is submitted\<close>

definition chunk_call :: "claim_options \<Rightarrow> nat \<times> batch \<Rightarrow> call" where
  "chunk_call options chunk =
     (case chunk of (m, beneficiaries) \<Rightarrow>
        if m = 0 then begin_claim_call beneficiaries (co_claim_msg options)
        else add_beneficiaries_call beneficiaries)"

definition chunk_extrinsic :: "api \<Rightarrow> string \<Rightarrow> claim_options \<Rightarrow> nat \<times> batch \<Rightarrow> string \<times> call" where
  "chunk_extrinsic api account options chunk =
     (account, signed_call api account (co_threshold options) (co_multisig_addresses options)
        (chunk_call options chunk))"

lemma send_chunk_eq:
  "send_chunk api account options chunk =
     send api account (co_threshold options) (co_multisig_addresses options)
       (chunk_call options chunk)"
  by (auto simp: fun_eq_iff send_chunk_def chunk_call_def INIT_CAMPAIGN_def
      send_begin_claim_tx_def send_add_beneficiaries_tx_def split: prod.splits)

interpretation chunks: submission "send_chunk api account options" w_sent
  "chunk_extrinsic api account options" for api account options
proof
  fix c w
  obtain k where "0 < k" "k \<le> 5" "w_sent (fst (send_chunk api account options c w)) =
      w_sent w @ replicate k (chunk_extrinsic api account options c)"
    using send_log unfolding send_chunk_eq chunk_extrinsic_def by blast
  then show "\<exists>k\<le>5. w_sent (fst (send_chunk api account options c w)) =
      w_sent w @ replicate k (chunk_extrinsic api account options c) \<and>
      (k = 0 \<longrightarrow> snd (send_chunk api account options c w) = Inr RMinus1)"
    by auto
qed

lemma on_fs_sent [simp]: "w_sent (fst (on_fs f w)) = w_sent w"
  by (simp add: on_fs_def split: prod.splits)

text \<open>
  \<open>claim_init.js\<close> submits nothing unless its command line is valid, the operator has confirmed,
  no call files of a previous run are left, the CSV file has been read completely, no claim is
  active, the pallet account can pay all amounts on top of the existential deposit, and the batch
  size is not above the limit of the pallet.
\<close>
theorem claim_main_guarded:
  "w_sent (fst (claim_main h api w)) = w_sent w \<or>
   h_answer h \<in> {''Y'', ''y''} \<and>
   (\<exists>options bs ns. claim_parse_args (h_now h) (h_argv h) = Inr options \<and>
      check_no_prev_calls (w_fs w) (co_out_file_path options) (co_multisig_addresses options) \<and>
      read_airdrop_file h (w_fs w) (co_csv_file options) (co_address_col_label options)
        (co_amount_col_label options) (co_batch_size options) = Inr bs \<and>
      \<not> api_claimActive api \<and>
      list_all2 (\<lambda>e n. BigInt (snd e) = Inr n) (concat bs) ns \<and>
      10 ^ 16 + sum_list ns \<le> int (api_palletFree api) \<and>
      \<not> num_lt (num_of_nat (api_maxOpBeneficiaries api)) (ToNumber (co_batch_size options)))"
  unfolding claim_main_def
  by (auto simp: act_bind_def check_preconditions_iff_aux split: sum.splits if_splits)


lemma claim_main_run:
  assumes "claim_parse_args (h_now h) (h_argv h) = Inr options" and "h_answer h \<in> {''Y'', ''y''}"
    and "check_no_prev_calls (w_fs w) (co_out_file_path options) (co_multisig_addresses options)"
    and "read_airdrop_file h (w_fs w) (co_csv_file options) (co_address_col_label options)
      (co_amount_col_label options) (co_batch_size options) = Inr bs"
    and "check_preconditions api bs (co_batch_size options) = Inr True"
    and "h_address h (co_ss58_prefix options) (co_secret options) = Inr account"
  shows "claim_main h api w =
    act_bind (claim_send_all api account options bs) (\<lambda>results.
      on_fs (write_all_calls api options (multi_calls options results)
        (co_multisig_addresses options))) w"
  using assms by (auto simp: claim_main_def act_bind_def)

lemma claim_send_all_fs: "w_fs (fst (claim_send_all api account options bs w)) = w_fs w"
proof -
  have "w_fs (fst (for_until_minus1 (send_chunk api account options) cs w)) = w_fs w" for cs
  proof (induction cs arbitrary: w)
    case (Cons c cs)
    obtain w' r where b: "send_chunk api account options c w = (w', r)" by fastforce
    have "w_fs w' = w_fs w" using send_fs [of api account] b unfolding send_chunk_eq
      by (metis fst_conv)
    then show ?case using Cons.IH [of w'] b by (auto split: sum.splits prod.splits)
  qed simp
  then show ?thesis by (simp add: claim_send_all_def)
qed

text \<open>
  Once the checks have passed, the batches go out in the order of the file, the first with
  \<open>beginClaim\<close> and the claim message and the others with \<open>addBeneficiaries\<close>, each wrapped for sudo or
  the multisig account and submitted at most five times; nothing else is submitted. Every batch with a
  result other than \<open>-1\<close> has been submitted at least once.
\<close>
theorem claim_main_submits:
  assumes "claim_parse_args (h_now h) (h_argv h) = Inr options" and "h_answer h \<in> {''Y'', ''y''}"
    and "check_no_prev_calls (w_fs w) (co_out_file_path options) (co_multisig_addresses options)"
    and "read_airdrop_file h (w_fs w) (co_csv_file options) (co_address_col_label options)
      (co_amount_col_label options) (co_batch_size options) = Inr bs"
    and "check_preconditions api bs (co_batch_size options) = Inr True"
    and "h_address h (co_ss58_prefix options) (co_secret options) = Inr account"
  shows "\<exists>ks. length ks \<le> length bs \<and> (\<forall>k\<in>set ks. k \<le> 5) \<and>
    w_sent (fst (claim_main h api w)) = w_sent w @
      concat (map2 (\<lambda>k c. replicate k (chunk_extrinsic api account options c)) ks
        (zip [0..<length bs] bs)) \<and>
    (\<forall>results. snd (claim_send_all api account options bs w) = Inr results \<longrightarrow>
       length results \<le> length ks \<and> (\<forall>k\<in>set (take (length results) ks). 0 < k))"
proof -
  have "w_sent (fst (claim_main h api w)) = w_sent (fst (claim_send_all api account options bs w))"
    unfolding claim_main_run [OF assms] by (auto simp: act_bind_def split: prod.splits sum.splits)
  then show ?thesis
    using chunks.log_for_until [of "zip [0..<length bs] bs" api account options w]
    by (simp add: claim_send_all_def)
qed


section \<open>Exhausted retries\<close>

lemma lifecycle_spec_all_retry:
  assumes "\<And>sent. retryable (api_node api sent)"
  shows "lifecycle_spec n (signAndSend api a c) w =
    (w\<lparr>w_sent := w_sent w @ replicate n (a, c)\<rparr>, Inr RUndefined)"
  using assms by (induction n arbitrary: w) (simp_all add: signAndSend_def Let_def)

lemma send_chunk_all_retry:
  assumes "\<And>sent. retryable (api_node api sent)"
  shows "send_chunk api account options c w =
    (w\<lparr>w_sent := w_sent w @ replicate 5 (chunk_extrinsic api account options c)\<rparr>,
     if num_lt (Fin 0) (ToNumber (co_threshold options))
     then Inl (TypeError ''Cannot read properties of undefined'') else Inr RUndefined)"
  by (simp add: send_chunk_eq chunk_extrinsic_def send_def signed_call_def send_as_multi_sudo_def
      send_as_sudo_def handleTransactionLifecycle_def lifecycle_loop_spec Let_def
      lifecycle_spec_all_retry [OF assms])

text \<open>
  When the node answers every submission with the error 1014, no batch is ever accepted, yet a
  run without a multisig account does not stop at the first batch: the life cycle gives \<open>undefined\<close>,
  which is not \<open>-1\<close>, so each batch in turn is submitted five times and the run counts as complete.
  With a positive threshold the first batch ends the run with a \<open>TypeError\<close>.
\<close>
theorem claim_send_all_exhausted:
  assumes "\<And>sent. retryable (api_node api sent)"
  shows "claim_send_all api account options (b # bs) w =
    (if num_lt (Fin 0) (ToNumber (co_threshold options))
     then (w\<lparr>w_sent := w_sent w @ replicate 5 (chunk_extrinsic api account options (0, b))\<rparr>,
           Inl (TypeError ''Cannot read properties of undefined''))
     else (w\<lparr>w_sent := w_sent w @ concat (map (\<lambda>c. replicate 5 (chunk_extrinsic api account options c))
             (zip [0..<length (b # bs)] (b # bs)))\<rparr>,
           Inr (replicate (length (b # bs)) RUndefined)))"
proof (cases "num_lt (Fin 0) (ToNumber (co_threshold options))")
  case True
  have "zip [0..<length (b # bs)] (b # bs) = (0, b) # zip [1..<length (b # bs)] bs"
    by (simp add: upt_rec)
  then show ?thesis using True
    by (simp add: claim_send_all_def send_chunk_all_retry [OF assms] del: upt_Suc)
next
  case False
  have "for_until_minus1 (send_chunk api account options) cs w =
    (w\<lparr>w_sent := w_sent w @ concat (map (\<lambda>c. replicate 5 (chunk_extrinsic api account options c)) cs)\<rparr>,
     Inr (replicate (length cs) RUndefined))" for cs
    by (induction cs arbitrary: w) (simp_all add: send_chunk_all_retry [OF assms] False)
  then show ?thesis using False by (simp add: claim_send_all_def del: upt_Suc)
qed


section \<open>A run\<close>

text \<open>A file with two non-zero rows, announced by \<open>ALICE\<close> for a multisig account with \<open>BOB\<close>.\<close>

definition sample_host :: host where
  "sample_host =
     \<lparr>h_now = 5, h_argv = [''./a.csv'', ''-n'', ''1'', ''-m'', ''BOB''], h_answer = ''y'',
      h_neatCsv = (\<lambda>_. Inr sample_rows), h_address = (\<lambda>_ _. Inr ''ALICE'')\<rparr>"

definition sample_inclusion :: notification where
  "sample_inclusion =
     \<lparr>n_blockNumber = Val 7,
      n_records =
        [\<lparr>rec_event = \<lparr>ev_section = ''multisig'', ev_method = ''NewMultisig'',
                       ev_data = [''ALICE'', ''MULTI'', ''0xhash'']\<rparr>, rec_phase = 2\<rparr>,
         \<lparr>rec_event = \<lparr>ev_section = ''system'', ev_method = ''ExtrinsicSuccess'', ev_data = []\<rparr>,
          rec_phase = 2\<rparr>],
      n_status = InBlock ''0xblock''\<rparr>"

definition sample_api :: "attempt \<Rightarrow> api" where
  "sample_api a =
     \<lparr>api_node = (\<lambda>_. a), api_methodHex = (\<lambda>_. ''0x01''), api_extrinsicHex = (\<lambda>_. ''0x02''),
      api_paymentWeight = (\<lambda>_ _. Inr ''w''), api_claimActive = False,
      api_maxOpBeneficiaries = 10000, api_palletFree = 10 ^ 19\<rparr>"

definition sample_world :: world where
  "sample_world = \<lparr>w_fs = sample_fs, w_sent = []\<rparr>"

definition sample_options :: claim_options where
  "sample_options = (default_options 5)
     \<lparr>co_csv_file := Some ''./a.csv'', co_threshold := Str ''1'', co_multisig_addresses := [Some ''BOB'']\<rparr>"

definition sample_chunk :: batch where
  "sample_chunk =
     [(KeyObj 0 (Ethereum ''0xabcdefabcdefabcdefabcdefabcdefabcdefabcd''), ''1500000000000000000''),
      (KeyObj 1 (Ethereum ''0xabcdefabcdefabcdefabcdefabcdefabcdefabcd''), ''2000000000000000000'')]"

lemma number_one [simp]: "StringToNumber ''1'' = Fin 1"
proof -
  have "StringToNumber ''1'' = double_of_rat (of_nat (digits_val ''1''))"
    by (rule StringToNumber_digits) (simp_all add: is_digit_def)
  then show ?thesis using double_of_nat_small [of 1] by (simp add: digits_val_def digit_val_def)
qed

lemma sample_parse: "claim_parse_args (h_now sample_host) (h_argv sample_host) = Inr sample_options"
  by (simp add: sample_host_def sample_options_def claim_parse_args_def claim_parse_loop.simps
      next_arg_def default_options_def arg_val_def num_le_def num_eq_def
      DEFAULT_BATCH_SIZE_def)


lemma sample_no_prev:
  "check_no_prev_calls (w_fs sample_world) (co_out_file_path sample_options)
     (co_multisig_addresses sample_options)"
  by (simp add: sample_world_def sample_fs_def sample_options_def default_options_def existsSync_def
      addr_path_def opt_text_def DEFAULT_OUT_FILE_PATH_def)

lemma sample_read:
  "read_airdrop_file sample_host (w_fs sample_world) (co_csv_file sample_options)
     (co_address_col_label sample_options) (co_amount_col_label sample_options)
     (co_batch_size sample_options) = Inr [sample_chunk]"
proof -
  have "\<not> flushes (Num (num_of_nat 10000)) (Suc 0)" "\<not> flushes (Num (num_of_nat 10000)) (Suc (Suc 0))"
    by (simp_all add: flushes_nat [of _ 10000])
  then have "read_airdrop_csv sample_rows ''address'' ''total'' (Num (num_of_nat 10000)) =
      Inr [sample_chunk]"
    by (simp add: read_airdrop_csv_entries sample_entries push_entry_def empty_reader_def Let_def
        sample_chunk_def)
  then show ?thesis
    by (simp add: read_airdrop_file_def sample_world_def sample_fs_def sample_options_def
        default_options_def opt_text_def readFileSync_def sample_host_def DEFAULT_ADDRESS_COL_def
        DEFAULT_AMOUNT_COL_def DEFAULT_BATCH_SIZE_def)
qed

lemma sample_preconditions:
  "check_preconditions (sample_api a) [sample_chunk] (co_batch_size sample_options) = Inr True"
  unfolding check_preconditions_iff_aux
  by (auto simp: sample_api_def sample_chunk_def sample_options_def default_options_def
      DEFAULT_BATCH_SIZE_def BigInt_eval list_all2_Cons1)

lemma sample_address:
  "h_address sample_host (co_ss58_prefix sample_options) (co_secret sample_options) = Inr ''ALICE''"
  by (simp add: sample_host_def)

lemmas sample_checks = sample_parse sample_no_prev sample_read sample_preconditions sample_address

lemma sample_answer: "h_answer sample_host \<in> {''Y'', ''y''}"
  by (simp add: sample_host_def)

theorem claim_main_submits_witness:
  "\<exists>ks. length ks \<le> 1 \<and> (\<forall>k\<in>set ks. k \<le> 5) \<and>
    w_sent (fst (claim_main sample_host (sample_api (Subscribed [sample_inclusion])) sample_world)) =
      concat (map2 (\<lambda>k c. replicate k (chunk_extrinsic (sample_api (Subscribed [sample_inclusion]))
        ''ALICE'' sample_options c)) ks [(0, sample_chunk)])"
  using claim_main_submits [OF sample_parse sample_answer sample_no_prev sample_read
      sample_preconditions sample_address, of "Subscribed [sample_inclusion]"]
  by (auto simp: sample_world_def)

theorem claim_send_all_exhausted_witness:
  "snd (claim_send_all (sample_api (SendRejected (SendError (Some 1014) ''low''))) ''ALICE''
      (default_options 5) [sample_chunk, []] sample_world) = Inr [RUndefined, RUndefined]"
proof -
  have "retryable (api_node (sample_api (SendRejected (SendError (Some 1014) ''low''))) sent)" for sent
    by (simp add: sample_api_def retryable_def)
  from claim_send_all_exhausted [OF this] show ?thesis
    by (simp add: default_options_def DEFAULT_MULTISIG_THRESHOLD_def)
qed

end
