(* ===== verification/ClaimApprove.thy ===== *)
theory ClaimApprove
  imports ClaimInit
begin

text \<open>
  \<open>scripts/claim/claim_final_approve.js\<close>: a signatory reads the call files that \<open>claim_init.js\<close>
  wrote for its address and submits them in order. Its defaults are those of \<open>claim_init.js\<close>, and its
  life cycle of a transaction is the same text as the one of theory \<open>TxLifecycle\<close>. \<open>isHex\<close> of the
  polkadot library is a parameter.
\<close>


section \<open>Command line\<close>

record approve_options =
  ao_ws_endpoint :: "string option"
  ao_ss58_prefix :: jsval
  ao_secret :: "string option"
  ao_out_file_path :: "string option"

definition default_approve_options :: approve_options where
  "default_approve_options =
     \<lparr>ao_ws_endpoint = Some DEFAULT_WS_ENDPOINT,
      ao_ss58_prefix = Num (num_of_nat DEFAULT_PREFIX),
      ao_secret = Some DEFAULT_SEED,
      ao_out_file_path = Some DEFAULT_OUT_FILE_PATH\<rparr>"

function approve_parse_loop ::
  "string list \<Rightarrow> approve_options \<Rightarrow> string list \<Rightarrow> (approve_options \<times> string list) res"
where
  "approve_parse_loop [] res extra_args = Inr (res, extra_args)"
| "approve_parse_loop (a # args) res extra_args =
     (let (v, rest) = next_arg args in
      if a = ''-e'' \<or> a = ''--end-point'' then
        approve_parse_loop rest (res\<lparr>ao_ws_endpoint := resolve_endpoint v\<rparr>) extra_args
      else if a = ''-p'' \<or> a = ''--prefix'' then
        approve_parse_loop rest (res\<lparr>ao_ss58_prefix := arg_val v\<rparr>) extra_args
      else if a = ''-u'' \<or> a = ''--uri'' then
        approve_parse_loop rest (res\<lparr>ao_secret := v\<rparr>) extra_args
      else if a = ''-o'' \<or> a = ''--out'' then
        approve_parse_loop rest (res\<lparr>ao_out_file_path := v\<rparr>) extra_args
      else if a = ''-h'' \<or> a = ''--help'' then usage
      else approve_parse_loop args res (extra_args @ [a]))"
  by pat_completeness auto
termination
  by (relation "measure (\<lambda>(args, _, _). length args)")
    (auto simp: next_arg_def split: list.splits)

declare approve_parse_loop.simps [simp del]

definition approve_parse_args :: "string list \<Rightarrow> approve_options res" where
  "approve_parse_args args =
     res_bind (approve_parse_loop args default_approve_options []) (\<lambda>(res, extra_args).
       if length extra_args \<noteq> 0 then usage else Inr res)"


section \<open>Reading the call files\<close>

definition read_file_name ::
  "fs \<Rightarrow> string option \<Rightarrow> string \<Rightarrow> string \<Rightarrow> nat \<Rightarrow> string option res"
where
  "read_file_name s path fname_prefix addr idx =
     (let fname = call_file (addr_path path (Some addr)) fname_prefix addr idx in
      if \<not> existsSync s fname then Inr None
      else res_bind (readFileSync s fname) (\<lambda>d. Inr (Some d)))"

text \<open>The loop ends because finitely many of the names exist.\<close>

function read_files_from ::
  "fs \<Rightarrow> string option \<Rightarrow> string \<Rightarrow> string \<Rightarrow> nat \<Rightarrow> string list res"
where
  "read_files_from s path fname_prefix addr idx =
     (case read_file_name s path fname_prefix addr idx of
        Inl e \<Rightarrow> Inl e
      | Inr None \<Rightarrow> Inr []
      | Inr (Some tx) \<Rightarrow>
          res_bind (read_files_from s path fname_prefix addr (Suc idx)) (\<lambda>txs. Inr (tx # txs)))"
  by pat_completeness auto
termination
proof (relation "measure (\<lambda>(s, p, f, a, i).
    card {j. i \<le> j \<and> existsSync s (call_file (addr_path p (Some a)) f a j)})")
  fix s p f a i r tx
  assume "read_file_name s p f a i = Inr r" and "r = Some tx"
  then have "existsSync s (call_file (addr_path p (Some a)) f a i)"
    by (auto simp: read_file_name_def Let_def split: if_splits)
  then show "((s, p, f, a, Suc i), s, p, f, a, i) \<in> measure (\<lambda>(s, p, f, a, i).
    card {j. i \<le> j \<and> existsSync s (call_file (addr_path p (Some a)) f a j)})"
    by (simp add: existing_decreases)
qed simp

declare read_files_from.simps [simp del]

definition read_files :: "fs \<Rightarrow> string option \<Rightarrow> string \<Rightarrow> string \<Rightarrow> string list res" where
  "read_files s path fname_prefix addr = read_files_from s path fname_prefix addr 0"


section \<open>Main\<close>

text \<open>The life cycle of this script, the same text as in \<open>claim_init.js\<close>.\<close>

definition approve_lifecycle :: "('w \<Rightarrow> attempt \<times> 'w) \<Rightarrow> 'w \<Rightarrow> 'w \<times> tx_info retval res" where
  "approve_lifecycle sendFunction w = handleTransactionLifecycle sendFunction w"

definition approve_send ::
  "(string \<Rightarrow> bool) \<Rightarrow> api \<Rightarrow> string \<Rightarrow> string \<Rightarrow> world \<Rightarrow> world \<times> tx_info retval res"
where
  "approve_send isHex api account c w =
     (if \<not> isHex c then (w, Inr RMinus1)
      else approve_lifecycle (signAndSend api account (RawTx c)) w)"

definition approve_main :: "(string \<Rightarrow> bool) \<Rightarrow> host \<Rightarrow> api \<Rightarrow> (world, unit) act" where
  "approve_main isHex h api =
     act_bind (act_lift (approve_parse_args (h_argv h))) (\<lambda>options.
       if h_answer h \<noteq> ''Y'' \<and> h_answer h \<noteq> ''y'' then act_fail (Exit 0)
       else act_bind (act_lift (h_address h (ao_ss58_prefix options) (ao_secret options)))
         (\<lambda>account w.
           act_bind (act_lift (read_files (w_fs w) (ao_out_file_path options)
               ''encoded_final_approve'' account)) (\<lambda>txs.
             act_bind (for_until_minus1 (approve_send isHex api account) txs)
               (\<lambda>_. act_return ())) w))"

interpretation approvals: submission "approve_send isHex api account" w_sent
  "\<lambda>c. (account, RawTx c)" for isHex api account
proof
  fix c w
  show "\<exists>k\<le>5. w_sent (fst (approve_send isHex api account c w)) =
      w_sent w @ replicate k (account, RawTx c) \<and>
      (k = 0 \<longrightarrow> snd (approve_send isHex api account c w) = Inr RMinus1)"
  proof (cases "isHex c")
    case True
    obtain k where "0 < k" "k \<le> 5"
      "w_sent (fst (handleTransactionLifecycle (signAndSend api account (RawTx c)) w)) =
        w_sent w @ replicate k (account, RawTx c)"
      using lifecycle_log [of w_sent "signAndSend api account (RawTx c)"] signAndSend_log by blast
    then show ?thesis using True by (auto simp: approve_send_def approve_lifecycle_def)
  qed (simp add: approve_send_def)
qed


section \<open>The files of an address\<close>

abbreviation final_file :: "string option \<Rightarrow> string option \<Rightarrow> nat \<Rightarrow> string" where
  "final_file out addr \<equiv> call_file (addr_path out addr) ''encoded_final_approve'' (opt_text addr)"

lemma read_files_from_series:
  assumes "nfs.holds_series s (call_file (addr_path path (Some a)) f a) ds" and "i \<le> length ds"
  shows "read_files_from s path f a i = Inr (drop i ds)"
  using assms
proof (induction s path f a i rule: read_files_from.induct)
  case (1 s path f a i)
  note ex = nfs.series_exists [OF 1(2), of i] and rd = nfs.series_read [OF 1(2), of i]
  show ?case
  proof (cases "i < length ds")
    case True
    then have r: "read_file_name s path f a i = Inr (Some (ds ! i))"
      using ex rd by (simp add: read_file_name_def Let_def)
    have "read_files_from s path f a (Suc i) = Inr (drop (Suc i) ds)"
      using 1(1) [OF r refl] 1(2) True by simp
    then show ?thesis
      using r True by (subst read_files_from.simps) (simp add: Cons_nth_drop_Suc)
  next
    case False
    then have "read_file_name s path f a i = Inr None"
      using ex by (simp add: read_file_name_def Let_def)
    then show ?thesis using False by (subst read_files_from.simps) simp
  qed
qed

lemma free_index_series:
  assumes "nfs.holds_series s (call_file p f a) ds" and "i \<le> length ds"
  shows "free_index s p f a i = length ds"
  using assms
proof (induction s p f a i rule: free_index.induct)
  case (1 s p f a i)
  then show ?case
    using nfs.series_exists [OF 1(2), of i] by (subst free_index.simps) (auto simp: not_less)
qed

lemma call_file_longer: "call_file p f a i \<notin> set (path_chain p)"
  using path_chain_prefix [of "call_file p f a i" p] by (auto simp: call_file_def)

lemma call_file_parent:
  assumes "CHR ''/'' \<notin> set f" and "CHR ''/'' \<notin> set a"
  shows "parent_dir (call_file p f a i) = p"
proof -
  have "CHR ''/'' \<notin> set (show_nat i)"
    using show_nat_digits [of "CHR ''/''" i] by (auto simp: is_digit_def)
  then show ?thesis unfolding call_file_def by (intro parent_dir_join) (use assms in auto)
qed

lemma write_new_file_series:
  assumes "nfs.holds_series s (call_file p f a) ds"
    and "write_new_file_name p f a d s = (s', Inr fname)"
  shows "nfs.holds_series s' (call_file p f a) (ds @ [d])"
proof -
  obtain s1 where m: "mkdirSync s p = Inr s1"
    and w: "writeFileSync s1 (call_file p f a (free_index s1 p f a 0)) d = Inr s'"
    using assms(2) by (auto simp: write_new_file_name_eq)
  have h: "nfs.holds_series s1 (call_file p f a) ds"
    by (rule nfs.series_mkdir [OF assms(1) _ m]) (auto simp: call_file_longer)
  have "inj (call_file p f a)" by (rule injI) simp
  then show ?thesis
    using nfs.series_snoc [OF h] w by (simp add: free_index_series [OF h])
qed

lemma write_new_file_other:
  assumes "nfs.holds_series s (call_file p f a) ds"
    and "write_new_file_name p' f' a' d s = (s', Inr fname)"
    and "\<And>i. call_file p f a i \<notin> set (path_chain p')"
    and "\<And>i j. call_file p f a i \<noteq> call_file p' f' a' j"
  shows "nfs.holds_series s' (call_file p f a) ds"
proof -
  obtain s1 j where m: "mkdirSync s p' = Inr s1"
    and w: "writeFileSync s1 (call_file p' f' a' j) d = Inr s'"
    using assms(2) by (auto simp: write_new_file_name_eq)
  have "nfs.holds_series s1 (call_file p f a) ds"
    by (rule nfs.series_mkdir [OF assms(1) _ m]) (use assms(3) in auto)
  moreover have "call_file p' f' a' j \<notin> range (call_file p f a)"
    using assms(4) [of _ j] by (auto dest: sym)
  ultimately show ?thesis by (rule nfs.series_write_other [OF _ _ w])
qed


text \<open>Different addresses have separate files, when no address contains a slash.\<close>

lemma slash_split:
  assumes "CHR ''/'' \<notin> set a" and "CHR ''/'' \<notin> set b" and "a @ CHR ''/'' # x = b @ CHR ''/'' # y"
  shows "a = b"
proof -
  have "takeWhile (\<lambda>c. c \<noteq> CHR ''/'') (a @ CHR ''/'' # x) =
      takeWhile (\<lambda>c. c \<noteq> CHR ''/'') (b @ CHR ''/'' # y)"
    using assms(3) by simp
  moreover have "takeWhile (\<lambda>c. c \<noteq> CHR ''/'') (z @ CHR ''/'' # v) = z" if "CHR ''/'' \<notin> set z" for z v
    using that by (subst takeWhile_append2) auto
  ultimately show ?thesis using assms(1,2) by simp
qed

lemma call_file_path: "call_file (addr_path out addr) f a i =
    opt_text out @ ''/'' @ opt_text addr @ ''/'' @ f @ ''_'' @ a @ ''_'' @ show_nat i @ ''.txt''"
  by (simp add: call_file_def addr_path_def)

lemma separate_files:
  assumes "CHR ''/'' \<notin> set (opt_text a)" and "CHR ''/'' \<notin> set (opt_text b)"
    and "opt_text a \<noteq> opt_text b"
  shows "call_file (addr_path out a) f (opt_text a) i \<noteq> call_file (addr_path out b) f' (opt_text b) j"
    and "call_file (addr_path out a) f (opt_text a) i \<notin> set (path_chain (addr_path out b))"
proof -
  show "call_file (addr_path out a) f (opt_text a) i \<noteq> call_file (addr_path out b) f' (opt_text b) j"
    using slash_split [OF assms(1,2)] assms(3) by (auto simp: call_file_path)
  show "call_file (addr_path out a) f (opt_text a) i \<notin> set (path_chain (addr_path out b))"
  proof
    assume "call_file (addr_path out a) f (opt_text a) i \<in> set (path_chain (addr_path out b))"
    then have "\<exists>t. opt_text b = opt_text a @ CHR ''/'' # t"
      by (auto simp: path_chain_mem call_file_def addr_path_def dest: sym)
    then show False using assms(2) by auto
  qed
qed

lemma write_final_calls_series:
  assumes "nfs.holds_series s (final_file (co_out_file_path options) addr) ds"
    and "write_final_calls api options addr ms s = (s', Inr ())"
  shows "nfs.holds_series s' (final_file (co_out_file_path options) addr)
    (ds @ map (\<lambda>m. api_extrinsicHex api (get_final_approve m (co_threshold options) addr
       (co_multisig_addresses options))) ms)"
  using assms
proof (induction ms arbitrary: s ds)
  case (Cons m ms)
  then show ?case
    by (fastforce simp: act_bind_eq_Inr dest: write_new_file_series [OF Cons.prems(1)])
qed simp

lemma write_final_calls_other:
  assumes "nfs.holds_series s (final_file out a) ds" and "out = co_out_file_path options"
    and "CHR ''/'' \<notin> set (opt_text a)" and "CHR ''/'' \<notin> set (opt_text b)"
    and "opt_text a \<noteq> opt_text b"
    and "write_final_calls api options b ms s = (s', Inr ())"
  shows "nfs.holds_series s' (final_file out a) ds"
  using assms(1,6)
proof (induction ms arbitrary: s)
  case (Cons m ms)
  obtain s1 fname where
    w: "write_new_file_name (addr_path out b) ''encoded_final_approve'' (opt_text b)
      (api_extrinsicHex api (get_final_approve m (co_threshold options) b
         (co_multisig_addresses options))) s = (s1, Inr fname)"
    and r: "write_final_calls api options b ms s1 = (s', Inr ())"
    using Cons.prems(2) assms(2) by (auto simp: act_bind_eq_Inr)
  show ?case
    by (rule Cons.IH [OF write_new_file_other [OF Cons.prems(1) w] r])
      (simp_all add: separate_files [OF assms(3-5)])
qed simp

lemma write_calls_other:
  assumes "nfs.holds_series s (final_file out a) ds" and "out = co_out_file_path options"
    and "CHR ''/'' \<notin> set (opt_text a)" and "CHR ''/'' \<notin> set (opt_text b)"
    and "opt_text a \<noteq> opt_text b" and "write_calls api options ms b s = (s', Inr ())"
  shows "nfs.holds_series s' (final_file out a) ds"
proof -
  obtain s1 fname where
    w: "write_new_file_name (addr_path out b) ''encoded_batch_approve'' (opt_text b)
      (api_extrinsicHex api (get_approve_batch ms (co_threshold options) b
         (co_multisig_addresses options))) s = (s1, Inr fname)"
    and r: "write_final_calls api options b ms s1 = (s', Inr ())"
    using assms(2,6) by (auto simp: write_calls_def act_bind_eq_Inr)
  show ?thesis
    by (rule write_final_calls_other [OF write_new_file_other [OF assms(1) w] assms(2-5) r])
      (simp_all add: separate_files [OF assms(3-5)])
qed

lemma write_calls_series:
  assumes "nfs.holds_series s (final_file (co_out_file_path options) addr) []"
    and "write_calls api options ms addr s = (s', Inr ())"
  shows "nfs.holds_series s' (final_file (co_out_file_path options) addr)
    (map (\<lambda>m. api_extrinsicHex api (get_final_approve m (co_threshold options) addr
       (co_multisig_addresses options))) ms)"
proof -
  let ?p = "addr_path (co_out_file_path options) addr"
  obtain s1 fname where
    w: "write_new_file_name ?p ''encoded_batch_approve'' (opt_text addr)
      (api_extrinsicHex api (get_approve_batch ms (co_threshold options) addr
         (co_multisig_addresses options))) s = (s1, Inr fname)"
    and r: "write_final_calls api options addr ms s1 = (s', Inr ())"
    using assms(2) by (auto simp: write_calls_def act_bind_eq_Inr)
  have "nfs.holds_series s1 (final_file (co_out_file_path options) addr) []"
    by (rule write_new_file_other [OF assms(1) w call_file_longer]) (simp add: call_file_def)
  then show ?thesis using write_final_calls_series [OF _ r] by fastforce
qed


definition plain_addresses :: "string option list \<Rightarrow> bool" where
  "plain_addresses addrs \<longleftrightarrow>
     distinct (map opt_text addrs) \<and> list_all (\<lambda>a. CHR ''/'' \<notin> set (opt_text a)) addrs"

lemma write_all_calls_other:
  assumes "nfs.holds_series s (final_file (co_out_file_path options) a) ds"
    and "plain_addresses (a # addrs)"
    and "write_all_calls api options ms addrs s = (s', Inr ())"
  shows "nfs.holds_series s' (final_file (co_out_file_path options) a) ds"
  using assms
proof (induction addrs arbitrary: s)
  case (Cons b addrs)
  obtain s1 where w: "write_calls api options ms b s = (s1, Inr ())"
    and r: "write_all_calls api options ms addrs s1 = (s', Inr ())"
    using Cons.prems(3) by (auto simp: act_bind_eq_Inr)
  show ?case
    by (rule Cons.IH [OF write_calls_other [OF Cons.prems(1) refl _ _ _ w] _ r])
      (use Cons.prems(2) in \<open>auto simp: plain_addresses_def\<close>)
qed simp

lemma write_all_calls_series:
  assumes "nfs.holds_series s (final_file (co_out_file_path options) a) []"
    and "a \<in> set addrs" and "plain_addresses addrs"
    and "write_all_calls api options ms addrs s = (s', Inr ())"
  shows "nfs.holds_series s' (final_file (co_out_file_path options) a)
    (map (\<lambda>m. api_extrinsicHex api (get_final_approve m (co_threshold options) a
       (co_multisig_addresses options))) ms)"
  using assms
proof (induction addrs arbitrary: s)
  case (Cons b addrs)
  obtain s1 where w: "write_calls api options ms b s = (s1, Inr ())"
    and r: "write_all_calls api options ms addrs s1 = (s', Inr ())"
    using Cons.prems(4) by (auto simp: act_bind_eq_Inr)
  show ?case
  proof (cases "a = b")
    case True
    then show ?thesis
      using write_all_calls_other [OF write_calls_series [OF Cons.prems(1) w [folded True]] _ r]
        Cons.prems(3) by simp
  next
    case False
    then have a: "a \<in> set addrs" using Cons.prems(2) by simp
    have "opt_text b \<notin> opt_text ` set addrs" using Cons.prems(3) by (simp add: plain_addresses_def)
    then have "opt_text a \<noteq> opt_text b" using imageI [OF a, of opt_text] by metis
    then have "nfs.holds_series s1 (final_file (co_out_file_path options) a) []"
      by (intro write_calls_other [OF Cons.prems(1) refl _ _ _ w])
        (use Cons.prems(3) a in \<open>auto simp: plain_addresses_def list_all_iff\<close>)
    then show ?thesis
      using Cons.IH [OF _ a _ r] Cons.prems(3) by (simp add: plain_addresses_def)
  qed
qed simp

lemma check_no_prev_calls_iff:
  "check_no_prev_calls s out addrs \<longleftrightarrow> (\<forall>a\<in>set addrs. \<not> existsSync s (addr_path out a))"
  by (induction addrs) auto

lemma no_files_yet:
  assumes "fs_wf s" and "\<not> existsSync s (addr_path out a)" and "CHR ''/'' \<notin> set (opt_text a)"
  shows "nfs.holds_series s (final_file out a) []"
proof (rule nfs.series_empty)
  fix i
  have p: "parent_dir (final_file out a i) = addr_path out a"
    using assms(3) by (intro call_file_parent) auto
  show "\<not> existsSync s (final_file out a i)"
    by (rule fs_wf_no_entry [OF assms(1)]) (use assms(2) in \<open>simp_all add: p\<close>, simp add: addr_path_def)
qed

lemma call_files_roundtrip_aux:
  assumes "fs_wf s"
    and "check_no_prev_calls s (co_out_file_path options) (co_multisig_addresses options)"
    and "plain_addresses (co_multisig_addresses options)"
    and "Some a \<in> set (co_multisig_addresses options)"
    and "write_all_calls api options ms (co_multisig_addresses options) s = (s', Inr ())"
  shows "read_files s' (co_out_file_path options) ''encoded_final_approve'' a =
    Inr (map (\<lambda>m. api_extrinsicHex api (get_final_approve m (co_threshold options) (Some a)
       (co_multisig_addresses options))) ms)"
proof -
  have "nfs.holds_series s (final_file (co_out_file_path options) (Some a)) []"
    by (rule no_files_yet [OF assms(1)])
      (use assms(2-4) in \<open>auto simp: check_no_prev_calls_iff plain_addresses_def list_all_iff\<close>)
  from write_all_calls_series [OF this assms(4,3,5)]
  show ?thesis
    unfolding read_files_def by (subst read_files_from_series) (simp_all add: opt_text_def)
qed

text \<open>
  C14: What \<open>claim_init.js\<close> writes, \<open>claim_final_approve.js\<close> reads: in a tree without leftovers, with
  distinct addresses that contain no slash, every signatory finds exactly one final approval per
  announced multisig call, made for its own address, in the order in which the calls were announced.
\<close>
theorem call_files_roundtrip:
  assumes "fs_wf s"
    and "check_no_prev_calls s (co_out_file_path options) (co_multisig_addresses options)"
    and "plain_addresses (co_multisig_addresses options)"
    and "Some a \<in> set (co_multisig_addresses options)"
    and "write_all_calls api options ms (co_multisig_addresses options) s = (s', Inr ())"
  shows "read_files s' (co_out_file_path options) ''encoded_final_approve'' a =
    Inr (map (\<lambda>m. api_extrinsicHex api (get_final_approve m (co_threshold options) (Some a)
       (co_multisig_addresses options))) ms)"
  using assms by (rule call_files_roundtrip_aux)


lemma lifecycle_first:
  assumes "\<not> retryable (fst (submit w))"
  shows "handleTransactionLifecycle submit w = (snd (submit w), attempt_verdict (fst (submit w)))"
proof -
  have "lifecycle_spec (Suc n) submit w = (snd (submit w), attempt_verdict (fst (submit w)))" for n
    using assms by (simp add: case_prod_beta)
  from this [of 4] show ?thesis by (simp add: handleTransactionLifecycle_def lifecycle_loop_spec)
qed

text \<open>A node that includes every extrinsic successfully at the first attempt.\<close>

definition accepts_all :: "api \<Rightarrow> bool" where
  "accepts_all api \<longleftrightarrow>
     (\<forall>sent. \<not> retryable (api_node api sent) \<and>
             (\<exists>i. attempt_verdict (api_node api sent) = Inr (RObj i)))"

lemma approve_send_accepted:
  assumes "accepts_all api" and "isHex c"
  obtains i where "approve_send isHex api account c w =
    (w\<lparr>w_sent := w_sent w @ [(account, RawTx c)]\<rparr>, Inr (RObj i))"
proof -
  let ?sent = "w_sent w @ [(account, RawTx c)]"
  obtain i where "\<not> retryable (api_node api ?sent)" "attempt_verdict (api_node api ?sent) = Inr (RObj i)"
    using assms(1) by (auto simp: accepts_all_def)
  then show ?thesis
    using that [of i] assms(2) by (simp add: approve_send_def approve_lifecycle_def lifecycle_first
        signAndSend_def Let_def)
qed

lemma approvals_accepted:
  assumes "accepts_all api" and "list_all isHex txs"
  shows "\<exists>rs. for_until_minus1 (approve_send isHex api account) txs w =
    (w\<lparr>w_sent := w_sent w @ map (\<lambda>c. (account, RawTx c)) txs\<rparr>, Inr rs)"
  using assms(2)
proof (induction txs arbitrary: w)
  case (Cons c cs)
  let ?w = "w\<lparr>w_sent := w_sent w @ [(account, RawTx c)]\<rparr>"
  have "isHex c" "list_all isHex cs" using Cons.prems by simp_all
  obtain i where i: "approve_send isHex api account c w = (?w, Inr (RObj i))"
    by (rule approve_send_accepted [of api isHex c account w, OF assms(1) \<open>isHex c\<close>])
  obtain rs where rs: "for_until_minus1 (approve_send isHex api account) cs ?w =
      (?w\<lparr>w_sent := w_sent ?w @ map (\<lambda>c. (account, RawTx c)) cs\<rparr>, Inr rs)"
    using Cons.IH [OF \<open>list_all isHex cs\<close>] by blast
  show ?case by (simp add: i rs)
qed simp

abbreviation accepting_api :: api where
  "accepting_api \<equiv> sample_api (Subscribed [sample_inclusion])"

lemma sample_verdict:
  "attempt_verdict (Subscribed [sample_inclusion]) =
     Inr (RObj \<lparr>ti_block = Val ''0xblock'', ti_number = Val 7, ti_index = Val 2, ti_call = Val ''0xhash''\<rparr>)"
  by (simp add: attempt_verdict_def terminal_def sample_inclusion_def inclusion_def is_success_def
      is_new_multisig_def multisig_ref_def elem_at_def)

lemma sample_api_simps:
  "api_node (sample_api a) l = a" "api_methodHex (sample_api a) c = ''0x01''"
  "api_extrinsicHex (sample_api a) c = ''0x02''" "api_paymentWeight (sample_api a) c b = Inr ''w''"
  by (simp_all add: sample_api_def)

lemma sample_send:
  "handleTransactionLifecycle (signAndSend accepting_api a c) w =
     (w\<lparr>w_sent := w_sent w @ [(a, c)]\<rparr>,
      Inr (RObj \<lparr>ti_block = Val ''0xblock'', ti_number = Val 7, ti_index = Val 2, ti_call = Val ''0xhash''\<rparr>))"
  by (subst lifecycle_first)
    (simp_all add: signAndSend_def Let_def sample_api_simps sample_verdict retryable_def)

definition sample_multi_call :: multi_call where
  "sample_multi_call = \<lparr>mc_block = Val 7, mc_index = Val 2, mc_hash = Val ''0xhash'',
     mc_weight = ''w'', mc_data = ''0x01''\<rparr>"

lemma sample_send_all:
  "claim_send_all accepting_api ''ALICE'' sample_options [sample_chunk] sample_world =
   (sample_world\<lparr>w_sent := [chunk_extrinsic accepting_api ''ALICE'' sample_options (0, sample_chunk)]\<rparr>,
    Inr [RObj (MultiInfo sample_multi_call)])"
proof -
  have t: "co_threshold sample_options = Str ''1''" by (simp add: sample_options_def)
  show ?thesis
    by (simp add: claim_send_all_def send_chunk_eq send_def send_as_multi_sudo_def Let_def
        sample_send sample_api_simps t chunk_extrinsic_def signed_call_def sample_multi_call_def)
      (simp add: sample_world_def)
qed


lemma sample_written:
  "\<exists>s. write_all_calls accepting_api sample_options [sample_multi_call]
     (co_multisig_addresses sample_options) sample_fs = (s, Inr ())"
proof -
  let ?f = "''encoded_final_approve''" and ?b = "''encoded_batch_approve''"
  have "snd (act_bind (write_new_file_name ''./BOB'' ?b ''BOB'' ''0x02'')
      (\<lambda>_. write_new_file_name ''./BOB'' ?f ''BOB'' ''0x02'') sample_fs) =
    Inr ''./BOB/encoded_final_approve_BOB_0.txt''"
    by code_simp
  then obtain s2 where "act_bind (write_new_file_name ''./BOB'' ?b ''BOB'' ''0x02'')
      (\<lambda>_. write_new_file_name ''./BOB'' ?f ''BOB'' ''0x02'') sample_fs =
    (s2, Inr ''./BOB/encoded_final_approve_BOB_0.txt'')"
    by (metis prod.collapse)
  then obtain s1 f1 f2 where
    "write_new_file_name ''./BOB'' ?b ''BOB'' ''0x02'' sample_fs = (s1, Inr f1)"
    "write_new_file_name ''./BOB'' ?f ''BOB'' ''0x02'' s1 = (s2, Inr f2)"
    by (auto simp: act_bind_eq_Inr)
  then show ?thesis
    by (simp add: sample_options_def default_options_def addr_path_def opt_text_def write_calls_def
        act_bind_def sample_api_simps DEFAULT_OUT_FILE_PATH_def)
qed

lemma sample_fs_wf: "fs_wf sample_fs"
  by code_simp

lemma sample_plain: "plain_addresses (co_multisig_addresses sample_options)"
  by (simp add: plain_addresses_def sample_options_def opt_text_def)

lemma sample_bob: "Some ''BOB'' \<in> set (co_multisig_addresses sample_options)"
  by (simp add: sample_options_def)

theorem call_files_roundtrip_witness:
  "\<exists>s. write_all_calls accepting_api sample_options [sample_multi_call]
     (co_multisig_addresses sample_options) sample_fs = (s, Inr ()) \<and>
   read_files s (co_out_file_path sample_options) ''encoded_final_approve'' ''BOB'' = Inr [''0x02'']"
proof -
  obtain s where s: "write_all_calls accepting_api sample_options [sample_multi_call]
     (co_multisig_addresses sample_options) sample_fs = (s, Inr ())"
    using sample_written by blast
  have "check_no_prev_calls sample_fs (co_out_file_path sample_options)
      (co_multisig_addresses sample_options)"
    using sample_no_prev by (simp add: sample_world_def)
  from call_files_roundtrip [OF sample_fs_wf this sample_plain sample_bob s] s show ?thesis
    by (auto simp: sample_api_simps)
qed


lemma sample_main:
  "\<exists>w. claim_main sample_host accepting_api sample_world = (w, Inr ())"
proof -
  have "multi_calls sample_options [RObj (MultiInfo sample_multi_call)] = [sample_multi_call]"
    by (simp add: multi_calls_def sample_options_def)
  moreover obtain s where "write_all_calls accepting_api sample_options [sample_multi_call]
      (co_multisig_addresses sample_options) sample_fs = (s, Inr ())"
    using sample_written by blast
  ultimately show ?thesis
    unfolding claim_main_run [OF sample_parse sample_answer sample_no_prev sample_read
        sample_preconditions sample_address]
    by (simp add: act_bind_def sample_send_all on_fs_def) (simp add: sample_world_def)
qed

definition approver_host :: host where
  "approver_host = sample_host\<lparr>h_argv := [], h_address := (\<lambda>_ _. Inr ''BOB'')\<rparr>"

lemma approver_parse: "approve_parse_args (h_argv approver_host) = Inr default_approve_options"
  by (simp add: approver_host_def approve_parse_args_def approve_parse_loop.simps)

lemma accepting_accepts: "accepts_all accepting_api"
  by (simp add: accepts_all_def sample_api_simps sample_verdict retryable_def)

end
