(* ===== verification/ClaimSession.thy ===== *)
theory ClaimSession
  imports ClaimApprove
begin

text \<open>
  The two claim scripts as a transition system: operators run \<open>claim_init.js\<close> and
  \<open>claim_final_approve.js\<close> on one tree of files and one chain, in any order, with any options, answers,
  accounts and behaviour of the node, and with any outcome, also when a run stops in the middle.
\<close>


section \<open>Steps\<close>

inductive claim_step :: "world \<Rightarrow> world \<Rightarrow> bool" where
  init: "claim_main h api w = (w', r) \<Longrightarrow> claim_step w w'"
| approve: "approve_main isHex h api w = (w', r) \<Longrightarrow> claim_step w w'"

inductive_cases claim_stepE: "claim_step w w'"

text \<open>
  A world extends another one: the tree of files stays well formed, every file is still there with its
  contents, and submissions are only added.
\<close>

definition files_kept :: "fs \<Rightarrow> fs \<Rightarrow> bool" where
  "files_kept s s' \<longleftrightarrow>
     (fs_wf s \<longrightarrow> fs_wf s') \<and> (\<forall>p d. readFileSync s p = Inr d \<longrightarrow> readFileSync s' p = Inr d)"

definition extends :: "world \<Rightarrow> world \<Rightarrow> bool" where
  "extends w w' \<longleftrightarrow> files_kept (w_fs w) (w_fs w') \<and> (\<exists>xs. w_sent w' = w_sent w @ xs)"

lemma files_kept_refl [simp, intro]: "files_kept s s"
  by (simp add: files_kept_def)

lemma files_kept_trans: "files_kept s s' \<Longrightarrow> files_kept s' s'' \<Longrightarrow> files_kept s s''"
  by (simp add: files_kept_def)

lemma extends_refl [simp, intro]: "extends w w"
  by (simp add: extends_def)

lemma extends_trans: "extends w w' \<Longrightarrow> extends w' w'' \<Longrightarrow> extends w w''"
  by (auto simp: extends_def intro: files_kept_trans)


section \<open>The scripts keep the files\<close>

lemma mkdirSync_kept: "mkdirSync s p = Inr s' \<Longrightarrow> files_kept s s'"
  by (simp add: files_kept_def mkdirSync_wf mkdirSync_read)

lemma writeFileSync_kept:
  assumes "writeFileSync s p d = Inr s'" and "\<not> existsSync s p"
  shows "files_kept s s'"
  using assms writeFileSync_read [OF assms(1)] readFileSync_exists [of s p]
  by (auto simp: files_kept_def writeFileSync_wf)

lemma write_new_file_name_kept: "files_kept s (fst (write_new_file_name path f a d s))"
proof (cases "mkdirSync s path")
  case (Inr s1)
  let ?p = "call_file path f a (free_index s1 path f a 0)"
  have 1: "files_kept s s1" by (rule mkdirSync_kept [OF Inr])
  show ?thesis
  proof (cases "writeFileSync s1 ?p d")
    case (Inr s2)
    then have "files_kept s1 s2" using free_index_free by (rule writeFileSync_kept)
    then show ?thesis
      using \<open>mkdirSync s path = Inr s1\<close> Inr files_kept_trans [OF 1]
      by (simp add: write_new_file_name_def act_bind_def act_update_def Let_def)
  qed (use \<open>mkdirSync s path = Inr s1\<close> 1 in
      \<open>simp add: write_new_file_name_def act_bind_def act_update_def Let_def\<close>)
qed (simp add: write_new_file_name_def act_bind_def act_update_def)

lemma bind_kept:
  assumes "files_kept s (fst (m s))" and "\<And>x s'. files_kept s' (fst (f x s'))"
  shows "files_kept s (fst (act_bind m f s))"
  using assms act_bind_keeps [of "files_kept s" m s f] files_kept_trans by blast

lemma write_final_calls_kept: "files_kept s (fst (write_final_calls api options addr ms s))"
  by (induction ms arbitrary: s) (auto intro!: bind_kept write_new_file_name_kept)

lemma write_all_calls_kept: "files_kept s (fst (write_all_calls api options ms addrs s))"
  by (induction addrs arbitrary: s)
    (auto simp: write_calls_def intro!: bind_kept write_new_file_name_kept write_final_calls_kept)

lemma bind_extends:
  assumes "extends w (fst (m w))" and "\<And>x w'. extends w' (fst (f x w'))"
  shows "extends w (fst (act_bind m f w))"
  using assms act_bind_keeps [of "extends w" m w f] extends_trans by blast

lemma on_fs_extends: "(\<And>s. files_kept s (fst (f s))) \<Longrightarrow> extends w (fst (on_fs f w))"
  by (simp add: extends_def on_fs_def split: prod.splits) (metis fst_conv)

lemma claim_send_all_extends: "extends w (fst (claim_send_all api account options bs w))"
proof -
  have "\<exists>xs. w_sent (fst (claim_send_all api account options bs w)) = w_sent w @ xs"
    unfolding claim_send_all_def using chunks.log_for_until by blast
  then show ?thesis by (simp add: extends_def claim_send_all_fs)
qed

lemma claim_main_extends: "extends w (fst (claim_main h api w))"
  unfolding claim_main_def
  by (auto intro!: bind_extends claim_send_all_extends on_fs_extends write_all_calls_kept)

lemma approve_send_fs: "w_fs (fst (approve_send isHex api account c w)) = w_fs w"
  by (simp add: approve_send_def approve_lifecycle_def lifecycle_fs)

lemma approvals_fs: "w_fs (fst (for_until_minus1 (approve_send isHex api account) cs w)) = w_fs w"
proof (induction cs arbitrary: w)
  case (Cons c cs)
  obtain w' r where "approve_send isHex api account c w = (w', r)" by fastforce
  moreover from this have "w_fs w' = w_fs w" using approve_send_fs by (metis fst_conv)
  ultimately show ?case using Cons.IH [of w'] by (auto split: sum.splits prod.splits)
qed simp

lemma approvals_extends: "extends w (fst (for_until_minus1 (approve_send isHex api account) cs w))"
  using approvals.log_for_until [of cs isHex api account w] by (auto simp: extends_def approvals_fs)

lemma approve_main_extends: "extends w (fst (approve_main isHex h api w))"
  unfolding approve_main_def by (auto intro!: bind_extends approvals_extends)

lemma claim_step_extends: "claim_step w w' \<Longrightarrow> extends w w'"
  using claim_main_extends approve_main_extends by (elim claim_stepE) (metis fst_conv)+

text \<open>
  Whatever runs of the two claim scripts operators make, in any number and order and with any
  outcome, the tree of files stays well formed, no file is ever changed or removed, so the call files that
  signatories share stay as they were written, and the log of submissions only grows.
\<close>
theorem claim_session_invariant:
  assumes "claim_step\<^sup>*\<^sup>* w w'"
  shows "(fs_wf (w_fs w) \<longrightarrow> fs_wf (w_fs w')) \<and>
    (\<forall>p d. readFileSync (w_fs w) p = Inr d \<longrightarrow> readFileSync (w_fs w') p = Inr d) \<and>
    (\<exists>xs. w_sent w' = w_sent w @ xs)"
proof -
  have "extends w w'" using assms
    by (induction rule: rtranclp_induct) (auto intro: extends_trans claim_step_extends)
  then show ?thesis by (simp add: extends_def files_kept_def)
qed


theorem claim_session_invariant_witness:
  "\<exists>w. claim_main sample_host accepting_api sample_world = (w, Inr ()) \<and> fs_wf (w_fs w) \<and>
     (\<forall>p d. readFileSync sample_fs p = Inr d \<longrightarrow> readFileSync (w_fs w) p = Inr d) \<and>
     (\<exists>xs. w_sent w = w_sent sample_world @ xs)"
proof -
  obtain w where w: "claim_main sample_host accepting_api sample_world = (w, Inr ())"
    using sample_main by blast
  then have "claim_step\<^sup>*\<^sup>* sample_world w" by (blast intro: claim_step.init)
  moreover have "w_fs sample_world = sample_fs" by (simp add: sample_world_def)
  ultimately show ?thesis using claim_session_invariant [of sample_world w] w sample_fs_wf by auto
qed

end
