(* ===== verification/Json.thy ===== *)
theory Json
  imports JsNumber
begin

text \<open>
  \<open>JSON.parse\<close> and \<open>JSON.stringify(value, null, 2)\<close>, as the snapshot scripts use them, and the round
  trip between them. The text of a number is a parameter of the printer; the scripts print
  objects of strings with it. An object is its list of properties in the order of insertion; property
  names that are array indices, which JavaScript moves to the front, do not occur in the scripts.
\<close>


section \<open>Values\<close>

datatype json =
    JNull
  | JBool bool
  | JNum jsnum
  | JStr string
  | JArr "json list"
  | JObj "(string \<times> json) list"

text \<open>Assignment to a property: an old name keeps its place.\<close>

definition obj_set :: "(string \<times> 'a) list \<Rightarrow> string \<Rightarrow> 'a \<Rightarrow> (string \<times> 'a) list" where
  "obj_set ps k v =
     (if k \<in> fst ` set ps then map (\<lambda>(k', v'). if k' = k then (k', v) else (k', v')) ps
      else ps @ [(k, v)])"

lemma obj_set_new [simp]: "k \<notin> fst ` set ps \<Longrightarrow> obj_set ps k v = ps @ [(k, v)]"
  by (simp add: obj_set_def)

lemma obj_set_keys:
  "map fst (obj_set ps k v) = (if k \<in> fst ` set ps then map fst ps else map fst ps @ [k])"
proof -
  have "map fst (map (\<lambda>(k', v'). if k' = k then (k', v) else (k', v')) ps) = map fst ps"
    by (induction ps) auto
  then show ?thesis unfolding obj_set_def by (simp del: map_map)
qed

lemma obj_set_distinct: "distinct (map fst ps) \<Longrightarrow> distinct (map fst (obj_set ps k v))"
  unfolding obj_set_keys by simp

lemma obj_set_lookup: "map_of (obj_set ps k v) = (map_of ps)(k \<mapsto> v)"
proof (cases "k \<in> fst ` set ps")
  case True
  have "map_of (map (\<lambda>(k', v'). if k' = k then (k', v) else (k', v')) ps) x =
      (if x = k then map_option (\<lambda>_. v) (map_of ps k) else map_of ps x)" for x
    by (induction ps) auto
  moreover obtain u where "map_of ps k = Some u"
    using True by (metis map_of_eq_None_iff option.exhaust)
  ultimately show ?thesis using True by (simp add: obj_set_def fun_eq_iff)
next
  case False
  then have "map_of ps k = None" by (simp add: map_of_eq_None_iff)
  then show ?thesis using False by (auto simp: fun_eq_iff map_add_def split: option.splits)
qed


section \<open>Printing\<close>

definition hex_digit :: "nat \<Rightarrow> char" where
  "hex_digit d = (if d < 10 then char_of (48 + d) else char_of (87 + d))"

definition escape_char :: "char \<Rightarrow> string" where
  "escape_char c =
     (let n = (of_char c :: nat) in
      if n = 34 then [CHR 0x5C, CHR 0x22]
      else if n = 92 then [CHR 0x5C, CHR 0x5C]
      else if n = 8 then [CHR 0x5C, CHR ''b'']
      else if n = 9 then [CHR 0x5C, CHR ''t'']
      else if n = 10 then [CHR 0x5C, CHR ''n'']
      else if n = 12 then [CHR 0x5C, CHR ''f'']
      else if n = 13 then [CHR 0x5C, CHR ''r'']
      else if n < 32 then
        [CHR 0x5C, CHR ''u'', CHR ''0'', CHR ''0'', hex_digit (n div 16), hex_digit (n mod 16)]
      else [c])"

definition quote :: "string \<Rightarrow> string" where
  "quote s = CHR 0x22 # concat (map escape_char s) @ [CHR 0x22]"

definition newline :: "nat \<Rightarrow> string" where
  "newline ind = CHR 0x0A # replicate ind (CHR '' '')"

fun stringify :: "(jsnum \<Rightarrow> string) \<Rightarrow> nat \<Rightarrow> json \<Rightarrow> string"
  and stringify_elems :: "(jsnum \<Rightarrow> string) \<Rightarrow> nat \<Rightarrow> json list \<Rightarrow> string"
  and stringify_props :: "(jsnum \<Rightarrow> string) \<Rightarrow> nat \<Rightarrow> (string \<times> json) list \<Rightarrow> string"
where
  "stringify nt ind JNull = ''null''"
| "stringify nt ind (JBool b) = (if b then ''true'' else ''false'')"
| "stringify nt ind (JNum n) = (case n of Fin _ \<Rightarrow> nt n | _ \<Rightarrow> ''null'')"
| "stringify nt ind (JStr s) = quote s"
| "stringify nt ind (JArr xs) =
     (if xs = [] then ''[]''
      else ''['' @ newline (ind + 2) @ stringify_elems nt (ind + 2) xs @ newline ind @ '']'')"
| "stringify nt ind (JObj ps) =
     (if ps = [] then ''{}''
      else ''{'' @ newline (ind + 2) @ stringify_props nt (ind + 2) ps @ newline ind @ ''}'')"
| "stringify_elems nt ind [] = []"
| "stringify_elems nt ind (x # xs) =
     stringify nt ind x @
       (if xs = [] then [] else '','' @ newline ind @ stringify_elems nt ind xs)"
| "stringify_props nt ind [] = []"
| "stringify_props nt ind ((k, x) # ps) =
     quote k @ '': '' @ stringify nt ind x @
       (if ps = [] then [] else '','' @ newline ind @ stringify_props nt ind ps)"


section \<open>Parsing\<close>

datatype token =
    LBrace | RBrace | LBracket | RBracket | Colon | Comma
  | TStr string | TLit json

definition hex_val :: "char \<Rightarrow> nat option" where
  "hex_val c =
     (let n = (of_char c :: nat) in
      if 48 \<le> n \<and> n \<le> 57 then Some (n - 48)
      else if 97 \<le> n \<and> n \<le> 102 then Some (n - 87)
      else if 65 \<le> n \<and> n \<le> 70 then Some (n - 55)
      else None)"

text \<open>A character from four hexadecimal digits; strings of the model have characters up to 255.\<close>

definition unicode_char :: "char \<Rightarrow> char \<Rightarrow> char \<Rightarrow> char \<Rightarrow> char option" where
  "unicode_char a b c d =
     (case (hex_val a, hex_val b, hex_val c, hex_val d) of
        (Some 0, Some 0, Some h, Some l) \<Rightarrow> Some (char_of (16 * h + l))
      | _ \<Rightarrow> None)"

definition unescape_char :: "char \<Rightarrow> char option" where
  "unescape_char c =
     (if c = CHR 0x22 then Some (CHR 0x22)
      else if c = CHR 0x5C then Some (CHR 0x5C)
      else if c = CHR ''/'' then Some (CHR ''/'')
      else if c = CHR ''b'' then Some (CHR 0x08)
      else if c = CHR ''t'' then Some (CHR 0x09)
      else if c = CHR ''n'' then Some (CHR 0x0A)
      else if c = CHR ''f'' then Some (CHR 0x0C)
      else if c = CHR ''r'' then Some (CHR 0x0D)
      else None)"

text \<open>The rest of a string literal after its opening quote: its characters and what follows it.\<close>

function lex_string :: "string \<Rightarrow> (string \<times> string) option" where
  "lex_string [] = None"
| "lex_string (c # cs) =
     (if c = CHR 0x22 then Some ([], cs)
      else if c = CHR 0x5C then
        (case cs of
           e # es \<Rightarrow>
             if e = CHR ''u'' then
               (case es of
                  h1 # h2 # h3 # h4 # rest \<Rightarrow>
                    (case unicode_char h1 h2 h3 h4 of
                       None \<Rightarrow> None
                     | Some x \<Rightarrow> map_option (\<lambda>(s, r). (x # s, r)) (lex_string rest))
                | _ \<Rightarrow> None)
             else
               (case unescape_char e of
                  None \<Rightarrow> None
                | Some x \<Rightarrow> map_option (\<lambda>(s, r). (x # s, r)) (lex_string es))
         | [] \<Rightarrow> None)
      else if (of_char c :: nat) < 32 then None
      else map_option (\<lambda>(s, r). (c # s, r)) (lex_string cs))"
  by pat_completeness auto
termination
  by (relation "measure length") auto

declare lex_string.simps [simp del]

lemma lex_string_shorter: "lex_string cs = Some (s, r) \<Longrightarrow> length r < length cs"
proof (induction cs arbitrary: s rule: length_induct)
  case (1 cs)
  then have IH: "lex_string ys = Some (t, r) \<Longrightarrow> length ys < length cs \<Longrightarrow> length r < length ys" for ys t
    by blast
  obtain c cs' where cs: "cs = c # cs'" using "1.prems" by (cases cs) (auto simp: lex_string.simps)
  show ?case
    using "1.prems" unfolding cs
    by (subst (asm) lex_string.simps)
      (auto simp: cs split: if_splits list.splits option.splits dest!: IH)
qed


definition json_space :: "char \<Rightarrow> bool" where
  "json_space c \<longleftrightarrow> c \<in> {CHR '' '', CHR 0x09, CHR 0x0A, CHR 0x0D}"

definition punctuation :: "char \<Rightarrow> token option" where
  "punctuation c =
     map_of [(CHR ''{'', LBrace), (CHR ''}'', RBrace), (CHR ''['', LBracket), (CHR '']'', RBracket),
             (CHR '':'', Colon), (CHR '','', Comma)] c"

text \<open>The characters of \<open>null\<close>, \<open>true\<close>, \<open>false\<close> and numbers.\<close>

definition word_char :: "char \<Rightarrow> bool" where
  "word_char c \<longleftrightarrow> is_digit c \<or> c \<in> {CHR ''+'', CHR ''-'', CHR ''.'', CHR ''E''} \<or>
     (97 \<le> (of_char c :: nat) \<and> (of_char c :: nat) \<le> 122)"

definition int_part :: "string \<Rightarrow> bool" where
  "int_part s \<longleftrightarrow> s \<noteq> [] \<and> list_all is_digit s \<and> (hd s = CHR ''0'' \<longrightarrow> length s = 1)"

definition exponent_part :: "string \<Rightarrow> bool" where
  "exponent_part s \<longleftrightarrow>
     (case s of
        [] \<Rightarrow> True
      | e # ds \<Rightarrow>
          e \<in> {CHR ''e'', CHR ''E''} \<and>
          (let ds' = (case ds of g # gs \<Rightarrow> if g \<in> {CHR ''+'', CHR ''-''} then gs else ds | [] \<Rightarrow> [])
           in ds' \<noteq> [] \<and> list_all is_digit ds'))"

text \<open>The grammar of JSON numbers; the value is that of the same literal in JavaScript.\<close>

definition json_number :: "string \<Rightarrow> jsnum option" where
  "json_number w =
     (let u = (case w of c # cs \<Rightarrow> if c = CHR ''-'' then cs else w | [] \<Rightarrow> w);
          ip = takeWhile is_digit u;
          r = dropWhile is_digit u;
          fp = (case r of c # cs \<Rightarrow> if c = CHR ''.'' then takeWhile is_digit cs else [] | [] \<Rightarrow> []);
          dot = (case r of c # _ \<Rightarrow> c = CHR ''.'' | [] \<Rightarrow> False);
          ex = (if dot then dropWhile is_digit (tl r) else r)
      in if int_part ip \<and> (dot \<longrightarrow> fp \<noteq> []) \<and> exponent_part ex then Some (StringToNumber w) else None)"

definition literal :: "string \<Rightarrow> json option" where
  "literal w =
     (if w = ''null'' then Some JNull
      else if w = ''true'' then Some (JBool True)
      else if w = ''false'' then Some (JBool False)
      else map_option JNum (json_number w))"

function lex :: "string \<Rightarrow> token list option" where
  "lex [] = Some []"
| "lex (c # cs) =
     (if json_space c then lex cs
      else (case punctuation c of
        Some t \<Rightarrow> map_option (Cons t) (lex cs)
      | None \<Rightarrow>
          if c = CHR 0x22 then
            (case lex_string cs of
               None \<Rightarrow> None
             | Some (s, rest) \<Rightarrow> map_option (Cons (TStr s)) (lex rest))
          else if word_char c then
            (case literal (takeWhile word_char (c # cs)) of
               None \<Rightarrow> None
             | Some v \<Rightarrow> map_option (Cons (TLit v)) (lex (dropWhile word_char cs)))
          else None))"
  by pat_completeness auto
termination
  by (relation "measure length")
    (auto dest: lex_string_shorter simp: less_Suc_eq_le length_dropWhile_le)

declare lex.simps [simp del]

text \<open>The parser over tokens. The fuel is the number of tokens, which every call consumes.\<close>

fun parse_value :: "nat \<Rightarrow> token list \<Rightarrow> (json \<times> token list) option"
  and parse_elems :: "nat \<Rightarrow> token list \<Rightarrow> (json list \<times> token list) option"
  and parse_props ::
    "nat \<Rightarrow> (string \<times> json) list \<Rightarrow> token list \<Rightarrow> ((string \<times> json) list \<times> token list) option"
where
  "parse_value 0 ts = None"
| "parse_value (Suc n) ts =
     (case ts of
        TStr s # r \<Rightarrow> Some (JStr s, r)
      | TLit v # r \<Rightarrow> Some (v, r)
      | LBracket # RBracket # r \<Rightarrow> Some (JArr [], r)
      | LBracket # r \<Rightarrow> map_option (\<lambda>(xs, r'). (JArr xs, r')) (parse_elems n r)
      | LBrace # RBrace # r \<Rightarrow> Some (JObj [], r)
      | LBrace # r \<Rightarrow> map_option (\<lambda>(ps, r'). (JObj ps, r')) (parse_props n [] r)
      | _ \<Rightarrow> None)"
| "parse_elems 0 ts = None"
| "parse_elems (Suc n) ts =
     (case parse_value n ts of
        Some (x, RBracket # r) \<Rightarrow> Some ([x], r)
      | Some (x, Comma # r) \<Rightarrow> map_option (\<lambda>(xs, r'). (x # xs, r')) (parse_elems n r)
      | _ \<Rightarrow> None)"
| "parse_props 0 ps ts = None"
| "parse_props (Suc n) ps ts =
     (case ts of
        TStr k # Colon # r \<Rightarrow>
          (case parse_value n r of
             Some (x, RBrace # r') \<Rightarrow> Some (obj_set ps k x, r')
           | Some (x, Comma # r') \<Rightarrow> parse_props n (obj_set ps k x) r'
           | _ \<Rightarrow> None)
      | _ \<Rightarrow> None)"

definition JSON_parse :: "string \<Rightarrow> json res" where
  "JSON_parse s =
     (case lex s of
        None \<Rightarrow> Inl (SyntaxError ''JSON'')
      | Some ts \<Rightarrow>
          (case parse_value (2 * length ts) ts of
             Some (v, []) \<Rightarrow> Inr v
           | _ \<Rightarrow> Inl (SyntaxError ''JSON'')))"

definition JSON_stringify :: "(jsnum \<Rightarrow> string) \<Rightarrow> json \<Rightarrow> string" where
  "JSON_stringify nt v = stringify nt 0 v"


section \<open>Round trip\<close>

text \<open>
  A value whose numbers have a text that denotes them and whose objects have distinct property names.
\<close>

definition number_ok :: "(jsnum \<Rightarrow> string) \<Rightarrow> jsnum \<Rightarrow> bool" where
  "number_ok nt n \<longleftrightarrow>
     (case n of Fin _ \<Rightarrow> nt n \<noteq> [] \<and> list_all word_char (nt n) \<and> literal (nt n) = Some (JNum n) | _ \<Rightarrow> False)"

fun textual :: "(jsnum \<Rightarrow> string) \<Rightarrow> json \<Rightarrow> bool"
  and textual_elems :: "(jsnum \<Rightarrow> string) \<Rightarrow> json list \<Rightarrow> bool"
  and textual_props :: "(jsnum \<Rightarrow> string) \<Rightarrow> (string \<times> json) list \<Rightarrow> bool"
where
  "textual nt JNull = True"
| "textual nt (JBool b) = True"
| "textual nt (JNum n) = number_ok nt n"
| "textual nt (JStr s) = True"
| "textual nt (JArr xs) = textual_elems nt xs"
| "textual nt (JObj ps) = (distinct (map fst ps) \<and> textual_props nt ps)"
| "textual_elems nt [] = True"
| "textual_elems nt (x # xs) = (textual nt x \<and> textual_elems nt xs)"
| "textual_props nt [] = True"
| "textual_props nt ((k, x) # ps) = (textual nt x \<and> textual_props nt ps)"

fun toks :: "json \<Rightarrow> token list"
  and toks_elems :: "json list \<Rightarrow> token list"
  and toks_props :: "(string \<times> json) list \<Rightarrow> token list"
where
  "toks JNull = [TLit JNull]"
| "toks (JBool b) = [TLit (JBool b)]"
| "toks (JNum n) = [TLit (JNum n)]"
| "toks (JStr s) = [TStr s]"
| "toks (JArr xs) = LBracket # toks_elems xs @ [RBracket]"
| "toks (JObj ps) = LBrace # toks_props ps @ [RBrace]"
| "toks_elems [] = []"
| "toks_elems (x # xs) = toks x @ (if xs = [] then [] else Comma # toks_elems xs)"
| "toks_props [] = []"
| "toks_props ((k, x) # ps) =
     TStr k # Colon # toks x @ (if ps = [] then [] else Comma # toks_props ps)"

lemma toks_first: obtains t ts where "toks v = t # ts" and "t \<noteq> RBracket"
  by (cases v) auto

lemma parse_toks:
  "textual nt v \<Longrightarrow> length (toks v) \<le> n \<Longrightarrow> parse_value n (toks v @ r) = Some (v, r)"
  "textual_elems nt xs \<Longrightarrow> xs \<noteq> [] \<Longrightarrow> length (toks_elems xs) < n \<Longrightarrow>
     parse_elems n (toks_elems xs @ RBracket # r) = Some (xs, r)"
  "textual_props nt ps \<Longrightarrow> ps \<noteq> [] \<Longrightarrow> length (toks_props ps) < n \<Longrightarrow> distinct (map fst (acc @ ps)) \<Longrightarrow>
     parse_props n acc (toks_props ps @ RBrace # r) = Some (acc @ ps, r)"
proof (induction v and xs and ps arbitrary: n r and n r and n acc r
    rule: toks_toks_elems_toks_props.induct)
  case (5 xs)
  show ?case
  proof (cases "xs = []")
    case True
    then show ?thesis using 5 by (cases n) auto
  next
    case False
    obtain m where n: "n = Suc m" using 5 by (cases n) auto
    obtain x xs' where xs: "xs = x # xs'" using False by (cases xs) auto
    obtain t ts where "toks x = t # ts" "t \<noteq> RBracket" by (rule toks_first)
    then obtain ts' where tx: "toks_elems xs = t # ts'" "t \<noteq> RBracket" unfolding xs by simp
    have "parse_elems m (toks_elems xs @ RBracket # r) = Some (xs, r)"
      using 5 False n by simp
    then show ?thesis using tx by (cases t) (simp_all add: n)
  qed
next
  case (6 ps)
  show ?case
  proof (cases "ps = []")
    case True
    then show ?thesis using 6 by (cases n) auto
  next
    case False
    obtain m where n: "n = Suc m" using 6 by (cases n) auto
    obtain k x ps' where ps: "ps = (k, x) # ps'" using False by (cases ps) auto
    have "parse_props m [] (toks_props ps @ RBrace # r) = Some (ps, r)"
      using 6 False n by simp
    then show ?thesis by (simp add: n ps)
  qed
next
  case (8 x xs)
  obtain m where n: "n = Suc m" using 8 by (cases n) auto
  show ?case
  proof (cases "xs = []")
    case True
    then show ?thesis using 8 n by simp
  next
    case False
    then have "parse_value m (toks x @ Comma # toks_elems xs @ RBracket # r) =
        Some (x, Comma # toks_elems xs @ RBracket # r)"
      and "parse_elems m (toks_elems xs @ RBracket # r) = Some (xs, r)"
      using 8 n by simp_all
    then show ?thesis using False by (simp add: n)
  qed
next
  case (10 k x ps)
  obtain m where n: "n = Suc m" using 10 by (cases n) auto
  have k: "k \<notin> fst ` set acc" using 10 by simp
  show ?case
  proof (cases "ps = []")
    case True
    then show ?thesis using 10 n k by simp
  next
    case False
    then have "parse_value m (toks x @ Comma # toks_props ps @ RBrace # r) =
        Some (x, Comma # toks_props ps @ RBrace # r)"
      and "parse_props m (acc @ [(k, x)]) (toks_props ps @ RBrace # r) = Some ((acc @ [(k, x)]) @ ps, r)"
      using 10 n by simp_all
    then show ?thesis using False k by (simp add: n)
  qed
qed (auto simp: neq_Nil_conv gr0_conv_Suc Suc_le_eq elim!: less_natE)


lemma hex_val_hex_digit: "d < 16 \<Longrightarrow> hex_val (hex_digit d) = Some d"
  by (cases "d < 10") (simp_all add: hex_val_def hex_digit_def Let_def)

lemma lex_string_escape:
  "lex_string (escape_char c @ cs) = map_option (\<lambda>(s, r). (c # s, r)) (lex_string cs)"
proof -
  let ?n = "of_char c :: nat"
  have named: "c = d" if "?n = of_char d" for d using that by simp
  consider "?n \<in> {34, 92, 8, 9, 10, 12, 13}" | "?n < 32" "?n \<notin> {8, 9, 10, 12, 13}"
    | "32 \<le> ?n" "?n \<noteq> 34" "?n \<noteq> 92" by fastforce
  then show ?thesis
  proof cases
    case 1
    then have "c \<in> {CHR 0x22, CHR 0x5C, CHR 0x08, CHR 0x09, CHR 0x0A, CHR 0x0C, CHR 0x0D}"
      using named [of "CHR 0x22"] named [of "CHR 0x5C"] named [of "CHR 0x08"]
        named [of "CHR 0x09"] named [of "CHR 0x0A"] named [of "CHR 0x0C"] named [of "CHR 0x0D"]
      by auto
    then show ?thesis
      by (auto simp: escape_char_def lex_string.simps(2) unescape_char_def)
  next
    case 2
    have "unicode_char (CHR ''0'') (CHR ''0'') (hex_digit (?n div 16)) (hex_digit (?n mod 16)) = Some c"
      using 2 by (simp add: unicode_char_def hex_val_hex_digit) (simp add: hex_val_def)
    then show ?thesis using 2 by (simp add: escape_char_def Let_def lex_string.simps(2))
  next
    case 3
    then have "c \<noteq> CHR 0x22" "c \<noteq> CHR 0x5C" by auto
    then show ?thesis using 3 by (simp add: escape_char_def lex_string.simps(2))
  qed
qed

lemma lex_string_quote:
  "lex_string (concat (map escape_char s) @ CHR 0x22 # r) = Some (s, r)"
  by (induction s) (simp_all add: lex_string_escape lex_string.simps(2))

lemma lex_space: "json_space c \<Longrightarrow> lex (c # r) = lex r"
  by (simp add: lex.simps)

lemma lex_newline: "lex (newline ind @ r) = lex r"
proof -
  have "lex (replicate ind (CHR '' '') @ r) = lex r"
    by (induction ind) (simp_all add: lex_space json_space_def)
  then show ?thesis by (simp add: newline_def lex_space json_space_def)
qed

lemma lex_quote: "lex (quote s @ r) = map_option (Cons (TStr s)) (lex r)"
  by (simp add: quote_def lex.simps(2) json_space_def punctuation_def lex_string_quote)

lemma lex_punctuation:
  "punctuation c = Some t \<Longrightarrow> lex (c # r) = map_option (Cons t) (lex r)"
  by (auto simp: lex.simps(2) punctuation_def json_space_def split: if_splits)

lemmas lex_marks =
  lex_punctuation [of "CHR ''{''" LBrace] lex_punctuation [of "CHR ''}''" RBrace]
  lex_punctuation [of "CHR ''[''" LBracket] lex_punctuation [of "CHR '']''" RBracket]
  lex_punctuation [of "CHR '':''" Colon] lex_punctuation [of "CHR '',''" Comma]

definition delimited :: "string \<Rightarrow> bool" where
  "delimited r \<longleftrightarrow> (case r of [] \<Rightarrow> True | c # _ \<Rightarrow> \<not> word_char c)"

lemma lex_literal:
  assumes "delimited r" and "list_all word_char w" and "w \<noteq> []" and "literal w = Some v"
    and "\<not> json_space (hd w)" and "punctuation (hd w) = None" and "hd w \<noteq> CHR 0x22"
  shows "lex (w @ r) = map_option (Cons (TLit v)) (lex r)"
proof -
  obtain c cs where w: "w = c # cs" using assms(3) by (cases w) auto
  have "takeWhile word_char (u @ r) = u" "dropWhile word_char (u @ r) = r"
    if "list_all word_char u" for u
    using that assms(1) by (auto simp: delimited_def list_all_iff takeWhile_append dropWhile_append
        split: list.splits)
  from this(1) [of w] this(2) [of cs] show ?thesis
    using assms(2,4-7) by (simp add: w lex.simps(2))
qed

lemma delimited_newline: "delimited (newline ind @ r)"
  by (simp add: delimited_def newline_def word_char_def is_digit_def)

lemma delimited_comma: "delimited (CHR '','' # r)"
  by (simp add: delimited_def word_char_def is_digit_def)

lemma append_Nil_id: "append [] = id"
  by (simp add: fun_eq_iff)

lemma lex_stringify:
  "textual nt v \<Longrightarrow> delimited r \<Longrightarrow> lex (stringify nt ind v @ r) = map_option (append (toks v)) (lex r)"
  "textual_elems nt xs \<Longrightarrow> delimited r \<Longrightarrow>
     lex (stringify_elems nt ind xs @ r) = map_option (append (toks_elems xs)) (lex r)"
  "textual_props nt ps \<Longrightarrow> delimited r \<Longrightarrow>
     lex (stringify_props nt ind ps @ r) = map_option (append (toks_props ps)) (lex r)"
proof (induction nt ind v and nt ind xs and nt ind ps arbitrary: r and r and r
    rule: stringify_stringify_elems_stringify_props.induct)
  case (1 nt ind)
  then show ?case
    using lex_literal [of r "''null''" JNull]
    by (simp add: word_char_def is_digit_def literal_def json_space_def punctuation_def)
next
  case (2 nt ind b)
  then show ?case
    using lex_literal [of r "''true''" "JBool True"] lex_literal [of r "''false''" "JBool False"]
    by (simp add: word_char_def is_digit_def literal_def json_space_def punctuation_def)
next
  case (4 nt ind s)
  then show ?case by (simp add: lex_quote)
next
  case (5 nt ind xs)
  then show ?case
    by (simp add: lex_marks punctuation_def lex_newline delimited_newline option.map_comp comp_def)
next
  case (6 nt ind ps)
  then show ?case
    by (simp add: lex_marks punctuation_def lex_newline delimited_newline option.map_comp comp_def)
next
  case (8 nt ind x xs)
  then show ?case
    by (simp add: lex_marks punctuation_def lex_newline delimited_comma option.map_comp comp_def)
next
  case (10 nt ind k x ps)
  then show ?case
    by (simp add: lex_marks punctuation_def lex_newline lex_quote delimited_comma lex_space
        json_space_def option.map_comp comp_def)
next
  case (3 nt ind n)
  then obtain q where n: "n = Fin q" by (auto simp: number_ok_def split: jsnum.splits)
  then obtain c cs where w: "nt n = c # cs" "word_char c"
    using 3 by (cases "nt n") (auto simp: number_ok_def)
  then have "\<not> json_space c" "punctuation c = None" "c \<noteq> CHR 0x22"
    by (auto simp: word_char_def json_space_def punctuation_def is_digit_def)
  then show ?case
    using lex_literal [of r "nt n" "JNum n"] 3 w n by (simp add: number_ok_def)
qed (simp_all add: append_Nil_id option.map_id)

lemma JSON_roundtrip_aux:
  assumes "textual nt v"
  shows "JSON_parse (JSON_stringify nt v) = Inr v"
proof -
  have "lex (stringify nt 0 v @ []) = map_option (append (toks v)) (lex [])"
    using assms by (intro lex_stringify) (simp_all add: delimited_def)
  then have "lex (stringify nt 0 v) = Some (toks v)" by (simp add: lex.simps)
  moreover have "parse_value (2 * length (toks v)) (toks v @ []) = Some (v, [])"
    using assms by (intro parse_toks) simp_all
  ultimately show ?thesis by (simp add: JSON_parse_def JSON_stringify_def)
qed

end
