(* ===== verification/SnapshotBalances.thy ===== *)
theory SnapshotBalances
  imports NodeFs Json "HOL-Library.Multiset"
begin

text \<open>
  \<open>scripts/snapshot-restore-balance/snapshot-balances.js\<close>: \<open>takeSnapshot\<close> writes the total balance of
  every account to a file, \<open>restoreBalances\<close> pays the balances of such a file out of a custody account,
  and \<open>main\<close> parses the command line. The chain is the record \<open>balance_api\<close>; the decoding of
  addresses and the key ring are the record \<open>keys\<close>. A snapshot file is an object of strings and a filter
  file an array of strings; files of another shape are outside the model and read as a \<open>TypeError\<close>.
\<close>


section \<open>Constants\<close>

definition SB_WS_ENDPOINT :: string where
  "SB_WS_ENDPOINT = ''wss://testnet-rpc.zkverify.io''"

definition SB_WS_ENDPOINTS :: "(string \<times> string) list" where
  "SB_WS_ENDPOINTS = [(''local'', ''ws://localhost:9944''), (''testnet'', SB_WS_ENDPOINT)]"

definition SB_SNAPSHOT_PATH :: string where
  "SB_SNAPSHOT_PATH = ''snapshot_balances.json''"

definition SB_FILTERING_PATH :: string where
  "SB_FILTERING_PATH = ''filter_account.json''"

definition SB_SUDO :: string where
  "SB_SUDO = []"

definition SB_CAP :: jsnum where
  "SB_CAP = Fin (10 ^ 21)"

definition SB_EXISTENTIAL_DEPOSIT :: jsnum where
  "SB_EXISTENTIAL_DEPOSIT = Fin (10 ^ 16)"

definition MODULE_ACCOUNT_ENDS :: string where
  "MODULE_ACCOUNT_ENDS = replicate 40 (CHR ''0'')"

definition FILTER_MODULE_ACCOUNT :: bool where
  "FILTER_MODULE_ACCOUNT = True"


section \<open>World\<close>

datatype transfer =
    TransferAllowDeath string int
  | SudoAs string transfer

record submission_attempt =
  sa_signer :: string
  sa_nonce :: nat
  sa_transfer :: transfer
  sa_accepted :: bool

record balance_world =
  bw_fs :: fs
  bw_sent :: "submission_attempt list"

record balance_api =
  ba_accounts :: "(string \<times> nat \<times> nat) list"
  ba_nonce :: "string \<Rightarrow> nat"
  ba_free :: "string \<Rightarrow> nat"
  ba_accepts :: "submission_attempt list \<Rightarrow> string \<Rightarrow> nat \<Rightarrow> transfer \<Rightarrow> bool"

record keys =
  k_decode :: "string \<Rightarrow> string res"
  k_fromUri :: "string \<Rightarrow> string res"

definition on_bfs :: "(fs, 'a) act \<Rightarrow> (balance_world, 'a) act" where
  "on_bfs f w = (case f (bw_fs w) of (s, r) \<Rightarrow> (w\<lparr>bw_fs := s\<rparr>, r))"


section \<open>Snapshot\<close>

definition slice_last32 :: "string \<Rightarrow> string" where
  "slice_last32 account = drop (length account - 32) account"

definition ss58ToPublicKey :: "keys \<Rightarrow> string \<Rightarrow> string res" where
  "ss58ToPublicKey ks ss58Address = k_decode ks ss58Address"

fun collect_balances ::
  "keys \<Rightarrow> (string \<times> nat \<times> nat) list \<Rightarrow> (string \<times> string) list \<Rightarrow> (string \<times> string) list res"
where
  "collect_balances ks [] balances = Inr balances"
| "collect_balances ks ((account, free, reserved) # accounts) balances =
     res_bind (ss58ToPublicKey ks (slice_last32 account)) (\<lambda>key.
     res_bind (BigInt (show_nat free)) (\<lambda>freeBalance.
     res_bind (BigInt (show_nat reserved)) (\<lambda>reservedBalance.
       collect_balances ks accounts (obj_set balances key (show_int (freeBalance + reservedBalance))))))"

text \<open>
  \<open>Array.sort\<close> with a comparison function, as insertion before the first element that compares greater. The
  comparison of the script answers \<open>-1\<close> for equal balances, for which the language leaves the order open;
  the balances are decimal texts of the script itself, on which \<open>BigInt\<close> does not fail.
\<close>

fun insert_cmp :: "('a \<Rightarrow> 'a \<Rightarrow> int) \<Rightarrow> 'a \<Rightarrow> 'a list \<Rightarrow> 'a list" where
  "insert_cmp cmp x [] = [x]"
| "insert_cmp cmp x (y # ys) = (if cmp x y < 0 then x # y # ys else y # insert_cmp cmp x ys)"

definition js_sort_cmp :: "('a \<Rightarrow> 'a \<Rightarrow> int) \<Rightarrow> 'a list \<Rightarrow> 'a list" where
  "js_sort_cmp cmp xs = foldl (\<lambda>acc x. insert_cmp cmp x acc) [] xs"

definition compare_balances :: "string \<times> string \<Rightarrow> string \<times> string \<Rightarrow> int" where
  "compare_balances a b =
     (case (BigInt (snd b), BigInt (snd a)) of
        (Inr m, Inr n) \<Rightarrow> if m < n then 1 else -1
      | _ \<Rightarrow> -1)"

definition sorted_balances :: "(string \<times> string) list \<Rightarrow> (string \<times> string) list" where
  "sorted_balances balances =
     foldl (\<lambda>acc (key, balance). obj_set acc key balance) [] (js_sort_cmp compare_balances balances)"

definition takeSnapshot :: "balance_api \<Rightarrow> keys \<Rightarrow> string \<Rightarrow> (fs, unit) act" where
  "takeSnapshot api ks snapshotBalancesFile =
     act_bind (act_lift (collect_balances ks (ba_accounts api) [])) (\<lambda>balances.
       act_update (\<lambda>s. writeFileSync s snapshotBalancesFile
         (JSON_stringify (\<lambda>_. []) (JObj (map (\<lambda>(k, b). (k, JStr b)) (sorted_balances balances))))))"


section \<open>Restore\<close>

definition filterBalance :: "string \<Rightarrow> string \<Rightarrow> string list \<Rightarrow> bool" where
  "filterBalance account balance blockList =
     (if num_lt (StringToNumber balance) SB_EXISTENTIAL_DEPOSIT then True
      else if account \<in> set blockList then True
      else if FILTER_MODULE_ACCOUNT \<and> endsWith account MODULE_ACCOUNT_ENDS then True
      else False)"

fun string_props :: "(string \<times> json) list \<Rightarrow> (string \<times> string) list res" where
  "string_props [] = Inr []"
| "string_props ((k, JStr b) # ps) = res_bind (string_props ps) (\<lambda>bs. Inr ((k, b) # bs))"
| "string_props (_ # ps) = Inl (TypeError ''snapshot'')"

fun string_elems :: "json list \<Rightarrow> string list res" where
  "string_elems [] = Inr []"
| "string_elems (JStr b # xs) = res_bind (string_elems xs) (\<lambda>bs. Inr (b # bs))"
| "string_elems (_ # xs) = Inl (TypeError ''filter'')"

definition read_snapshot :: "fs \<Rightarrow> string \<Rightarrow> (string \<times> string) list res" where
  "read_snapshot s file =
     res_bind (readFileSync s file) (\<lambda>d. res_bind (JSON_parse d) (\<lambda>v.
       case v of JObj ps \<Rightarrow> string_props ps | _ \<Rightarrow> Inl (TypeError ''snapshot'')))"

definition read_filter :: "fs \<Rightarrow> string \<Rightarrow> string list res" where
  "read_filter s file =
     res_bind (readFileSync s file) (\<lambda>d. res_bind (JSON_parse d) (\<lambda>v.
       case v of JArr xs \<Rightarrow> string_elems xs | _ \<Rightarrow> Inl (TypeError ''filter'')))"

text \<open>\<open>BigInt(capValue)\<close>, of the default number or of a string of the command line.\<close>

fun BigInt_val :: "jsval \<Rightarrow> int res" where
  "BigInt_val Undefined = Inl (TypeError ''BigInt'')"
| "BigInt_val (Str s) = BigInt s"
| "BigInt_val (Num (Fin q)) =
     (if of_int \<lfloor>q\<rfloor> = q then Inr \<lfloor>q\<rfloor> else Inl (ErrorMsg ''RangeError''))"
| "BigInt_val (Num _) = Inl (ErrorMsg ''RangeError'')"

definition cap_balance :: "int \<Rightarrow> int \<Rightarrow> int" where
  "cap_balance capValue balance = (if 0 < capValue \<and> capValue < balance then capValue else balance)"

fun new_balances ::
  "string list \<Rightarrow> int \<Rightarrow> (string \<times> string) list \<Rightarrow> (string \<times> int) list \<Rightarrow> (string \<times> int) list res"
where
  "new_balances blockList cap [] acc = Inr acc"
| "new_balances blockList cap ((account, balance) # bs) acc =
     (if filterBalance account balance blockList then new_balances blockList cap bs acc
      else res_bind (BigInt balance) (\<lambda>b.
        new_balances blockList cap bs (obj_set acc account (cap_balance cap b))))"

definition transfer_call :: "string \<Rightarrow> string \<Rightarrow> string \<Rightarrow> int \<Rightarrow> transfer" where
  "transfer_call custodyAddress executor account balance =
     (let transfer = TransferAllowDeath account balance
      in if custodyAddress \<noteq> executor then SudoAs custodyAddress transfer else transfer)"

fun send_transfers ::
  "balance_api \<Rightarrow> string \<Rightarrow> string \<Rightarrow> nat \<Rightarrow> (string \<times> int) list \<Rightarrow> submission_attempt list \<Rightarrow>
   submission_attempt list"
where
  "send_transfers api custody executor nonce [] sent = sent"
| "send_transfers api custody executor nonce ((account, balance) # bs) sent =
     (let transfer = transfer_call custody executor account balance;
          ok = ba_accepts api sent executor nonce transfer
      in send_transfers api custody executor (if ok then nonce + 1 else nonce) bs
           (sent @ [\<lparr>sa_signer = executor, sa_nonce = nonce, sa_transfer = transfer, sa_accepted = ok\<rparr>]))"

definition restoreBalances ::
  "balance_api \<Rightarrow> string \<Rightarrow> string \<Rightarrow> string \<Rightarrow> jsval \<Rightarrow> string \<Rightarrow> (balance_world, unit) act"
where
  "restoreBalances api snapshotBalancesFile custodyAddress filterFile capValue executor w =
     act_bind (act_lift (read_snapshot (bw_fs w) snapshotBalancesFile)) (\<lambda>balances.
     act_bind (act_lift (read_filter (bw_fs w) filterFile)) (\<lambda>blockList.
     act_bind (act_lift (BigInt_val capValue)) (\<lambda>cap.
     act_bind (act_lift (new_balances blockList cap balances [])) (\<lambda>newBalances w.
       if int (ba_free api custodyAddress) < sum_list (map snd newBalances)
       then (w, Inl (Exit 1))
       else (w\<lparr>bw_sent := send_transfers api custodyAddress executor (ba_nonce api executor)
                newBalances (bw_sent w)\<rparr>, Inr ()))))) w"



section \<open>Main\<close>

record balance_options =
  bo_wsEndpoint :: string
  bo_filter :: string
  bo_snapshotFile :: string
  bo_capValue :: jsval
  bo_sudo :: string

definition default_balance_options :: balance_options where
  "default_balance_options =
     \<lparr>bo_wsEndpoint = SB_WS_ENDPOINT, bo_filter = SB_FILTERING_PATH,
      bo_snapshotFile = SB_SNAPSHOT_PATH, bo_capValue = Num SB_CAP, bo_sudo = SB_SUDO\<rparr>"

text \<open>
  The loop stops before the last argument, which is never taken for an option: it is the value of the option
  before it, or a positional argument.
\<close>

function balance_parse_loop ::
  "string list \<Rightarrow> balance_options \<Rightarrow> string list \<Rightarrow> (balance_options \<times> string list) res"
where
  "balance_parse_loop [] opts newArgs = Inr (opts, newArgs)"
| "balance_parse_loop [a] opts newArgs = Inr (opts, newArgs @ [a])"
| "balance_parse_loop (a # v # rest) opts newArgs =
     (if a = ''-e'' \<or> a = ''--end-point'' then
        balance_parse_loop rest (opts\<lparr>bo_wsEndpoint :=
          (case map_of SB_WS_ENDPOINTS v of Some addr \<Rightarrow> addr | None \<Rightarrow> v)\<rparr>) newArgs
      else if a = ''-f'' \<or> a = ''--filter'' then
        balance_parse_loop rest (opts\<lparr>bo_filter := v\<rparr>) newArgs
      else if a = ''-s'' \<or> a = ''--snapshot'' then
        balance_parse_loop rest (opts\<lparr>bo_snapshotFile := v\<rparr>) newArgs
      else if a = ''-c'' \<or> a = ''--cap'' then
        balance_parse_loop rest (opts\<lparr>bo_capValue := Str v\<rparr>) newArgs
      else if a = ''-S'' \<or> a = ''--sudo'' then
        balance_parse_loop rest (opts\<lparr>bo_sudo := v\<rparr>) newArgs
      else if a = ''-h'' \<or> a = ''--help'' then Inl (Exit 1)
      else balance_parse_loop (v # rest) opts (newArgs @ [a]))"
  by pat_completeness auto
termination
  by (relation "measure (\<lambda>(args, _, _). length args)") simp_all

declare balance_parse_loop.simps(3) [simp del]

definition balance_usage :: "('w, 'a) act" where
  "balance_usage = act_fail (Exit 1)"

definition balance_command ::
  "balance_api \<Rightarrow> keys \<Rightarrow> balance_options \<Rightarrow> string \<Rightarrow> string list \<Rightarrow> (balance_world, unit) act"
where
  "balance_command api ks opts command args =
     (if command = ''snapshot'' then on_bfs (takeSnapshot api ks (bo_snapshotFile opts))
      else if command = ''restore'' then
        (case args of
           [custodyStr] \<Rightarrow>
             if bo_sudo opts \<noteq> [] then
               act_bind (act_lift (k_fromUri ks (bo_sudo opts))) (\<lambda>executor.
                 restoreBalances api (bo_snapshotFile opts) custodyStr (bo_filter opts)
                   (bo_capValue opts) executor)
             else
               act_bind (act_lift (k_fromUri ks custodyStr)) (\<lambda>executor.
                 restoreBalances api (bo_snapshotFile opts) executor (bo_filter opts)
                   (bo_capValue opts) executor)
         | _ \<Rightarrow> balance_usage)
      else balance_usage)"

definition balance_main :: "balance_api \<Rightarrow> keys \<Rightarrow> string list \<Rightarrow> (balance_world, unit) act" where
  "balance_main api ks argv =
     act_bind (act_lift (balance_parse_loop argv default_balance_options [])) (\<lambda>(opts, newArgs).
       (case newArgs of
          [] \<Rightarrow> balance_usage
        | c # args \<Rightarrow>
            act_bind (balance_command api ks opts (toLowerCase c) args) (\<lambda>_. act_fail (Exit 0))))"


section \<open>What a snapshot holds\<close>

lemma insert_cmp_mset: "mset (insert_cmp cmp x ys) = add_mset x (mset ys)"
  by (induction ys) auto

lemma js_sort_cmp_mset: "mset (js_sort_cmp cmp xs) = mset xs"
proof -
  have "mset (foldl (\<lambda>acc x. insert_cmp cmp x acc) acc xs) = mset acc + mset xs" for acc
    by (induction xs arbitrary: acc) (simp_all add: insert_cmp_mset)
  then show ?thesis by (simp add: js_sort_cmp_def)
qed

lemma insert_cmp_sorted:
  fixes f :: "'a \<Rightarrow> nat"
  assumes "sorted (map f ys)" and "\<And>y. y \<in> set ys \<Longrightarrow> cmp x y < 0 \<longleftrightarrow> f x \<le> f y"
  shows "sorted (map f (insert_cmp cmp x ys))"
  using assms
proof (induction ys)
  case (Cons y ys)
  have "set (insert_cmp cmp x ys) = insert x (set ys)"
    using insert_cmp_mset [of cmp x ys] by (metis set_mset_add_mset_insert set_mset_mset)
  then show ?case using Cons by auto
qed simp

lemma js_sort_cmp_sorted:
  fixes f :: "'a \<Rightarrow> nat"
  assumes "\<And>x y. x \<in> A \<Longrightarrow> y \<in> A \<Longrightarrow> cmp x y < 0 \<longleftrightarrow> f x \<le> f y" and "set xs \<subseteq> A"
  shows "sorted (map f (js_sort_cmp cmp xs))"
proof -
  have "sorted (map f (foldl (\<lambda>acc x. insert_cmp cmp x acc) acc xs))"
    if "sorted (map f acc)" "set acc \<subseteq> A" for acc
    using assms(2) that
  proof (induction xs arbitrary: acc)
    case (Cons x xs)
    have "set (insert_cmp cmp x acc) = insert x (set acc)"
      using insert_cmp_mset [of cmp x acc] by (metis set_mset_add_mset_insert set_mset_mset)
    moreover have "sorted (map f (insert_cmp cmp x acc))"
      by (rule insert_cmp_sorted) (use Cons.prems assms(1) in auto)
    ultimately show ?case using Cons by simp
  qed simp
  then show ?thesis by (simp add: js_sort_cmp_def)
qed

lemma foldl_obj_set:
  "distinct (map fst (acc @ ps)) \<Longrightarrow> foldl (\<lambda>acc (k, v). obj_set acc k v) acc ps = acc @ ps"
proof (induction ps arbitrary: acc)
  case (Cons p ps)
  then show ?case by (cases p) simp
qed simp

text \<open>The total balance of an account record, under its public key.\<close>

definition total_entry :: "string \<times> nat \<times> nat \<Rightarrow> string \<Rightarrow> string \<times> string" where
  "total_entry a k = (k, show_nat (fst (snd a) + snd (snd a)))"

definition decoded :: "keys \<Rightarrow> (string \<times> nat \<times> nat) list \<Rightarrow> string list \<Rightarrow> bool" where
  "decoded ks accounts pubs \<longleftrightarrow>
     list_all2 (\<lambda>a k. k_decode ks (slice_last32 (fst a)) = Inr k) accounts pubs"

lemma collect_balances_eq:
  assumes "decoded ks accounts pubs" and "distinct (map fst acc @ pubs)"
  shows "collect_balances ks accounts acc = Inr (acc @ map2 total_entry accounts pubs)"
  using assms(1) [unfolded decoded_def] assms(2)
proof (induction accounts pubs arbitrary: acc rule: list_all2_induct)
  case (Cons a as k pubs)
  obtain acct f r where a: "a = (acct, f, r)" by (cases a)
  have "collect_balances ks as (acc @ [(k, show_nat (f + r))]) =
      Inr ((acc @ [(k, show_nat (f + r))]) @ map2 total_entry as pubs)"
    by (rule Cons.IH) (use Cons.prems in auto)
  moreover have "show_int (int f + int r) = show_nat (f + r)"
    by (simp add: show_int_def nat_add_distrib)
  ultimately show ?case
    using Cons by (simp add: a ss58ToPublicKey_def total_entry_def)
qed simp

lemma compare_balances_decimal:
  "compare_balances (k, show_nat m) (k', show_nat n) < 0 \<longleftrightarrow> m \<le> n"
  by (simp add: compare_balances_def)

lemma string_props_JStr: "string_props (map (\<lambda>(k, b). (k, JStr b)) ps) = Inr ps"
  by (induction ps) auto

lemma textual_JStr: "textual_props nt (map (\<lambda>(k, b). (k, JStr b)) ps)"
  by (induction ps) auto


lemma sorted_balances_props:
  assumes "distinct (map fst bs)" and "\<And>e. e \<in> set bs \<Longrightarrow> \<exists>n. snd e = show_nat n"
  shows "mset (sorted_balances bs) = mset bs"
    and "distinct (map fst (sorted_balances bs))"
    and "sorted (map (\<lambda>e. digits_val (snd e)) (sorted_balances bs))"
proof -
  let ?s = "js_sort_cmp compare_balances bs"
  have m: "mset ?s = mset bs" by (rule js_sort_cmp_mset)
  then have "mset (map fst ?s) = mset (map fst bs)" by simp
  then have d: "distinct (map fst ?s)" using assms(1) mset_eq_imp_distinct_iff by blast
  then have eq: "sorted_balances bs = ?s"
    unfolding sorted_balances_def using foldl_obj_set [of "[]" ?s] by simp
  have "compare_balances x y < 0 \<longleftrightarrow> digits_val (snd x) \<le> digits_val (snd y)"
    if "x \<in> set bs" "y \<in> set bs" for x y
    using assms(2) [OF that(1)] assms(2) [OF that(2)]
    by (cases x, cases y) (auto simp: compare_balances_decimal)
  then have "sorted (map (\<lambda>e. digits_val (snd e)) ?s)"
    by (rule js_sort_cmp_sorted [OF _ subset_refl])
  then show "mset (sorted_balances bs) = mset bs" "distinct (map fst (sorted_balances bs))"
    "sorted (map (\<lambda>e. digits_val (snd e)) (sorted_balances bs))"
    using m d eq by simp_all
qed

lemma takeSnapshot_file:
  assumes "decoded ks (ba_accounts api) pubs" and "distinct pubs"
    and "takeSnapshot api ks file s = (s', Inr ())"
  defines "bs \<equiv> map2 total_entry (ba_accounts api) pubs"
  shows "read_snapshot s' file = Inr (sorted_balances bs)"
    and "distinct (map fst bs)" and "\<And>e. e \<in> set bs \<Longrightarrow> \<exists>n. snd e = show_nat n"
proof -
  have len: "length (ba_accounts api) = length pubs"
    using assms(1) by (simp add: decoded_def list_all2_lengthD)
  have keys: "map fst bs = pubs"
  proof -
    have "fst \<circ> (\<lambda>(a, k). total_entry a k) = snd" by (auto simp: fun_eq_iff total_entry_def)
    then show ?thesis using len by (simp add: bs_def)
  qed
  show d: "distinct (map fst bs)" using keys assms(2) by simp
  show dec: "\<And>e. e \<in> set bs \<Longrightarrow> \<exists>n. snd e = show_nat n"
    by (auto simp: bs_def total_entry_def)
  let ?v = "JObj (map (\<lambda>(k, b). (k, JStr b)) (sorted_balances bs))"
  have "collect_balances ks (ba_accounts api) [] = Inr bs"
    using collect_balances_eq [OF assms(1), of "[]"] assms(2) by (simp add: bs_def)
  then have "writeFileSync s file (JSON_stringify (\<lambda>_. []) ?v) = Inr s'"
    using assms(3) by (auto simp: takeSnapshot_def act_bind_def act_update_def split: sum.splits)
  moreover have "textual (\<lambda>_. []) ?v"
    using sorted_balances_props(2) [OF d dec]
    by (simp add: textual_JStr comp_def case_prod_beta)
  ultimately show "read_snapshot s' file = Inr (sorted_balances bs)"
    by (simp add: read_snapshot_def writeFileSync_read JSON_roundtrip_aux string_props_JStr)
qed

text \<open>
  C17: A snapshot that has been taken reads back as what the chain holds: one entry per account, under
  its public key, with the sum of its free and reserved balance in decimal, in ascending order
  of the balances.
\<close>
theorem takeSnapshot_correct:
  assumes "decoded ks (ba_accounts api) pubs" and "distinct pubs"
    and "takeSnapshot api ks file s = (s', Inr ())"
  shows "\<exists>entries. read_snapshot s' file = Inr entries \<and>
    mset entries = mset (map2 total_entry (ba_accounts api) pubs) \<and>
    sorted (map (\<lambda>e. digits_val (snd e)) entries)"
  using takeSnapshot_file [OF assms] sorted_balances_props by blast


section \<open>Which balances are restored\<close>

lemma round_below:
  assumes "n < 9999999999999999"
  shows "round_half_even (of_nat n / 2) < (5000000000000000 :: int)"
proof -
  have "round_half_even (of_int (int n) / 2) < 5000000000000000"
    unfolding round_half_even_half using assms by (auto; presburger)
  then show ?thesis by simp
qed

lemma low_balance_iff:
  "num_lt (StringToNumber (show_nat n)) SB_EXISTENTIAL_DEPOSIT \<longleftrightarrow> n < 9999999999999999"
proof -
  have v: "StringToNumber (show_nat n) = double_of_rat (of_nat n)"
    using StringToNumber_digits [of "show_nat n"] by simp
  consider "n < 2 ^ 53" | "2 ^ 53 \<le> n" "n < 2 ^ 54" | "2 ^ 54 \<le> n" by linarith
  then show ?thesis
  proof cases
    case 1
    then show ?thesis unfolding v double_of_nat_small [OF 1] SB_EXISTENTIAL_DEPOSIT_def
      by simp
  next
    case 2
    have "round_half_even (of_nat n / 2) < (5000000000000000 :: int) \<longleftrightarrow> n < 9999999999999999"
    proof
      assume less: "round_half_even (of_nat n / 2) < (5000000000000000 :: int)"
      show "n < 9999999999999999"
      proof (rule ccontr)
        assume "\<not> n < 9999999999999999"
        then have "n = 9999999999999999 \<or> 10000000000000000 \<le> n" by linarith
        then show False
        proof
          assume "n = 9999999999999999"
          then show False using less round_half_even_half [of 9999999999999999] by simp
        next
          assume "10000000000000000 \<le> n"
          then have "of_int 5000000000000000 \<le> (of_nat n / 2 :: rat)" by simp
          then show False using less round_half_even_ge [of 5000000000000000] by fastforce
        qed
      qed
    qed (rule round_below)
    moreover have "(2 * of_int k < (10000000000000000 :: rat)) \<longleftrightarrow> k < 5000000000000000" for k
      by linarith
    ultimately show ?thesis
      unfolding v double_of_nat_odd_range [OF 2] SB_EXISTENTIAL_DEPOSIT_def by simp
  next
    case 3
    then have "2 powi 54 \<le> (of_nat n :: rat)"
      by (metis of_nat_le_iff of_nat_numeral of_nat_power power_int_numeral)
    from double_of_rat_ge [OF this] show ?thesis
      unfolding v using 3 by (auto simp: SB_EXISTENTIAL_DEPOSIT_def)
  qed
qed


lemma filterBalance_iff_aux:
  "filterBalance account (show_nat n) blockList \<longleftrightarrow>
     n < 9999999999999999 \<or> account \<in> set blockList \<or> (\<exists>p. account = p @ replicate 40 (CHR ''0''))"
  by (simp add: filterBalance_def low_balance_iff FILTER_MODULE_ACCOUNT_def endsWith_iff
      MODULE_ACCOUNT_ENDS_def)

text \<open>
  C18: On a balance in decimal, \<open>filterBalance\<close> skips exactly the balances below \<open>9999999999999999\<close>, the
  accounts of the block list and the module accounts. The existential deposit is \<open>10 ^ 16\<close>: the
  comparison converts the text to a double, which rounds the balance one below it up to the deposit, so that
  this balance is not skipped.
\<close>
theorem filterBalance_iff:
  "filterBalance account (show_nat n) blockList \<longleftrightarrow>
     n < 9999999999999999 \<or> account \<in> set blockList \<or> (\<exists>p. account = p @ replicate 40 (CHR ''0''))"
  by (rule filterBalance_iff_aux)


section \<open>What a restore pays\<close>

lemma send_transfers_log:
  "\<exists>sas. send_transfers api custody executor nonce bs sent = sent @ sas \<and>
     map sa_transfer sas = map (\<lambda>(a, b). transfer_call custody executor a b) bs \<and>
     nonces_follow sa_nonce sa_accepted nonce sas \<and> list_all (\<lambda>x. sa_signer x = executor) sas"
proof (induction bs arbitrary: nonce sent)
  case Nil
  then show ?case by simp
next
  case (Cons e bs)
  obtain a b where e: "e = (a, b)" by (cases e)
  define ok where "ok = ba_accepts api sent executor nonce (transfer_call custody executor a b)"
  define x where "x = \<lparr>sa_signer = executor, sa_nonce = nonce,
    sa_transfer = transfer_call custody executor a b, sa_accepted = ok\<rparr>"
  obtain sas where "send_transfers api custody executor (if ok then nonce + 1 else nonce) bs
        (sent @ [x]) = (sent @ [x]) @ sas"
    "map sa_transfer sas = map (\<lambda>(a, b). transfer_call custody executor a b) bs"
    "nonces_follow sa_nonce sa_accepted (if ok then nonce + 1 else nonce) sas" "list_all (\<lambda>x. sa_signer x = executor) sas"
    using Cons.IH by blast
  moreover have "nonces_follow sa_nonce sa_accepted nonce (x # sas)"
    using calculation(3) by (simp add: x_def)
  ultimately show ?case
    by (intro exI [of _ "x # sas"]) (simp add: e Let_def x_def ok_def)
qed

text \<open>
  A restore either submits nothing or its payments are covered: the sum of all payments is
  at most the free balance of the custody account. Then it submits one transfer per new balance, in their order,
  signed by the executor. The first carries the nonce of the account, and the nonce grows by one with each
  transfer that the node accepts, so that a refused transfer leaves no gap.
\<close>
theorem restoreBalances_covered:
  "bw_sent (fst (restoreBalances api file custody filterFile capValue executor w)) = bw_sent w \<or>
   (\<exists>balances blockList cap newBalances sas.
      read_snapshot (bw_fs w) file = Inr balances \<and> read_filter (bw_fs w) filterFile = Inr blockList \<and>
      BigInt_val capValue = Inr cap \<and> new_balances blockList cap balances [] = Inr newBalances \<and>
      sum_list (map snd newBalances) \<le> int (ba_free api custody) \<and>
      bw_sent (fst (restoreBalances api file custody filterFile capValue executor w)) =
        bw_sent w @ sas \<and>
      map sa_transfer sas = map (\<lambda>(a, b). transfer_call custody executor a b) newBalances \<and>
      nonces_follow sa_nonce sa_accepted (ba_nonce api executor) sas \<and> list_all (\<lambda>x. sa_signer x = executor) sas)"
proof -
  have "\<exists>sas. send_transfers api custody executor (ba_nonce api executor) newBalances (bw_sent w) =
      bw_sent w @ sas \<and>
    map sa_transfer sas = map (\<lambda>(a, b). transfer_call custody executor a b) newBalances \<and>
    nonces_follow sa_nonce sa_accepted (ba_nonce api executor) sas \<and> list_all (\<lambda>x. sa_signer x = executor) sas"
    for newBalances by (rule send_transfers_log)
  then show ?thesis
    unfolding restoreBalances_def act_bind_def
    by (auto simp: not_less split: sum.splits if_splits)
qed





section \<open>A run\<close>

text \<open>Two accounts, one of them below the existential deposit, and an empty block list.\<close>

definition sample_balance_api :: balance_api where
  "sample_balance_api =
     \<lparr>ba_accounts = [(''0xa'', 1, 2), (''0xb'', 10 ^ 17, 5)], ba_nonce = (\<lambda>_. 3),
      ba_free = (\<lambda>_. 10 ^ 18), ba_accepts = (\<lambda>_ _ _ _. True)\<rparr>"

definition sample_keys :: keys where
  "sample_keys = \<lparr>k_decode = Inr, k_fromUri = Inr\<rparr>"

definition sample_snapshot_fs :: fs where
  "sample_snapshot_fs = \<lparr>fs_files = [(''f.json'', ''[]'')], fs_dirs = [''.'']\<rparr>"

lemma sample_decoded: "decoded sample_keys (ba_accounts sample_balance_api) [''0xa'', ''0xb'']"
  by (simp add: decoded_def sample_keys_def sample_balance_api_def slice_last32_def)

lemma sample_snapshot:
  obtains s where "takeSnapshot sample_balance_api sample_keys ''snap.json'' sample_snapshot_fs = (s, Inr ())"
    and "read_filter s ''f.json'' = Inr []"
proof -
  obtain d s where s: "writeFileSync sample_snapshot_fs ''snap.json'' d = Inr s"
    and t: "takeSnapshot sample_balance_api sample_keys ''snap.json'' sample_snapshot_fs = (s, Inr ())"
    using collect_balances_eq [OF sample_decoded, of "[]"]
    by (simp add: takeSnapshot_def act_bind_def act_update_def writeFileSync_def parent_dir_def
        sample_snapshot_fs_def)
  have "readFileSync s ''f.json'' = Inr ''[]''"
    by (simp add: writeFileSync_read [OF s]) (simp add: readFileSync_def sample_snapshot_fs_def)
  moreover have "JSON_parse ''[]'' = Inr (JArr [])"
    using JSON_roundtrip_aux [of "\<lambda>_. []" "JArr []"] by (simp add: JSON_stringify_def)
  ultimately show ?thesis using that t by (simp add: read_filter_def)
qed

theorem takeSnapshot_correct_witness:
  "\<exists>s entries. takeSnapshot sample_balance_api sample_keys ''snap.json'' sample_snapshot_fs = (s, Inr ()) \<and>
    read_snapshot s ''snap.json'' = Inr entries \<and>
    mset entries = {# (''0xa'', show_nat 3), (''0xb'', show_nat 100000000000000005) #} \<and>
    sorted (map (\<lambda>e. digits_val (snd e)) entries)"
proof -
  obtain s where s:
    "takeSnapshot sample_balance_api sample_keys ''snap.json'' sample_snapshot_fs = (s, Inr ())"
    by (rule sample_snapshot)
  from takeSnapshot_correct [OF sample_decoded _ s] s show ?thesis
    by (auto simp: sample_balance_api_def total_entry_def)
qed


end
