(* ===== verification/SnapshotVks.thy ===== *)
theory SnapshotVks
  imports NodeFs Json
begin

text \<open>
  \<open>scripts/snapshot-restore-vks/snapshot-vks.js\<close>: \<open>takeSnapshot\<close> writes the registered verification keys
  of the verifier pallets with their owners and usage to a file, \<open>restore\<close> registers the keys of such a
  file for their owners, and \<open>main\<close> parses the command line. The chain is the record \<open>vk_api\<close>; the
  statistics service, the parser of dates, the text of numbers and the key ring are the record \<open>vk_host\<close>.
  The console output is not modelled.
\<close>


section \<open>Constants\<close>

definition VK_PALLETS :: "string list" where
  "VK_PALLETS = [''fflonk'', ''groth16'', ''plonky2'', ''risc0'', ''sp1'', ''ultrahonk'', ''ultraplonk'']"

definition VK_WS_ENDPOINT :: string where
  "VK_WS_ENDPOINT = ''wss://zkverify-volta-rpc.zkverify.io''"

definition VK_WS_ENDPOINTS :: "(string \<times> string) list" where
  "VK_WS_ENDPOINTS = [(''local'', ''ws://localhost:9944''), (''testnet'', VK_WS_ENDPOINT)]"

definition VK_SNAPSHOT_PATH :: string where
  "VK_SNAPSHOT_PATH = ''snapshot_vks.json''"

definition VK_GRAPHQL :: string where
  "VK_GRAPHQL = ''https://zkpvnetwork.squids.live/zkverify@v8/api/graphql''"

text \<open>The property of \<open>api.query\<close> and \<open>api.tx\<close> that \<open>pallet\<close> selects, and the name used by the statistics.\<close>

definition vk_pallet :: "string \<Rightarrow> string option" where
  "vk_pallet p =
     map_of [(''fflonk'', ''settlementFFlonkPallet''), (''groth16'', ''settlementGroth16Pallet''),
             (''plonky2'', ''settlementPlonky2Pallet''), (''risc0'', ''settlementRisc0Pallet''),
             (''sp1'', ''settlementSp1Pallet''), (''ultrahonk'', ''settlementUltrahonkPallet''),
             (''ultraplonk'', ''settlementUltraplonkPallet'')] p"

definition palletToGraphQl :: "string \<Rightarrow> string option" where
  "palletToGraphQl p =
     map_of [(''fflonk'', ''SettlementFFlonkPallet''), (''groth16'', ''SettlementGroth16Pallet''),
             (''plonky2'', ''SettlementPlonky2Pallet''), (''risc0'', ''SettlementRisc0Pallet''),
             (''sp1'', ''SettlementSp1Pallet''), (''ultrahonk'', ''SettlementUltrahonkPallet''),
             (''ultraplonk'', ''SettlementUltraplonkPallet'')] p"


section \<open>World\<close>

record register_attempt =
  ra_signer :: string
  ra_nonce :: nat
  ra_owner :: string
  ra_pallet :: string
  ra_vk :: "json option"
  ra_accepted :: bool

record vk_world =
  vw_fs :: fs
  vw_sent :: "register_attempt list"

text \<open>
  The storage of a pallet: the keys with the text of their data, and the tickets with owner, hash and deposit.
\<close>

record vk_storage =
  vs_vks :: "(string \<times> string) list"
  vs_tickets :: "((string \<times> string) \<times> nat) list"

record vk_api =
  va_query :: "string \<Rightarrow> vk_storage option"
  va_tx :: "string \<Rightarrow> bool"
  va_nonce :: "string \<Rightarrow> nat"
  va_accepts :: "register_attempt list \<Rightarrow> string \<Rightarrow> nat \<Rightarrow> string \<Rightarrow> string \<Rightarrow> json option \<Rightarrow> bool"

text \<open>The answer of the statistics service: \<open>totalCount\<close> and the timestamps of \<open>edges\<close>.\<close>

record gql_answer =
  ga_totalCount :: nat
  ga_timestamps :: "string list"

record vk_host =
  vh_request :: "string \<Rightarrow> string option \<Rightarrow> string \<Rightarrow> gql_answer res"
  vh_date :: "string \<Rightarrow> jsnum"
  vh_numberText :: "jsnum \<Rightarrow> string"
  vh_fromUri :: "string \<Rightarrow> string res"


section \<open>Snapshot\<close>

record vk_stat =
  st_total :: nat
  st_lastUsed :: "string option"

record vk_entry =
  ve_vk :: "json option"
  ve_owners :: "string list"
  ve_bonded :: jsnum
  ve_stat :: "vk_stat option"

definition getVkStats :: "vk_host \<Rightarrow> string \<Rightarrow> string option \<Rightarrow> string \<Rightarrow> vk_stat res" where
  "getVkStats h gqlEndpoint p vkey =
     res_bind (vh_request h gqlEndpoint p vkey) (\<lambda>out.
       if 0 < ga_totalCount out then
         (case ga_timestamps out of
            [] \<Rightarrow> Inl (TypeError ''Cannot read properties of undefined'')
          | t # _ \<Rightarrow> Inr \<lparr>st_total = ga_totalCount out, st_lastUsed = Some t\<rparr>)
       else Inr \<lparr>st_total = ga_totalCount out, st_lastUsed = None\<rparr>)"

text \<open>\<open>const \{vk\} = value\<close>.\<close>

definition destructure_vk :: "json \<Rightarrow> json option res" where
  "destructure_vk v =
     (case v of
        JNull \<Rightarrow> Inl (TypeError ''Cannot destructure property'')
      | JObj ps \<Rightarrow> Inr (map_of ps ''vk'')
      | _ \<Rightarrow> Inr None)"

fun add_vks ::
  "vk_host \<Rightarrow> string option \<Rightarrow> string \<Rightarrow> (string \<times> string) list \<Rightarrow> (string \<times> vk_entry) list \<Rightarrow>
   (string \<times> vk_entry) list res"
where
  "add_vks h gql p [] vks = Inr vks"
| "add_vks h gql p ((hash, data) # vkeys) vks =
     res_bind (JSON_parse data) (\<lambda>v.
     res_bind (destructure_vk v) (\<lambda>vk.
     res_bind (case gql of
                 None \<Rightarrow> Inr None
               | Some g \<Rightarrow> res_bind (getVkStats h g (palletToGraphQl p) hash) (\<lambda>st. Inr (Some st)))
       (\<lambda>stat. add_vks h gql p vkeys
          (obj_set vks hash \<lparr>ve_vk = vk, ve_owners = [], ve_bonded = Fin 0, ve_stat = stat\<rparr>))))"

definition bond :: "nat \<Rightarrow> jsnum" where
  "bond value = num_div_const (double_of_rat (of_nat value)) (10 ^ 18)"

fun add_tickets ::
  "((string \<times> string) \<times> nat) list \<Rightarrow> (string \<times> vk_entry) list \<Rightarrow> (string \<times> vk_entry) list res"
where
  "add_tickets [] vks = Inr vks"
| "add_tickets (((owner, hash), value) # tickets) vks =
     (case map_of vks hash of
        None \<Rightarrow> Inl (TypeError ''Cannot read properties of undefined'')
      | Some e \<Rightarrow>
          (let e1 = (if ve_owners e = [] then e\<lparr>ve_bonded := bond value\<rparr> else e)
           in add_tickets tickets (obj_set vks hash (e1\<lparr>ve_owners := ve_owners e1 @ [owner]\<rparr>))))"

definition collect_pallet ::
  "vk_api \<Rightarrow> vk_host \<Rightarrow> string option \<Rightarrow> string \<Rightarrow> (string \<times> vk_entry) list res"
where
  "collect_pallet api h gql p =
     (case Option.bind (vk_pallet p) (va_query api) of
        None \<Rightarrow> Inl (TypeError ''Cannot read properties of undefined'')
      | Some st \<Rightarrow> res_bind (add_vks h gql p (vs_vks st) []) (add_tickets (vs_tickets st)))"

fun collect_pallets ::
  "vk_api \<Rightarrow> vk_host \<Rightarrow> string option \<Rightarrow> string list \<Rightarrow> (string \<times> (string \<times> vk_entry) list) list \<Rightarrow>
   (string \<times> (string \<times> vk_entry) list) list res"
where
  "collect_pallets api h gql [] vks = Inr vks"
| "collect_pallets api h gql (p # ps) vks =
     res_bind (collect_pallet api h gql p) (\<lambda>es. collect_pallets api h gql ps (obj_set vks p es))"

definition stat_json :: "vk_stat option \<Rightarrow> json" where
  "stat_json stat =
     (case stat of
        None \<Rightarrow> JNull
      | Some st \<Rightarrow> JObj [(''total'', JNum (num_of_nat (st_total st))),
                        (''lastUsed'', case st_lastUsed st of None \<Rightarrow> JNull | Some t \<Rightarrow> JStr t)])"

text \<open>\<open>JSON.stringify\<close> leaves out a property that is \<open>undefined\<close>.\<close>

definition entry_json :: "vk_entry \<Rightarrow> json" where
  "entry_json e =
     JObj ((case ve_vk e of None \<Rightarrow> [] | Some v \<Rightarrow> [(''vk'', v)]) @
           [(''owners'', JArr (map JStr (ve_owners e))), (''bonded'', JNum (ve_bonded e)),
            (''stat'', stat_json (ve_stat e))])"

definition vks_json :: "(string \<times> (string \<times> vk_entry) list) list \<Rightarrow> json" where
  "vks_json vks =
     JObj (map (\<lambda>(p, es). (p, JObj (map (\<lambda>(hash, e). (hash, entry_json e)) es))) vks)"

definition takeVkSnapshot ::
  "vk_api \<Rightarrow> vk_host \<Rightarrow> string list \<Rightarrow> string \<Rightarrow> string option \<Rightarrow> (fs, unit) act"
where
  "takeVkSnapshot api h pallets snapshotVksFile gqlEndpoint =
     act_bind (act_lift (collect_pallets api h gqlEndpoint pallets [])) (\<lambda>vks.
       act_update (\<lambda>s. writeFileSync s snapshotVksFile
         (JSON_stringify (vh_numberText h) (vks_json vks))))"



section \<open>Restore\<close>

text \<open>
  What \<open>restore\<close> reads of an entry: \<open>rv_stat\<close> is \<open>None\<close> for \<open>null\<close>, and otherwise \<open>lastUsed\<close>. An entry with
  owners that are not an array of strings, or with another kind of statistics, is outside the model and reads as
  a \<open>TypeError\<close>.
\<close>

record rv_entry =
  rv_vk :: "json option"
  rv_owners :: "string list"
  rv_stat :: "string option option"

fun json_strings :: "json list \<Rightarrow> string list res" where
  "json_strings [] = Inr []"
| "json_strings (JStr b # xs) = res_bind (json_strings xs) (\<lambda>bs. Inr (b # bs))"
| "json_strings (_ # xs) = Inl (TypeError ''snapshot'')"

definition stat_of_json :: "json option \<Rightarrow> string option option res" where
  "stat_of_json v =
     (case v of
        Some JNull \<Rightarrow> Inr None
      | Some (JObj ps) \<Rightarrow>
          (case map_of ps ''lastUsed'' of
             Some JNull \<Rightarrow> Inr (Some None)
           | Some (JStr t) \<Rightarrow> Inr (Some (Some t))
           | _ \<Rightarrow> Inl (TypeError ''snapshot''))
      | _ \<Rightarrow> Inl (TypeError ''snapshot''))"

definition entry_of_json :: "json \<Rightarrow> rv_entry res" where
  "entry_of_json v =
     (case v of
        JObj ps \<Rightarrow>
          (case map_of ps ''owners'' of
             Some (JArr os) \<Rightarrow>
               res_bind (json_strings os) (\<lambda>owners.
               res_bind (stat_of_json (map_of ps ''stat'')) (\<lambda>stat.
                 Inr \<lparr>rv_vk = map_of ps ''vk'', rv_owners = owners, rv_stat = stat\<rparr>))
           | _ \<Rightarrow> Inl (TypeError ''snapshot''))
      | _ \<Rightarrow> Inl (TypeError ''snapshot''))"

fun props_res :: "(json \<Rightarrow> 'a res) \<Rightarrow> (string \<times> json) list \<Rightarrow> (string \<times> 'a) list res" where
  "props_res f [] = Inr []"
| "props_res f ((k, v) # ps) =
     res_bind (f v) (\<lambda>x. res_bind (props_res f ps) (\<lambda>xs. Inr ((k, x) # xs)))"

definition object_res :: "(json \<Rightarrow> 'a res) \<Rightarrow> json \<Rightarrow> (string \<times> 'a) list res" where
  "object_res f v = (case v of JObj ps \<Rightarrow> props_res f ps | _ \<Rightarrow> Inl (TypeError ''snapshot''))"

definition read_vks :: "fs \<Rightarrow> string \<Rightarrow> (string \<times> (string \<times> rv_entry) list) list res" where
  "read_vks s file =
     res_bind (readFileSync s file) (\<lambda>d.
       res_bind (JSON_parse d) (object_res (object_res entry_of_json)))"

definition skip_vk :: "vk_host \<Rightarrow> jsnum option \<Rightarrow> rv_entry \<Rightarrow> bool res" where
  "skip_vk h usedAfter e =
     (case usedAfter of
        None \<Rightarrow> Inr False
      | Some d \<Rightarrow>
          (case rv_stat e of
             None \<Rightarrow> Inl (TypeError ''Cannot read properties of null'')
           | Some None \<Rightarrow> Inr True
           | Some (Some t) \<Rightarrow> Inr (num_lt (vh_date h t) d)))"

definition vk_owners :: "string option \<Rightarrow> rv_entry \<Rightarrow> string list" where
  "vk_owners replace e = (case replace of None \<Rightarrow> rv_owners e | Some r \<Rightarrow> [r])"

text \<open>The state of the loops: the next nonce and the submissions so far.\<close>

record register_state =
  rs_nonce :: nat
  rs_sent :: "register_attempt list"

fun register_owners ::
  "vk_api \<Rightarrow> string \<Rightarrow> string \<Rightarrow> json option \<Rightarrow> string list \<Rightarrow> (register_state, unit) act"
where
  "register_owners api sudo p vk [] = act_return ()"
| "register_owners api sudo p vk (owner # owners) =
     (case vk_pallet p of
        None \<Rightarrow> act_fail (TypeError ''Cannot read properties of undefined'')
      | Some pl \<Rightarrow>
          if \<not> va_tx api pl then act_fail (TypeError ''Cannot read properties of undefined'')
          else (\<lambda>st.
            (let ok = va_accepts api (rs_sent st) sudo (rs_nonce st) owner pl vk;
                 a = \<lparr>ra_signer = sudo, ra_nonce = rs_nonce st, ra_owner = owner, ra_pallet = pl,
                      ra_vk = vk, ra_accepted = ok\<rparr>
             in register_owners api sudo p vk owners
                  \<lparr>rs_nonce = (if ok then rs_nonce st + 1 else rs_nonce st),
                   rs_sent = rs_sent st @ [a]\<rparr>)))"

fun restore_vks ::
  "vk_api \<Rightarrow> vk_host \<Rightarrow> string \<Rightarrow> string option \<Rightarrow> jsnum option \<Rightarrow> string \<Rightarrow>
   (string \<times> rv_entry) list \<Rightarrow> (register_state, unit) act"
where
  "restore_vks api h sudo replace usedAfter p [] = act_return ()"
| "restore_vks api h sudo replace usedAfter p ((hash, e) # es) =
     act_bind (act_lift (skip_vk h usedAfter e)) (\<lambda>skip.
     act_bind (if skip then act_return ()
               else register_owners api sudo p (rv_vk e) (vk_owners replace e))
       (\<lambda>_. restore_vks api h sudo replace usedAfter p es))"

fun restore_pallets ::
  "vk_api \<Rightarrow> vk_host \<Rightarrow> string \<Rightarrow> string option \<Rightarrow> jsnum option \<Rightarrow>
   (string \<times> (string \<times> rv_entry) list) list \<Rightarrow> (register_state, unit) act"
where
  "restore_pallets api h sudo replace usedAfter [] = act_return ()"
| "restore_pallets api h sudo replace usedAfter ((p, es) # vksMap) =
     act_bind (restore_vks api h sudo replace usedAfter p es)
       (\<lambda>_. restore_pallets api h sudo replace usedAfter vksMap)"

definition restore ::
  "vk_api \<Rightarrow> vk_host \<Rightarrow> string \<Rightarrow> string \<Rightarrow> string option \<Rightarrow> jsnum option \<Rightarrow> (vk_world, unit) act"
where
  "restore api h snapshotVksFile sudo replace usedAfter w =
     (case read_vks (vw_fs w) snapshotVksFile of
        Inl e \<Rightarrow> (w, Inl e)
      | Inr vksMap \<Rightarrow>
          (case restore_pallets api h sudo replace usedAfter vksMap
                  \<lparr>rs_nonce = va_nonce api sudo, rs_sent = vw_sent w\<rparr> of
             (st, r) \<Rightarrow> (w\<lparr>vw_sent := rs_sent st\<rparr>, r)))"


section \<open>Main\<close>

record vk_options =
  vo_wsEndpoint :: string
  vo_snapshotFile :: string
  vo_pallets :: "string list"
  vo_gqlEndpoint :: "string option"
  vo_replace :: "string option"
  vo_usedAfter :: "jsnum option"

definition default_vk_options :: vk_options where
  "default_vk_options =
     \<lparr>vo_wsEndpoint = VK_WS_ENDPOINT, vo_snapshotFile = VK_SNAPSHOT_PATH, vo_pallets = VK_PALLETS,
      vo_gqlEndpoint = Some VK_GRAPHQL, vo_replace = None, vo_usedAfter = None\<rparr>"

text \<open>
  As in the other snapshot script the last argument is never taken for an option. The option \<open>-u\<close> is tested twice; the
  first test decides.
\<close>

function vk_parse_loop ::
  "vk_host \<Rightarrow> string list \<Rightarrow> vk_options \<Rightarrow> string list \<Rightarrow> (vk_options \<times> string list) res"
where
  "vk_parse_loop h [] opts newArgs = Inr (opts, newArgs)"
| "vk_parse_loop h [a] opts newArgs = Inr (opts, newArgs @ [a])"
| "vk_parse_loop h (a # v # rest) opts newArgs =
     (if a = ''-e'' \<or> a = ''--end-point'' then
        vk_parse_loop h rest (opts\<lparr>vo_wsEndpoint :=
          (case map_of VK_WS_ENDPOINTS v of Some addr \<Rightarrow> addr | None \<Rightarrow> v)\<rparr>) newArgs
      else if a = ''-s'' \<or> a = ''--snapshot'' then
        vk_parse_loop h rest (opts\<lparr>vo_snapshotFile := v\<rparr>) newArgs
      else if a = ''-p'' \<or> a = ''--pallets'' then
        vk_parse_loop h rest (opts\<lparr>vo_pallets := map js_trim (split_on (CHR '','') v)\<rparr>) newArgs
      else if a = ''-q'' \<or> a = ''--gql'' then
        vk_parse_loop h rest (opts\<lparr>vo_gqlEndpoint := (if v = ''null'' then None else Some v)\<rparr>) newArgs
      else if a = ''-r'' \<or> a = ''--replace'' then
        vk_parse_loop h rest (opts\<lparr>vo_replace := Some v\<rparr>) newArgs
      else if a = ''-u'' \<or> a = ''--used'' then
        vk_parse_loop h (v # rest) (opts\<lparr>vo_usedAfter := Some (Fin 0)\<rparr>) newArgs
      else if a = ''-u'' \<or> a = ''--used-after'' then
        vk_parse_loop h rest (opts\<lparr>vo_usedAfter := Some (vh_date h v)\<rparr>) newArgs
      else if a = ''-h'' \<or> a = ''--help'' then Inl (Exit 1)
      else vk_parse_loop h (v # rest) opts (newArgs @ [a]))"
  by pat_completeness auto
termination
  by (relation "measure (\<lambda>(_, args, _, _). length args)") simp_all

declare vk_parse_loop.simps(3) [simp del]

definition on_vfs :: "(fs, 'a) act \<Rightarrow> (vk_world, 'a) act" where
  "on_vfs f w = (case f (vw_fs w) of (s, r) \<Rightarrow> (w\<lparr>vw_fs := s\<rparr>, r))"

definition vk_usage :: "('w, 'a) act" where
  "vk_usage = act_fail (Exit 1)"

definition vk_command ::
  "vk_api \<Rightarrow> vk_host \<Rightarrow> vk_options \<Rightarrow> string \<Rightarrow> string list \<Rightarrow> (vk_world, unit) act"
where
  "vk_command api h opts command args =
     (if command = ''snapshot'' then
        on_vfs (takeVkSnapshot api h (vo_pallets opts) (vo_snapshotFile opts) (vo_gqlEndpoint opts))
      else if command = ''restore'' then
        (case args of
           [uri] \<Rightarrow>
             act_bind (act_lift (vh_fromUri h uri)) (\<lambda>sudo.
               restore api h (vo_snapshotFile opts) sudo (vo_replace opts) (vo_usedAfter opts))
         | _ \<Rightarrow> vk_usage)
      else vk_usage)"

definition vk_main :: "vk_api \<Rightarrow> vk_host \<Rightarrow> string list \<Rightarrow> (vk_world, unit) act" where
  "vk_main api h argv =
     act_bind (act_lift (vk_parse_loop h argv default_vk_options [])) (\<lambda>(opts, newArgs).
       (case newArgs of
          [] \<Rightarrow> vk_usage
        | c # args \<Rightarrow> act_bind (vk_command api h opts (toLowerCase c) args) (\<lambda>_. act_fail (Exit 0))))"


section \<open>What a snapshot holds\<close>

definition tickets_of :: "((string \<times> string) \<times> nat) list \<Rightarrow> string \<Rightarrow> ((string \<times> string) \<times> nat) list" where
  "tickets_of tickets hash = filter (\<lambda>t. snd (fst t) = hash) tickets"

definition owners_of :: "((string \<times> string) \<times> nat) list \<Rightarrow> string \<Rightarrow> string list" where
  "owners_of tickets hash = map (\<lambda>t. fst (fst t)) (tickets_of tickets hash)"

definition bond_of :: "((string \<times> string) \<times> nat) list \<Rightarrow> string \<Rightarrow> jsnum \<Rightarrow> jsnum" where
  "bond_of tickets hash d = (case tickets_of tickets hash of [] \<Rightarrow> d | t # _ \<Rightarrow> bond (snd t))"

lemma obj_set_old_keys: "map_of ps k \<noteq> None \<Longrightarrow> map fst (obj_set ps k v) = map fst ps"
  by (simp add: obj_set_keys map_of_eq_None_iff)

lemma add_tickets_keys: "add_tickets ts es = Inr es' \<Longrightarrow> map fst es' = map fst es"
  by (induction ts es rule: add_tickets.induct)
    (auto simp: obj_set_old_keys Let_def split: option.splits)

text \<open>The effect of the tickets on one entry: its owners grow, the first owner sets the bond.\<close>

lemma add_tickets_entry:
  assumes "add_tickets ts es = Inr es'" and "map_of es hash = Some e"
  shows "map_of es' hash = Some (e\<lparr>ve_owners := ve_owners e @ owners_of ts hash,
    ve_bonded := (if ve_owners e = [] then bond_of ts hash (ve_bonded e) else ve_bonded e)\<rparr>)"
  using assms
proof (induction ts es arbitrary: e rule: add_tickets.induct)
  case (1 vks)
  then show ?case by (simp add: owners_of_def bond_of_def tickets_of_def)
next
  case (2 owner h val ts es)
  obtain e0 where e0: "map_of es h = Some e0"
    using 2(2) by (auto split: option.splits)
  define e1 where "e1 = (if ve_owners e0 = [] then e0\<lparr>ve_bonded := bond val\<rparr> else e0)"
  define e2 where "e2 = e1\<lparr>ve_owners := ve_owners e1 @ [owner]\<rparr>"
  have rec: "add_tickets ts (obj_set es h e2) = Inr es'"
    using 2(2) e0 by (simp add: e1_def e2_def Let_def)
  have IH: "map_of (obj_set es h e2) hash = Some x \<Longrightarrow>
      map_of es' hash = Some (x\<lparr>ve_owners := ve_owners x @ owners_of ts hash,
        ve_bonded := (if ve_owners x = [] then bond_of ts hash (ve_bonded x) else ve_bonded x)\<rparr>)" for x
    using 2(1) [OF e0 e1_def] rec by (simp add: e2_def)
  show ?case
  proof (cases "h = hash")
    case True
    then have "e0 = e" using e0 2(3) by simp
    then show ?thesis
      using IH [of e2] True
      by (simp add: obj_set_lookup e1_def e2_def owners_of_def bond_of_def tickets_of_def)
  next
    case False
    then show ?thesis
      using IH [of e] 2(3)
      by (simp add: obj_set_lookup owners_of_def bond_of_def tickets_of_def)
  qed
qed

definition unowned :: "(string \<times> vk_entry) list \<Rightarrow> bool" where
  "unowned es \<longleftrightarrow> list_all (\<lambda>(k, e). ve_owners e = [] \<and> ve_bonded e = Fin 0) es"

lemma add_vks_fresh:
  assumes "add_vks h gql p vkeys es = Inr es'" and "distinct (map fst es @ map fst vkeys)"
    and "unowned es"
  shows "map fst es' = map fst es @ map fst vkeys \<and> unowned es'"
  using assms
proof (induction vkeys arbitrary: es)
  case (Cons v vkeys)
  obtain hash data where v: "v = (hash, data)" by (cases v)
  obtain vk stat where rec: "add_vks h gql p vkeys
      (es @ [(hash, \<lparr>ve_vk = vk, ve_owners = [], ve_bonded = Fin 0, ve_stat = stat\<rparr>)]) = Inr es'"
    using Cons.prems by (auto simp: v res_bind_eq_Inr)
  have "map fst es' = map fst (es @ [(hash, \<lparr>ve_vk = vk, ve_owners = [], ve_bonded = Fin 0, ve_stat = stat\<rparr>)])
      @ map fst vkeys \<and> unowned es'"
    by (rule Cons.IH [OF rec]) (use Cons.prems in \<open>auto simp: v unowned_def\<close>)
  then show ?case by (simp add: v)
qed simp

text \<open>
  The snapshot of a pallet has exactly the registered keys, and for each of them all owners of
  its tickets, in the order of the tickets, with the deposit of the first ticket as its bond, or
  zero when there is no ticket.
\<close>
theorem collect_pallet_owners:
  assumes "collect_pallet api h gql p = Inr es" and "vk_pallet p = Some pl"
    and "va_query api pl = Some st" and "distinct (map fst (vs_vks st))"
  shows "map fst es = map fst (vs_vks st) \<and>
    (\<forall>(hash, e) \<in> set es. ve_owners e = owners_of (vs_tickets st) hash \<and>
       ve_bonded e = bond_of (vs_tickets st) hash (Fin 0))"
proof -
  obtain es0 where es0: "add_vks h gql p (vs_vks st) [] = Inr es0"
    and t: "add_tickets (vs_tickets st) es0 = Inr es"
    using assms(1-3) by (auto simp: collect_pallet_def res_bind_eq_Inr)
  have keys0: "map fst es0 = map fst (vs_vks st)" and fresh: "unowned es0"
    using add_vks_fresh [OF es0] assms(4) by (simp_all add: unowned_def)
  have keys: "map fst es = map fst es0" using add_tickets_keys [OF t] .
  have "ve_owners e = owners_of (vs_tickets st) hash \<and>
      ve_bonded e = bond_of (vs_tickets st) hash (Fin 0)" if e: "(hash, e) \<in> set es" for hash e
  proof -
    have d: "distinct (map fst es)" "distinct (map fst es0)" using keys keys0 assms(4) by simp_all
    have "hash \<in> set (map fst es0)" using e keys by (metis fst_conv image_eqI list.set_map)
    then obtain e0 where e0: "map_of es0 hash = Some e0" by (auto simp: map_of_eq_Some_iff [OF d(2)])
    then have "ve_owners e0 = [] \<and> ve_bonded e0 = Fin 0"
      using fresh by (auto simp: unowned_def list_all_iff dest: map_of_SomeD)
    then show ?thesis
      using add_tickets_entry [OF t e0] e by (auto simp: map_of_eq_Some_iff [OF d(1), symmetric])
  qed
  then show ?thesis using keys keys0 by auto
qed


section \<open>From a snapshot to a restore\<close>

definition restorable :: "vk_entry \<Rightarrow> rv_entry" where
  "restorable e =
     \<lparr>rv_vk = ve_vk e, rv_owners = ve_owners e, rv_stat = map_option st_lastUsed (ve_stat e)\<rparr>"

lemma json_strings_JStr: "json_strings (map JStr os) = Inr os"
  by (induction os) auto

lemma entry_roundtrip: "entry_of_json (entry_json e) = Inr (restorable e)"
  by (cases "ve_vk e"; cases "ve_stat e")
    (auto simp: entry_of_json_def entry_json_def json_strings_JStr stat_of_json_def stat_json_def
      restorable_def split: option.splits)

lemma props_res_map:
  assumes "\<And>x. f (g x) = Inr (k x)"
  shows "props_res f (map (\<lambda>(n, x). (n, g x)) ps) = Inr (map (\<lambda>(n, x). (n, k x)) ps)"
  by (induction ps) (auto simp: assms)

lemma vks_json_roundtrip:
  "object_res (object_res entry_of_json) (vks_json vks) =
     Inr (map (\<lambda>(p, es). (p, map (\<lambda>(hash, e). (hash, restorable e)) es)) vks)"
proof -
  have "object_res entry_of_json (JObj (map (\<lambda>(hash, e). (hash, entry_json e)) es)) =
      Inr (map (\<lambda>(hash, e). (hash, restorable e)) es)" for es
    by (simp add: object_res_def props_res_map entry_roundtrip)
  from props_res_map [of "object_res entry_of_json"
      "\<lambda>es. JObj (map (\<lambda>(hash, e). (hash, entry_json e)) es)", OF this]
  show ?thesis by (simp add: object_res_def [of "object_res entry_of_json"] vks_json_def)
qed

text \<open>
  What the snapshot writes is what the restore reads, for every pallet and key: the key,
  its owners and when it was last used. The text of the numbers in the file is assumed to denote them.
\<close>
theorem vk_snapshot_roundtrip:
  assumes "takeVkSnapshot api h pallets file gql s = (s', Inr ())"
    and "collect_pallets api h gql pallets [] = Inr vks"
    and "textual (vh_numberText h) (vks_json vks)"
  shows "read_vks s' file =
    Inr (map (\<lambda>(p, es). (p, map (\<lambda>(hash, e). (hash, restorable e)) es)) vks)"
proof -
  have "writeFileSync s file (JSON_stringify (vh_numberText h) (vks_json vks)) = Inr s'"
    using assms(1,2) by (auto simp: takeVkSnapshot_def act_bind_def act_update_def split: sum.splits)
  then show ?thesis
    by (simp add: read_vks_def writeFileSync_read JSON_roundtrip_aux [OF assms(3)] vks_json_roundtrip)
qed


section \<open>What a restore registers\<close>















section \<open>Restoring by date\<close>

definition no_stats :: "(string \<times> vk_entry) list \<Rightarrow> bool" where
  "no_stats es \<longleftrightarrow> list_all (\<lambda>(k, e). ve_stat e = None) es"

lemma no_stats_set: "no_stats es \<Longrightarrow> ve_stat x = None \<Longrightarrow> no_stats (obj_set es k x)"
  by (auto simp: no_stats_def obj_set_def list_all_iff split: if_splits)

lemma add_vks_no_stats:
  "add_vks h None p vkeys es = Inr es' \<Longrightarrow> no_stats es \<Longrightarrow> no_stats es'"
proof (induction vkeys arbitrary: es)
  case (Cons v vkeys)
  obtain hash data where v: "v = (hash, data)" by (cases v)
  obtain vk where "add_vks h None p vkeys
      (obj_set es hash \<lparr>ve_vk = vk, ve_owners = [], ve_bonded = Fin 0, ve_stat = None\<rparr>) = Inr es'"
    using Cons.prems(1) by (auto simp: v res_bind_eq_Inr)
  then show ?case by (rule Cons.IH) (use Cons.prems(2) in \<open>simp add: no_stats_set\<close>)
qed simp

lemma add_tickets_no_stats: "add_tickets ts es = Inr es' \<Longrightarrow> no_stats es \<Longrightarrow> no_stats es'"
proof (induction ts es rule: add_tickets.induct)
  case (2 owner hash val ts es)
  then obtain e where e: "map_of es hash = Some e" by (auto split: option.splits)
  then have "ve_stat e = None" using 2(3) by (auto simp: no_stats_def list_all_iff dest: map_of_SomeD)
  then show ?case using 2 e by (auto simp: Let_def no_stats_set)
qed simp

text \<open>
  A snapshot that was taken without the statistics service cannot be restored by date: as soon as
  the first pallet of the snapshot has a key, the restore ends with a \<open>TypeError\<close> and registers nothing.
\<close>
theorem restore_by_date_needs_stats:
  assumes "collect_pallet api h None p = Inr es" and "es \<noteq> []"
    and "read_vks (vw_fs w) file =
      Inr ((p, map (\<lambda>(hash, e). (hash, restorable e)) es) # vksMap)"
  shows "restore api' h' file sudo replace (Some d) w =
    (w, Inl (TypeError ''Cannot read properties of null''))"
proof -
  obtain st :: vk_storage and es0 where "add_vks h None p (vs_vks st) [] = Inr es0"
    "add_tickets (vs_tickets st) es0 = Inr es"
    using assms(1) by (auto simp: collect_pallet_def res_bind_eq_Inr split: option.splits)
  then have "no_stats es"
    using add_vks_no_stats [of h p _ "[]"] add_tickets_no_stats by (simp add: no_stats_def)
  moreover obtain hash e es' where "es = (hash, e) # es'" using assms(2) by (cases es) auto
  ultimately show ?thesis
    using assms(3) by (simp add: restore_def act_bind_def skip_vk_def restorable_def no_stats_def)
qed

text \<open>
  The usage text offers \<open>-U date\<close> for a restore of the keys used after a date. That option is not
  recognised, and \<open>-u date\<close> takes no date: both end with status 1 and register nothing.
\<close>
theorem short_used_after_rejected:
  assumes "\<not> startsWith d ''-''" and "toLowerCase d \<notin> {''snapshot'', ''restore''}"
  shows "vk_main api h [''-U'', d, ''restore'', uri] w = (w, Inl (Exit 1)) \<and>
    vk_main api h [''-u'', d, ''restore'', uri] w = (w, Inl (Exit 1))"
proof -
  have d: "d \<noteq> CHR ''-'' # x" for x using assms(1) by (auto simp: startsWith_def)
  have low: "toLowerCase ''-U'' = ''-u''" by code_simp
  have "vk_parse_loop h [''-U'', d, ''restore'', uri] default_vk_options [] =
      Inr (default_vk_options, [''-U'', d, ''restore'', uri])"
    "vk_parse_loop h [''-u'', d, ''restore'', uri] default_vk_options [] =
      Inr (default_vk_options\<lparr>vo_usedAfter := Some (Fin 0)\<rparr>, [d, ''restore'', uri])"
    by (simp_all add: vk_parse_loop.simps(3) d)
  then show ?thesis
    using assms(2) by (simp add: vk_main_def act_bind_def low vk_command_def vk_usage_def)
qed



section \<open>A run\<close>

text \<open>One pallet with one key and two owners, and a snapshot without the statistics service.\<close>

definition sample_storage :: vk_storage where
  "sample_storage =
     \<lparr>vs_vks = [(''0x1'', JSON_stringify (\<lambda>_. []) (JObj [(''vk'', JStr ''key'')]))],
      vs_tickets = [((''ANN'', ''0x1''), 0), ((''BOB'', ''0x1''), 0)]\<rparr>"

definition sample_vk_api :: vk_api where
  "sample_vk_api =
     \<lparr>va_query = (\<lambda>p. if p = ''settlementGroth16Pallet'' then Some sample_storage else None),
      va_tx = (\<lambda>_. True), va_nonce = (\<lambda>_. 4), va_accepts = (\<lambda>_ _ _ _ _ _. True)\<rparr>"

definition sample_vk_host :: vk_host where
  "sample_vk_host =
     \<lparr>vh_request = (\<lambda>_ _ _. Inl (ErrorMsg ''offline'')), vh_date = (\<lambda>_. NaN),
      vh_numberText = (\<lambda>_. ''0''), vh_fromUri = Inr\<rparr>"

definition sample_entry :: vk_entry where
  "sample_entry =
     \<lparr>ve_vk = Some (JStr ''key''), ve_owners = [''ANN'', ''BOB''], ve_bonded = Fin 0, ve_stat = None\<rparr>"

lemma sample_bond: "bond 0 = Fin 0"
  using double_of_nat_small [of 0] by (simp add: bond_def)

lemma sample_groth16: "vk_pallet ''groth16'' = Some ''settlementGroth16Pallet''"
  by (simp add: vk_pallet_def)

lemma sample_query: "va_query sample_vk_api ''settlementGroth16Pallet'' = Some sample_storage"
  by (simp add: sample_vk_api_def)

lemma sample_collect:
  "collect_pallet sample_vk_api sample_vk_host None ''groth16'' = Inr [(''0x1'', sample_entry)]"
  by (simp add: collect_pallet_def sample_groth16 sample_query sample_storage_def JSON_roundtrip_aux
      destructure_vk_def obj_set_def sample_bond sample_entry_def)

theorem collect_pallet_owners_witness:
  "collect_pallet sample_vk_api sample_vk_host None ''groth16'' = Inr [(''0x1'', sample_entry)] \<and>
   ve_owners sample_entry = owners_of (vs_tickets sample_storage) ''0x1''"
proof -
  have "distinct (map fst (vs_vks sample_storage))" by (simp add: sample_storage_def)
  from collect_pallet_owners [OF sample_collect sample_groth16 sample_query this] sample_collect
  show ?thesis by simp
qed

lemma sample_vk_snapshot:
  obtains s where "takeVkSnapshot sample_vk_api sample_vk_host [''groth16''] ''v.json'' None
    \<lparr>fs_files = [], fs_dirs = [''.'']\<rparr> = (s, Inr ())"
  using that
  by (simp add: takeVkSnapshot_def act_bind_def act_update_def sample_collect writeFileSync_def
      parent_dir_def)

lemma sample_pallets:
  "collect_pallets sample_vk_api sample_vk_host None [''groth16''] [] =
     Inr [(''groth16'', [(''0x1'', sample_entry)])]"
  by (simp add: sample_collect)

lemma sample_textual:
  "textual (vh_numberText sample_vk_host) (vks_json [(''groth16'', [(''0x1'', sample_entry)])])"
proof -
  have "StringToNumber ''0'' = Fin 0"
    using StringToNumber_digits [of "''0''"] double_of_nat_small [of 0]
    by (simp add: is_digit_def digits_val_def digit_val_def)
  then have "number_ok (\<lambda>_. ''0'') (Fin 0)"
    by (simp add: number_ok_def word_char_def is_digit_def literal_def json_number_def int_part_def
        exponent_part_def)
  then show ?thesis
    by (simp add: sample_vk_host_def vks_json_def entry_json_def sample_entry_def stat_json_def)
qed

abbreviation sample_file :: "(string \<times> (string \<times> rv_entry) list) list" where
  "sample_file \<equiv> [(''groth16'', [(''0x1'', restorable sample_entry)])]"

theorem vk_snapshot_roundtrip_witness:
  "\<exists>s. takeVkSnapshot sample_vk_api sample_vk_host [''groth16''] ''v.json'' None
     \<lparr>fs_files = [], fs_dirs = [''.'']\<rparr> = (s, Inr ()) \<and> read_vks s ''v.json'' = Inr sample_file"
proof -
  obtain s where s: "takeVkSnapshot sample_vk_api sample_vk_host [''groth16''] ''v.json'' None
     \<lparr>fs_files = [], fs_dirs = [''.'']\<rparr> = (s, Inr ())" by (rule sample_vk_snapshot)
  from vk_snapshot_roundtrip [OF s sample_pallets sample_textual] s show ?thesis by auto
qed

definition sample_vk_world :: vk_world where
  "sample_vk_world =
     \<lparr>vw_fs = \<lparr>fs_files = [(''v.json'', JSON_stringify (\<lambda>_. ''0'')
        (vks_json [(''groth16'', [(''0x1'', sample_entry)])]))], fs_dirs = [''.'']\<rparr>, vw_sent = []\<rparr>"

lemma sample_vk_read: "read_vks (vw_fs sample_vk_world) ''v.json'' = Inr sample_file"
  using JSON_roundtrip_aux [OF sample_textual]
  by (simp add: read_vks_def sample_vk_world_def readFileSync_def vks_json_roundtrip
      sample_vk_host_def)


theorem restore_by_date_needs_stats_witness:
  "restore sample_vk_api sample_vk_host ''v.json'' ''SUDO'' None (Some (Fin 0)) sample_vk_world =
     (sample_vk_world, Inl (TypeError ''Cannot read properties of null''))"
  by (rule restore_by_date_needs_stats [OF sample_collect, of sample_vk_world "''v.json''" "[]"])
    (simp_all add: sample_vk_read)

theorem short_used_after_rejected_witness:
  "vk_main sample_vk_api sample_vk_host [''-U'', ''2025-01-01'', ''restore'', ''//Sudo''] sample_vk_world =
     (sample_vk_world, Inl (Exit 1))"
proof -
  have "toLowerCase ''2025-01-01'' \<notin> {''snapshot'', ''restore''}" by code_simp
  moreover have "\<not> startsWith ''2025-01-01'' ''-''" by (simp add: startsWith_def)
  ultimately show ?thesis using short_used_after_rejected by blast
qed

end
