(* ===== verification/ZkvLib.thy ===== *)
theory ZkvLib
  imports TxLifecycle Json
begin

text \<open>
  The library of the zombienet tests, \<open>zombienet-tests/zkv-lib/index.js\<close>: its variant of the transaction
  life cycle, with finalization, invalid transactions and a wait for an empty mempool before a
  retry, and the exported operations on top of it. The node is the record \<open>zapi\<close> over a world: a
  submission gives one attempt, in the sense of theory \<open>TxLifecycle\<close>, and a poll gives the number of
  pending extrinsics. The descriptions in the table of RPC methods and the console output are left out.
\<close>


section \<open>Types and calls of the chain\<close>

text \<open>The definition of a type: a structure with typed fields, or an enumeration whose variants may carry a type.\<close>

datatype type_def =
    Struct "(string \<times> string) list"
  | Enum "(string \<times> string option) list"

definition zkvTypes :: "(string \<times> type_def) list" where
  "zkvTypes =
     [(''MerkleProof'', Struct [(''root'', ''H256''), (''proof'', ''Vec<H256>''),
         (''number_of_leaves'', ''u32''), (''leaf_index'', ''u32''), (''leaf'', ''H256'')]),
      (''Curve'', Enum [(''Bn254'', None), (''Bls12_381'', None)]),
      (''Groth16Vk'', Struct [(''curve'', ''Curve''), (''alphaG1'', ''Bytes''), (''betaG2'', ''Bytes''),
         (''gammaG2'', ''Bytes''), (''deltaG2'', ''Bytes''), (''gammaAbcG1'', ''Vec<Bytes>'')]),
      (''Plonky2Config'', Enum [(''Keccak'', None), (''Poseidon'', None)]),
      (''Plonky2Vk'', Struct [(''config'', ''Plonky2Config''), (''bytes'', ''Bytes'')]),
      (''EzklVK'', Struct [(''vkBytes'', ''Bytes'')]),
      (''UltrahonkVk'', Enum [(''V0_84'', Some ''Bytes''), (''V3_0'', Some ''Bytes''),
         (''Legacy'', Some ''Bytes'')]),
      (''FflonkVk'', Struct [(''power'', ''u8''), (''k1'', ''U256''), (''k2'', ''U256''), (''w'', ''U256''),
         (''w3'', ''U256''), (''w4'', ''U256''), (''w8'', ''U256''), (''wr'', ''U256''),
         (''x2'', ''[[U256; 2]; 3]''), (''c0'', ''[U256; 3]'')])]"

record rpc_method =
  rpc_section :: string
  rpc_name :: string
  rpc_params :: "(string \<times> string) list"
  rpc_type :: string

definition rpc :: "string \<Rightarrow> string \<Rightarrow> (string \<times> string) list \<Rightarrow> string \<Rightarrow> rpc_method" where
  "rpc sec name params t =
     \<lparr>rpc_section = sec, rpc_name = name, rpc_params = params, rpc_type = t\<rparr>"

definition zkvRpc :: "rpc_method list" where
  "zkvRpc =
     [rpc ''aggregate'' ''statementPath''
        [(''at'', ''BlockHash''), (''domain_id'', ''u32''), (''aggregation_id'', ''u64''),
         (''statement'', ''H256'')] ''MerkleProof'',
      rpc ''vk_hash'' ''ezkl'' [(''vk'', ''EzklVK'')] ''H256'',
      rpc ''vk_hash'' ''fflonk'' [(''vk'', ''FflonkVk'')] ''H256'',
      rpc ''vk_hash'' ''groth16'' [(''vk'', ''Groth16Vk'')] ''H256'',
      rpc ''vk_hash'' ''plonky2'' [(''vk'', ''Plonky2Vk'')] ''H256'',
      rpc ''vk_hash'' ''risc0'' [(''vk'', ''H256'')] ''H256'',
      rpc ''vk_hash'' ''ultrahonk'' [(''vk'', ''UltrahonkVk'')] ''H256'',
      rpc ''vk_hash'' ''ultraplonk'' [(''vk'', ''Bytes'')] ''H256'',
      rpc ''vk_hash'' ''sp1'' [(''vk'', ''H256'')] ''H256'']"

text \<open>An extrinsic: \<open>api.tx.<section>.<method>(args)\<close>, with plain values, calls or
  \<open>undefined\<close> as arguments.\<close>

datatype ztx = Tx string string "zarg list"
  and zarg = Arg json | CallArg ztx | UndefArg

text \<open>How an extrinsic goes out: \<open>signAndSend\<close> with a signer, which may be \<open>undefined\<close>, or \<open>send\<close>.\<close>

datatype zsubmission =
    SignAndSend "string nullable" ztx
  | SendUnsigned ztx

record 'w zapi =
  z_submit :: "zsubmission \<Rightarrow> 'w \<Rightarrow> attempt \<times> 'w"
  z_pending :: "'w \<Rightarrow> nat \<times> 'w"


section \<open>The life cycle of a transaction\<close>

datatype BlockUntil = UntilInBlock | UntilFinalized

definition BLOCK_TIME :: nat where
  "BLOCK_TIME = 6000"

record zk_vars =
  zv_success :: bool
  zv_done :: bool
  zv_ready :: bool

record zk_info =
  zi_block :: "string nullable"
  zi_events :: "event list"

definition sees_success :: "event_record list \<Rightarrow> bool" where
  "sees_success rs \<longleftrightarrow> list_ex is_success rs"

text \<open>
  One call of the callback: the variables after it and how it settles the promise. A promise settles once: after
  \<open>reject("retry")\<close> the second settlement of the same call has no effect.
\<close>

definition zk_notification ::
  "BlockUntil \<Rightarrow> zk_vars \<Rightarrow> notification \<Rightarrow>
   zk_vars \<times> (string nullable \<times> event_record list) settlement option"
where
  "zk_notification blockUntil st n =
     (let (st', blockHash, retry) =
        (case n_status n of
           Ready \<Rightarrow> (st\<lparr>zv_ready := True\<rparr>, Null, False)
         | InBlock h \<Rightarrow>
             (let st1 = st\<lparr>zv_success := zv_success st \<or> sees_success (n_records n)\<rparr>
              in (if blockUntil = UntilInBlock then st1\<lparr>zv_done := True\<rparr> else st1, Val h, False))
         | Finalized h \<Rightarrow>
             (if blockUntil = UntilFinalized then st\<lparr>zv_done := True\<rparr> else st, Null, False)
         | Invalid \<Rightarrow> (st\<lparr>zv_done := True\<rparr>, Null, zv_ready st)
         | StatusError \<Rightarrow> (st\<lparr>zv_done := True\<rparr>, Null, False)
         | OtherStatus \<Rightarrow> (st, Null, False))
      in if retry then (st', Some (Reject (RejStr ''retry'')))
         else if zv_done st' then
           (st', Some (if zv_success st' then Resolve (blockHash, n_records n)
                       else Reject (RejStr ''ExtrinsicSuccess has not been seen'')))
         else (st', None))"

fun zk_watch ::
  "BlockUntil \<Rightarrow> zk_vars \<Rightarrow> notification list \<Rightarrow>
   zk_vars \<times> (string nullable \<times> event_record list) settlement option"
where
  "zk_watch blockUntil st [] = (st, None)"
| "zk_watch blockUntil st (n # ns) =
     (case zk_notification blockUntil st n of
        (st', None) \<Rightarrow> zk_watch blockUntil st' ns
      | (st', Some s) \<Rightarrow> (st', Some s))"

fun zk_attempt ::
  "BlockUntil \<Rightarrow> zk_vars \<Rightarrow> attempt \<Rightarrow>
   zk_vars \<times> (string nullable \<times> event_record list) settlement option"
where
  "zk_attempt blockUntil st (SendRejected e) = (st, Some (Reject (on_send_error e)))"
| "zk_attempt blockUntil st (Subscribed ns) = zk_watch blockUntil st ns"

text \<open>The wait ends when a poll finds no pending extrinsic; otherwise it goes on forever.\<close>

partial_function (option) waitForEmptyMempool :: "('w \<Rightarrow> nat \<times> 'w) \<Rightarrow> 'w \<Rightarrow> 'w option" where
  "waitForEmptyMempool pending w =
     (case pending w of (n, w') \<Rightarrow> if 0 < n then waitForEmptyMempool pending w' else Some w')"

lemma zk_notification_resolves:
  "zk_notification b st n = (st', Some (Resolve i)) \<Longrightarrow> zv_done st' \<and> zv_success st'"
  by (auto simp: zk_notification_def Let_def split: ext_status.splits if_splits)

lemma zk_watch_resolves: "zk_watch b st ns = (st', Some (Resolve i)) \<Longrightarrow> zv_done st' \<and> zv_success st'"
  by (induction ns arbitrary: st)
    (auto split: prod.splits option.splits dest: zk_notification_resolves)

lemma zk_attempt_resolves: "zk_attempt b st a = (st', Some (Resolve i)) \<Longrightarrow> zv_done st' \<and> zv_success st'"
  by (cases a) (auto dest: zk_watch_resolves)

definition zk_info_of :: "(event \<Rightarrow> bool) \<Rightarrow> string nullable \<times> event_record list \<Rightarrow> zk_info" where
  "zk_info_of flt i =
     (case i of (blockHash, records) \<Rightarrow>
        \<lparr>zi_block = blockHash, zi_events = filter flt (map rec_event records)\<rparr>)"

function zk_loop ::
  "('w \<Rightarrow> attempt \<times> 'w) \<Rightarrow> ('w \<Rightarrow> nat \<times> 'w) \<Rightarrow> BlockUntil \<Rightarrow> (event \<Rightarrow> bool) \<Rightarrow> zk_vars \<Rightarrow> nat \<Rightarrow>
   zk_info retval \<Rightarrow> 'w \<Rightarrow> 'w \<times> zk_info retval res"
where
  "zk_loop sendFunction pending blockUntil flt st max_retries retVal w =
     (if \<not> zv_done st \<and> 0 < max_retries then
        (case sendFunction w of (a, w') \<Rightarrow>
           (case zk_attempt blockUntil st a of
              (st', None) \<Rightarrow> (w', Inl NeverSettles)
            | (st', Some (Resolve i)) \<Rightarrow>
                zk_loop sendFunction pending blockUntil flt st' max_retries (RObj (zk_info_of flt i)) w'
            | (st', Some (Reject e)) \<Rightarrow>
                if e \<noteq> RejStr ''retry''
                then zk_loop sendFunction pending blockUntil flt (st'\<lparr>zv_done := True\<rparr>) max_retries
                       RMinus1 w'
                else (case waitForEmptyMempool pending w' of
                        None \<Rightarrow> (w', Inl NeverSettles)
                      | Some w'' \<Rightarrow>
                          zk_loop sendFunction pending blockUntil flt (st'\<lparr>zv_done := False\<rparr>)
                            (max_retries - 1) RUndefined w'')))
      else (w, Inr retVal))"
  by pat_completeness auto
termination
  by (relation "measures [\<lambda>(f, p, b, g, st, r, v, w). r,
      \<lambda>(f, p, b, g, st, r, v, w). if zv_done st then 0 else 1]")
    (auto dest: zk_attempt_resolves [OF sym] zk_attempt_resolves)

declare zk_loop.simps [simp del]

definition zk_handleTransactionLifecycle ::
  "('w \<Rightarrow> attempt \<times> 'w) \<Rightarrow> ('w \<Rightarrow> nat \<times> 'w) \<Rightarrow> BlockUntil \<Rightarrow> (event \<Rightarrow> bool) option \<Rightarrow> 'w \<Rightarrow>
   'w \<times> zk_info retval res"
where
  "zk_handleTransactionLifecycle sendFunction pending blockUntil flt w =
     zk_loop sendFunction pending blockUntil (case flt of None \<Rightarrow> (\<lambda>_. True) | Some f \<Rightarrow> f)
       \<lparr>zv_success = False, zv_done = False, zv_ready = False\<rparr> 5 RMinus1 w"



section \<open>Submitting\<close>

definition zk_submitExtrinsic ::
  "'w zapi \<Rightarrow> ztx \<Rightarrow> string nullable \<Rightarrow> BlockUntil \<Rightarrow> (event \<Rightarrow> bool) option \<Rightarrow> 'w \<Rightarrow>
   'w \<times> zk_info retval res"
where
  "zk_submitExtrinsic api extrinsic signer blockUntil flt =
     zk_handleTransactionLifecycle (z_submit api (SignAndSend signer extrinsic)) (z_pending api) blockUntil flt"

definition zk_submitExtrinsicUnsigned ::
  "'w zapi \<Rightarrow> ztx \<Rightarrow> BlockUntil \<Rightarrow> (event \<Rightarrow> bool) option \<Rightarrow> 'w \<Rightarrow> 'w \<times> zk_info retval res"
where
  "zk_submitExtrinsicUnsigned api extrinsic blockUntil flt =
     zk_handleTransactionLifecycle (z_submit api (SendUnsigned extrinsic)) (z_pending api) blockUntil flt"

text \<open>The function that is exported under the name \<open>submitExtrinsicUnsigned\<close> is another one.\<close>

definition exported_submitExtrinsicUnsigned ::
  "'w zapi \<Rightarrow> ztx \<Rightarrow> BlockUntil \<Rightarrow> (event \<Rightarrow> bool) option \<Rightarrow> 'w \<Rightarrow> 'w \<times> zk_info retval res"
where
  "exported_submitExtrinsicUnsigned api extrinsic blockUntil flt =
     zk_submitExtrinsic api extrinsic Undef blockUntil flt"

definition in_section :: "string \<Rightarrow> event \<Rightarrow> bool" where
  "in_section sec e \<longleftrightarrow> ev_section e = sec"

definition is_event :: "string \<Rightarrow> string \<Rightarrow> event \<Rightarrow> bool" where
  "is_event sec m e \<longleftrightarrow> ev_section e = sec \<and> ev_method e = m"

definition proof_event :: "event \<Rightarrow> bool" where
  "proof_event e \<longleftrightarrow>
     ev_method e = ''ProofVerified'' \<or> is_event ''aggregate'' ''NewProof'' e \<or>
     is_event ''aggregate'' ''AggregationComplete'' e"

definition submitProof ::
  "'w zapi \<Rightarrow> string \<Rightarrow> string \<Rightarrow> zarg list \<Rightarrow> 'w \<Rightarrow> 'w \<times> zk_info retval res"
where
  "submitProof api pallet signer verifierArgs =
     zk_submitExtrinsic api
       (Tx pallet ''submitProof''
          (if length verifierArgs < 4 then verifierArgs @ [Arg JNull] else verifierArgs))
       (Val signer) UntilInBlock (Some proof_event)"

definition register_domain_call :: "json list \<Rightarrow> ztx" where
  "register_domain_call args = Tx ''aggregate'' ''registerDomain'' (map Arg args)"

definition registerDomain :: "'w zapi \<Rightarrow> string \<Rightarrow> json list \<Rightarrow> 'w \<Rightarrow> 'w \<times> zk_info retval res" where
  "registerDomain api signer args =
     zk_submitExtrinsic api (register_domain_call args) (Val signer) UntilInBlock
       (Some (is_event ''aggregate'' ''NewDomain''))"

definition sudo_call :: "ztx \<Rightarrow> ztx" where
  "sudo_call c = Tx ''sudo'' ''sudo'' [CallArg c]"

definition sudoRegisterDomain :: "'w zapi \<Rightarrow> string \<Rightarrow> json list \<Rightarrow> 'w \<Rightarrow> 'w \<times> zk_info retval res" where
  "sudoRegisterDomain api signer args =
     zk_submitExtrinsic api (sudo_call (register_domain_call args)) (Val signer) UntilInBlock
       (Some (is_event ''aggregate'' ''NewDomain''))"

definition unregisterDomain :: "'w zapi \<Rightarrow> string \<Rightarrow> zarg \<Rightarrow> 'w \<Rightarrow> 'w \<times> zk_info retval res" where
  "unregisterDomain api signer domain_id =
     zk_submitExtrinsic api (Tx ''aggregate'' ''unregisterDomain'' [domain_id]) (Val signer)
       UntilInBlock None"

definition holdDomain :: "'w zapi \<Rightarrow> string \<Rightarrow> zarg \<Rightarrow> 'w \<Rightarrow> 'w \<times> zk_info retval res" where
  "holdDomain api signer domain_id =
     zk_submitExtrinsic api (Tx ''aggregate'' ''holdDomain'' [domain_id]) (Val signer)
       UntilInBlock None"

definition allowlistProofSubmitters ::
  "'w zapi \<Rightarrow> string \<Rightarrow> zarg \<Rightarrow> json \<Rightarrow> 'w \<Rightarrow> 'w \<times> zk_info retval res"
where
  "allowlistProofSubmitters api signer domain_id allowList =
     zk_submitExtrinsic api (Tx ''aggregate'' ''allowlistProofSubmitters'' [domain_id, Arg allowList])
       (Val signer) UntilInBlock None"

definition removeProofSubmitters ::
  "'w zapi \<Rightarrow> string \<Rightarrow> zarg \<Rightarrow> json \<Rightarrow> 'w \<Rightarrow> 'w \<times> zk_info retval res"
where
  "removeProofSubmitters api signer domain_id allowList =
     zk_submitExtrinsic api (Tx ''aggregate'' ''removeProofSubmitters'' [domain_id, Arg allowList])
       (Val signer) UntilInBlock None"

definition aggregate :: "'w zapi \<Rightarrow> string \<Rightarrow> zarg \<Rightarrow> zarg \<Rightarrow> 'w \<Rightarrow> 'w \<times> zk_info retval res" where
  "aggregate api signer domain_id aggregation_id =
     zk_submitExtrinsic api (Tx ''aggregate'' ''aggregate'' [domain_id, aggregation_id])
       (Val signer) UntilInBlock (Some (in_section ''aggregate''))"

text \<open>
  The address of the claim pallet is an answer of the chain; \<open>unwrap\<close> fails when it is not set. The result of
  the funding transfer is not looked at.
\<close>

definition sudoInitClaim ::
  "'w zapi \<Rightarrow> json option \<Rightarrow> string \<Rightarrow> json \<Rightarrow> json \<Rightarrow> json \<Rightarrow> 'w \<Rightarrow> 'w \<times> zk_info retval res"
where
  "sudoInitClaim api palletAddressOption signer beneficiaries initial_balance message =
     (case palletAddressOption of
        None \<Rightarrow> act_fail (ErrorMsg ''Option: unwrapping a None value'')
      | Some palletAddress \<Rightarrow>
          act_bind (zk_submitExtrinsic api
              (Tx ''balances'' ''transferAllowDeath'' [Arg palletAddress, Arg initial_balance])
              (Val signer) UntilInBlock None)
            (\<lambda>_. zk_submitExtrinsic api
               (sudo_call (Tx ''tokenClaim'' ''beginClaim'' [Arg beneficiaries, Arg message]))
               (Val signer) UntilInBlock (Some (in_section ''tokenClaim''))))"

definition claim :: "'w zapi \<Rightarrow> json \<Rightarrow> json \<Rightarrow> 'w \<Rightarrow> 'w \<times> zk_info retval res" where
  "claim api signer signature =
     zk_submitExtrinsicUnsigned api (Tx ''tokenClaim'' ''claim'' [Arg signer, Arg signature])
       UntilInBlock (Some (in_section ''tokenClaim''))"

definition claimEthereum :: "'w zapi \<Rightarrow> json \<Rightarrow> json \<Rightarrow> json \<Rightarrow> 'w \<Rightarrow> 'w \<times> zk_info retval res" where
  "claimEthereum api signer signature dest =
     zk_submitExtrinsicUnsigned api
       (Tx ''tokenClaim'' ''claimEthereum'' [Arg signer, Arg signature, Arg dest])
       UntilInBlock (Some (in_section ''tokenClaim''))"

definition sudoRegisterCA :: "'w zapi \<Rightarrow> string \<Rightarrow> json \<Rightarrow> json \<Rightarrow> 'w \<Rightarrow> 'w \<times> zk_info retval res" where
  "sudoRegisterCA api signer ca_name root_cert_der =
     zk_submitExtrinsic api (sudo_call (Tx ''crl'' ''registerCa'' [Arg ca_name, Arg root_cert_der]))
       (Val signer) UntilInBlock (Some (in_section ''crl''))"

definition updateCrl :: "'w zapi \<Rightarrow> string \<Rightarrow> json \<Rightarrow> json \<Rightarrow> 'w \<Rightarrow> 'w \<times> zk_info retval res" where
  "updateCrl api signer ca_name crl_input =
     zk_submitExtrinsic api (Tx ''crl'' ''updateCrl'' [Arg ca_name, Arg crl_input])
       (Val signer) UntilInBlock (Some (in_section ''crl''))"

definition registerVk :: "'w zapi \<Rightarrow> string \<Rightarrow> string \<Rightarrow> json \<Rightarrow> 'w \<Rightarrow> 'w \<times> zk_info retval res" where
  "registerVk api pallet signer vk =
     zk_submitExtrinsic api (Tx pallet ''registerVk'' [Arg vk]) (Val signer) UntilInBlock
       (Some (is_event ''settlementUltraplonkPallet'' ''VkRegistered''))"


section \<open>Events, balances and the connection\<close>

text \<open>
  The batches of events that arrive before the timeout; the first match of the first batch that has one resolves the
  promise, and without a match the timeout rejects it.
\<close>

fun first_match :: "string \<Rightarrow> string \<Rightarrow> event list \<Rightarrow> event option" where
  "first_match pallet name [] = None"
| "first_match pallet name (e # es) =
     (if ev_section e = pallet \<and> ev_method e = name then Some e else first_match pallet name es)"

fun waitForEvent :: "event list list \<Rightarrow> string \<Rightarrow> string \<Rightarrow> event retval" where
  "waitForEvent [] pallet name = RMinus1"
| "waitForEvent (es # batches) pallet name =
     (case first_match pallet name es of
        Some e \<Rightarrow> RObj e
      | None \<Rightarrow> waitForEvent batches pallet name)"

text \<open>A value that a test passes to \<open>receivedEvents\<close>: an array of events, or the result of a submission.\<close>

datatype event_data = EventArray "event list" | Submission "zk_info retval"

definition receivedEvents :: "event_data \<Rightarrow> bool res" where
  "receivedEvents data =
     (case data of
        EventArray es \<Rightarrow> Inr (0 < length es)
      | Submission (RObj i) \<Rightarrow> Inr (0 < length (zi_events i))
      | Submission RMinus1 \<Rightarrow> Inr False
      | Submission RUndefined \<Rightarrow> Inl (TypeError ''Cannot read properties of undefined''))"

text \<open>The query \<open>api.query.system.account\<close> answers with the data of an account, here its free balance.\<close>

record account_info =
  ai_free :: nat

definition getBalance :: "(string \<Rightarrow> ('w, account_info) act) \<Rightarrow> string \<Rightarrow> ('w, nat) act" where
  "getBalance account address = act_bind (account address) (\<lambda>a. act_return (ai_free a))"

definition isVolta :: "string \<Rightarrow> bool" where
  "isVolta chain = startsWith chain ''Volta ''"

text \<open>
  The connection is a variable of the module: it is opened at the first call and kept. The connections
  that have been opened are a log.
\<close>

record zk_module =
  zm_api :: "string option"
  zm_opened :: "string list"

definition init_api :: "(string \<Rightarrow> string option) \<Rightarrow> string \<Rightarrow> (zk_module, string) act" where
  "init_api nodesByName nodeName m =
     (case zm_api m of
        Some a \<Rightarrow> (m, Inr a)
      | None \<Rightarrow>
          (case nodesByName nodeName of
             None \<Rightarrow> (m, Inl (TypeError ''Cannot destructure property''))
           | Some wsUri \<Rightarrow> (\<lparr>zm_api = Some wsUri, zm_opened = zm_opened m @ [wsUri]\<rparr>, Inr wsUri)))"


section \<open>What a submission until inclusion computes\<close>

text \<open>
  The reference description for \<open>BlockUntil.InBlock\<close>, the mode of all operations of the library. The first
  decisive notification of an attempt is an inclusion, an invalid transaction or an error. An invalid
  transaction is submitted again when the node has called a transaction ready before, in this attempt or an
  earlier one.
\<close>

datatype zk_outcome = ZRetry bool | ZVerdict "zk_info retval res"

definition decisive :: "notification \<Rightarrow> bool" where
  "decisive n = (case n_status n of InBlock _ \<Rightarrow> True | Invalid \<Rightarrow> True | StatusError \<Rightarrow> True | _ \<Rightarrow> False)"

definition says_ready :: "notification \<Rightarrow> bool" where
  "says_ready n \<longleftrightarrow> n_status n = Ready"

definition decide :: "(event \<Rightarrow> bool) \<Rightarrow> bool \<Rightarrow> notification \<Rightarrow> zk_outcome" where
  "decide flt ready n =
     (case n_status n of
        InBlock h \<Rightarrow>
          ZVerdict (Inr (if sees_success (n_records n) then RObj (zk_info_of flt (Val h, n_records n))
                         else RMinus1))
      | Invalid \<Rightarrow> if ready then ZRetry True else ZVerdict (Inr RMinus1)
      | _ \<Rightarrow> ZVerdict (Inr RMinus1))"

definition outcome :: "(event \<Rightarrow> bool) \<Rightarrow> bool \<Rightarrow> attempt \<Rightarrow> zk_outcome" where
  "outcome flt ready a =
     (case a of
        SendRejected (SendError c _) \<Rightarrow> if c = Some 1014 then ZRetry ready else ZVerdict (Inr RMinus1)
      | Subscribed ns \<Rightarrow>
          (case dropWhile (\<lambda>n. \<not> decisive n) ns of
             [] \<Rightarrow> ZVerdict (Inl NeverSettles)
           | n # _ \<Rightarrow> decide flt (ready \<or> list_ex says_ready (takeWhile (\<lambda>n. \<not> decisive n) ns)) n))"

fun zk_spec ::
  "nat \<Rightarrow> bool \<Rightarrow> ('w \<Rightarrow> attempt \<times> 'w) \<Rightarrow> ('w \<Rightarrow> nat \<times> 'w) \<Rightarrow> (event \<Rightarrow> bool) \<Rightarrow> 'w \<Rightarrow>
   'w \<times> zk_info retval res"
where
  "zk_spec 0 ready submit pending flt w = (w, Inr RUndefined)"
| "zk_spec (Suc n) ready submit pending flt w =
     (case submit w of (a, w') \<Rightarrow>
        (case outcome flt ready a of
           ZVerdict v \<Rightarrow> (w', v)
         | ZRetry ready' \<Rightarrow>
             (case waitForEmptyMempool pending w' of
                None \<Rightarrow> (w', Inl NeverSettles)
              | Some w'' \<Rightarrow> zk_spec n ready' submit pending flt w'')))"

abbreviation vars_ready :: "bool \<Rightarrow> zk_vars" where
  "vars_ready r \<equiv> \<lparr>zv_success = False, zv_done = False, zv_ready = r\<rparr>"

text \<open>How a settlement realises an outcome.\<close>

fun realises ::
  "(event \<Rightarrow> bool) \<Rightarrow> zk_outcome \<Rightarrow>
   zk_vars \<times> (string nullable \<times> event_record list) settlement option \<Rightarrow> bool"
where
  "realises flt (ZRetry r) (st, s) \<longleftrightarrow>
     s = Some (Reject (RejStr ''retry'')) \<and> \<not> zv_success st \<and> zv_ready st = r"
| "realises flt (ZVerdict (Inl e)) (st, s) \<longleftrightarrow> e = NeverSettles \<and> s = None"
| "realises flt (ZVerdict (Inr RMinus1)) (st, s) \<longleftrightarrow> (\<exists>e. s = Some (Reject e) \<and> e \<noteq> RejStr ''retry'')"
| "realises flt (ZVerdict (Inr RUndefined)) (st, s) \<longleftrightarrow> False"
| "realises flt (ZVerdict (Inr (RObj i))) (st, s) \<longleftrightarrow>
     zv_done st \<and> (\<exists>j. s = Some (Resolve j) \<and> zk_info_of flt j = i)"

lemma notification_decisive:
  "decisive n \<Longrightarrow> realises flt (decide flt r n) (zk_notification UntilInBlock (vars_ready r) n)"
  by (auto simp: decisive_def decide_def zk_notification_def Let_def split: ext_status.splits)

lemma notification_indecisive:
  "\<not> decisive n \<Longrightarrow>
     zk_notification UntilInBlock (vars_ready r) n = (vars_ready (r \<or> says_ready n), None)"
  by (auto simp: decisive_def says_ready_def zk_notification_def Let_def split: ext_status.splits)

lemma decide_settles:
  "realises flt (decide flt r n) (st, s) \<Longrightarrow> s \<noteq> None"
  by (auto simp: decide_def split: ext_status.splits if_splits)

lemma watch_realises:
  "realises flt (outcome flt r (Subscribed ns)) (zk_watch UntilInBlock (vars_ready r) ns)"
proof (induction ns arbitrary: r)
  case Nil
  show ?case by (simp add: outcome_def)
next
  case (Cons n ns)
  show ?case
  proof (cases "decisive n")
    case True
    obtain st s where z: "zk_notification UntilInBlock (vars_ready r) n = (st, s)" by fastforce
    then have "realises flt (decide flt r n) (st, s)" using notification_decisive [OF True] by metis
    moreover from this obtain s' where "s = Some s'" using decide_settles by blast
    ultimately show ?thesis using z True by (simp add: outcome_def)
  next
    case False
    have "outcome flt r (Subscribed (n # ns)) = outcome flt (r \<or> says_ready n) (Subscribed ns)"
      using False by (cases "dropWhile (\<lambda>n. \<not> decisive n) ns") (simp_all add: outcome_def disj_assoc del: dropWhile_eq_Nil_conv)
    then show ?thesis
      using Cons.IH [of "r \<or> says_ready n"] False by (simp add: notification_indecisive)
  qed
qed

lemma attempt_realises: "realises flt (outcome flt r a) (zk_attempt UntilInBlock (vars_ready r) a)"
proof (cases a)
  case (SendRejected e)
  then show ?thesis by (cases e) (auto simp: outcome_def on_send_error_def)
next
  case (Subscribed ns)
  then show ?thesis using watch_realises by simp
qed

lemma zk_loop_done: "zv_done st \<Longrightarrow> zk_loop f p b flt st n v w = (w, Inr v)"
  by (simp add: zk_loop.simps)

lemma zk_loop_step:
  assumes "f w = (a, w')"
  shows "zk_loop f p UntilInBlock flt (vars_ready r) (Suc n) v w =
    (case outcome flt r a of
       ZVerdict x \<Rightarrow> (w', x)
     | ZRetry r' \<Rightarrow>
         (case waitForEmptyMempool p w' of
            None \<Rightarrow> (w', Inl NeverSettles)
          | Some w'' \<Rightarrow> zk_loop f p UntilInBlock flt (vars_ready r') n RUndefined w''))"
proof -
  obtain st s where z: "zk_attempt UntilInBlock (vars_ready r) a = (st, s)" by fastforce
  then have real: "realises flt (outcome flt r a) (st, s)" using attempt_realises [of flt r a] by simp
  show ?thesis
  proof (cases "outcome flt r a")
    case (ZRetry r')
    then have "s = Some (Reject (RejStr ''retry''))" "st\<lparr>zv_done := False\<rparr> = vars_ready r'"
      using real by (cases st, simp)+
    then show ?thesis using assms z ZRetry by (subst zk_loop.simps) (simp split: option.splits)
  next
    case (ZVerdict x)
    then show ?thesis
      using real assms z
      by (cases x; cases "projr x") (subst zk_loop.simps; auto simp: zk_loop_done)+
  qed
qed

lemma zk_loop_spec:
  "zk_loop f p UntilInBlock flt (vars_ready r) n RUndefined w = zk_spec n r f p flt w"
proof (induction n arbitrary: r w)
  case 0
  show ?case by (simp add: zk_loop.simps)
next
  case (Suc n)
  obtain a w' where "f w = (a, w')" by fastforce
  then show ?case by (simp add: zk_loop_step Suc.IH split: zk_outcome.splits option.splits)
qed

lemma zk_lifecycle_spec:
  "zk_handleTransactionLifecycle f p UntilInBlock flt w =
     zk_spec 5 False f p (case flt of None \<Rightarrow> (\<lambda>_. True) | Some g \<Rightarrow> g) w"
proof -
  obtain a w' where f: "f w = (a, w')" by fastforce
  have "zk_loop f p UntilInBlock g (vars_ready False) (Suc n) v w = zk_spec (Suc n) False f p g w"
    for g v n
    unfolding zk_loop_step [of f, OF f]
    by (simp add: f zk_loop_spec split: zk_outcome.splits option.splits)
  from this [of _ 4] show ?thesis by (simp add: zk_handleTransactionLifecycle_def)
qed




section \<open>Waiting\<close>

text \<open>The world after a number of polls, and the first poll that finds an empty mempool.\<close>

fun polls :: "('w \<Rightarrow> nat \<times> 'w) \<Rightarrow> nat \<Rightarrow> 'w \<Rightarrow> 'w" where
  "polls pending 0 w = w"
| "polls pending (Suc k) w = polls pending k (snd (pending w))"

definition first_empty :: "('w \<Rightarrow> nat \<times> 'w) \<Rightarrow> 'w \<Rightarrow> nat \<Rightarrow> bool" where
  "first_empty pending w k \<longleftrightarrow>
     fst (pending (polls pending k w)) = 0 \<and> (\<forall>j<k. 0 < fst (pending (polls pending j w)))"

lemma first_empty_0: "first_empty pending w 0 \<longleftrightarrow> fst (pending w) = 0"
  by (simp add: first_empty_def)

lemma first_empty_Suc:
  "first_empty pending w (Suc k) \<longleftrightarrow> 0 < fst (pending w) \<and> first_empty pending (snd (pending w)) k"
  by (auto simp: first_empty_def less_Suc_eq_0_disj)

lemma wait_unfold:
  "waitForEmptyMempool pending w =
     (if 0 < fst (pending w) then waitForEmptyMempool pending (snd (pending w))
      else Some (snd (pending w)))"
  by (subst waitForEmptyMempool.simps) (simp add: case_prod_beta)

lemma wait_returns:
  "first_empty pending w k \<Longrightarrow> waitForEmptyMempool pending w = Some (polls pending (Suc k) w)"
proof (induction k arbitrary: w)
  case 0
  then show ?case by (subst wait_unfold) (simp add: first_empty_0)
next
  case (Suc k)
  then show ?case by (subst wait_unfold) (simp add: first_empty_Suc)
qed

lemma wait_result:
  assumes "waitForEmptyMempool pending w = Some w'"
  shows "\<exists>k. first_empty pending w k \<and> w' = polls pending (Suc k) w"
proof (rule waitForEmptyMempool.raw_induct
    [of "\<lambda>pending w w'. \<exists>k. first_empty pending w k \<and> w' = polls pending (Suc k) w", OF _ assms])
  fix wait pending' w w'
  assume IH: "\<And>pending w w'. wait pending w = Some w' \<Longrightarrow>
      \<exists>k. first_empty pending w k \<and> w' = polls pending (Suc k) w"
    and run: "(case pending' w of (n, w') \<Rightarrow> if 0 < n then wait pending' w' else Some w') = Some w'"
  show "\<exists>k. first_empty pending' w k \<and> w' = polls pending' (Suc k) w"
  proof (cases "0 < fst (pending' w)")
    case True
    then have "wait pending' (snd (pending' w)) = Some w'" using run by (simp add: case_prod_beta)
    then obtain k where "first_empty pending' (snd (pending' w)) k"
      "w' = polls pending' (Suc k) (snd (pending' w))" using IH by blast
    then show ?thesis using True by (intro exI [of _ "Suc k"]) (simp add: first_empty_Suc)
  next
    case False
    then show ?thesis using run by (intro exI [of _ 0]) (simp add: first_empty_0 case_prod_beta)
  qed
qed

lemma wait_keeps:
  assumes "\<And>w. g (snd (pending w)) = g w" and "waitForEmptyMempool pending w = Some w'"
  shows "g w' = g w"
proof -
  have "g (polls pending k w) = g w" for k
    by (induction k arbitrary: w) (simp_all add: assms(1))
  then show ?thesis using wait_result [OF assms(2)] by metis
qed

text \<open>
  C27: The wait for an empty mempool returns exactly when some poll finds no pending extrinsic, and then
  right after the first such poll.
\<close>
theorem waitForEmptyMempool_returns:
  "(waitForEmptyMempool pending w = Some w') =
     (\<exists>k. first_empty pending w k \<and> w' = polls pending (Suc k) w)"
  using wait_returns [of pending w] wait_result [of pending w w'] by auto

text \<open>
  \<open>waitForEvent\<close> gives the first event of the wanted kind among all events that arrive before
  the timeout, and \<open>-1\<close> when there is none.
\<close>
theorem waitForEvent_finds_first:
  "waitForEvent batches pallet name =
     (case List.find (is_event pallet name) (concat batches) of None \<Rightarrow> RMinus1 | Some e \<Rightarrow> RObj e)"
proof -
  have "first_match pallet name es = List.find (is_event pallet name) es" for es
    by (induction es) (simp_all add: is_event_def)
  moreover have "List.find P (xs @ ys) = (case List.find P xs of None \<Rightarrow> List.find P ys | Some x \<Rightarrow> Some x)"
    for P :: "event \<Rightarrow> bool" and xs ys by (induction xs) auto
  ultimately show ?thesis by (induction batches) (auto split: option.splits)
qed


section \<open>Success means inclusion\<close>

definition included_ok :: "attempt \<Rightarrow> bool" where
  "included_ok a =
     (case a of
        Subscribed ns \<Rightarrow>
          list_ex (\<lambda>n. (case n_status n of InBlock _ \<Rightarrow> True | _ \<Rightarrow> False) \<and> sees_success (n_records n)) ns
      | SendRejected _ \<Rightarrow> False)"

lemma zk_notification_success:
  "zk_notification b st n = (st', s) \<Longrightarrow> zv_success st' \<Longrightarrow>
     zv_success st \<or> included_ok (Subscribed [n])"
  by (auto simp: zk_notification_def Let_def included_ok_def split: ext_status.splits if_splits)

lemma zk_attempt_success:
  "zk_attempt b st a = (st', s) \<Longrightarrow> zv_success st' \<Longrightarrow> zv_success st \<or> included_ok a"
proof (cases a)
  case (Subscribed ns)
  have "zk_watch b st ns = (st', s) \<Longrightarrow> zv_success st' \<Longrightarrow> zv_success st \<or> included_ok (Subscribed ns)"
  proof (induction ns arbitrary: st)
    case (Cons n ns)
    obtain st1 s1 where n: "zk_notification b st n = (st1, s1)" by fastforce
    have "zv_success st1 \<or> included_ok (Subscribed ns)"
      using Cons n by (cases s1) auto
    then show ?case using zk_notification_success [OF n] by (auto simp: included_ok_def)
  qed simp
  then show "zk_attempt b st a = (st', s) \<Longrightarrow> zv_success st' \<Longrightarrow> zv_success st \<or> included_ok a"
    using Subscribed by simp
qed simp

lemma zk_loop_log:
  assumes "\<And>w. g (snd (f w)) = g w @ [fst (f w)]" and "\<And>w. g (snd (p w)) = g w"
  shows "\<exists>as. g (fst (zk_loop f p b flt st n v w)) = g w @ as \<and> length as \<le> n \<and>
    (\<forall>i. snd (zk_loop f p b flt st n v w) = Inr (RObj i) \<longrightarrow>
       v = RObj i \<or> zv_success st \<or> list_ex included_ok as)"
proof (induction n arbitrary: st v w)
  case 0
  show ?case by (simp add: zk_loop.simps)
next
  case (Suc n)
  show ?case
  proof (cases "zv_done st")
    case True
    then show ?thesis by (simp add: zk_loop_done)
  next
    case False
    obtain a w' where f: "f w = (a, w')" by fastforce
    have gw': "g w' = g w @ [a]" using assms(1) [of w] f by simp
    obtain st' s where z: "zk_attempt b st a = (st', s)" by fastforce
    note run = zk_loop.simps [of f p b flt st "Suc n" v w]
    consider (never) "s = None" | (resolve) j where "s = Some (Resolve j)"
      | (fail) e where "s = Some (Reject e)" "e \<noteq> RejStr ''retry''"
      | (retry) "s = Some (Reject (RejStr ''retry''))"
      by (metis not_None_eq settlement.exhaust)
    then show ?thesis
    proof cases
      case never
      then show ?thesis using False f z gw' by (intro exI [of _ "[a]"]) (simp add: run)
    next
      case resolve
      then have "zv_done st'" "zv_success st'" using zk_attempt_resolves z by metis+
      moreover have "zv_success st \<or> included_ok a"
        using zk_attempt_success [OF z] calculation by simp
      ultimately show ?thesis
        using resolve False f z gw' by (intro exI [of _ "[a]"]) (auto simp: run zk_loop_done)
    next
      case fail
      then show ?thesis
        using False f z gw' by (intro exI [of _ "[a]"]) (simp add: run zk_loop_done)
    next
      case retry
      show ?thesis
      proof (cases "waitForEmptyMempool p w'")
        case None
        then show ?thesis using retry False f z gw' by (intro exI [of _ "[a]"]) (simp add: run)
      next
        case (Some w'')
        then have gw'': "g w'' = g w @ [a]" using wait_keeps [of g p, OF assms(2)] gw' by simp
        let ?L = "zk_loop f p b flt (st'\<lparr>zv_done := False\<rparr>) n RUndefined w''"
        obtain as where "g (fst ?L) = g w'' @ as" "length as \<le> n"
          "\<forall>i. snd ?L = Inr (RObj i) \<longrightarrow> zv_success st' \<or> list_ex included_ok as"
          using Suc.IH [of "st'\<lparr>zv_done := False\<rparr>" RUndefined w''] by auto
        moreover have "zk_loop f p b flt st (Suc n) v w = ?L"
          using Some retry False f z by (simp add: run)
        ultimately show ?thesis
          using gw'' zk_attempt_success [OF z] by (intro exI [of _ "a # as"]) auto
      qed
    qed
  qed
qed

text \<open>
  In either mode a submission is made at most five times, and a successful result means that the node
  reported the success of the extrinsic in a block during one of these attempts.
\<close>
theorem zk_success_included:
  assumes "\<And>w. g (snd (f w)) = g w @ [fst (f w)]" and "\<And>w. g (snd (p w)) = g w"
    and "zk_handleTransactionLifecycle f p b flt w = (w', Inr (RObj i))"
  shows "\<exists>as. g w' = g w @ as \<and> length as \<le> 5 \<and> list_ex included_ok as"
  using zk_loop_log [of g f p b "case flt of None \<Rightarrow> \<lambda>_. True | Some f \<Rightarrow> f" "vars_ready False" 5 RMinus1 w,
      OF assms(1,2)] assms(3)
  by (auto simp: zk_handleTransactionLifecycle_def)

text \<open>
  A node that follows a script: the attempts to come and those made. It never has pending extrinsics.
\<close>

fun scripted :: "attempt list \<times> attempt list \<Rightarrow> attempt \<times> (attempt list \<times> attempt list)" where
  "scripted ([], made) = (Subscribed [], ([], made @ [Subscribed []]))"
| "scripted (a # as, made) = (a, (as, made @ [a]))"

definition empty_pool :: "'w \<Rightarrow> nat \<times> 'w" where
  "empty_pool w = (0, w)"

lemma wait_empty_pool: "waitForEmptyMempool empty_pool w = Some w"
  by (subst wait_unfold) (simp add: empty_pool_def)

definition notice :: "ext_status \<Rightarrow> event_record list \<Rightarrow> notification" where
  "notice status rs = \<lparr>n_blockNumber = Undef, n_records = rs, n_status = status\<rparr>"

definition success_record :: event_record where
  "success_record = \<lparr>rec_event = \<lparr>ev_section = ''system'', ev_method = ''ExtrinsicSuccess'', ev_data = []\<rparr>,
     rec_phase = 1\<rparr>"

lemma lifecycle_one_inclusion:
  "zk_handleTransactionLifecycle scripted empty_pool UntilInBlock None
     ([Subscribed [notice (InBlock h) [success_record]]], []) =
   (([], [Subscribed [notice (InBlock h) [success_record]]]),
    Inr (RObj \<lparr>zi_block = Val h, zi_events = [rec_event success_record]\<rparr>))"
proof -
  have "zk_spec (Suc n) False scripted empty_pool (\<lambda>_. True)
      ([Subscribed [notice (InBlock h) [success_record]]], []) =
    (([], [Subscribed [notice (InBlock h) [success_record]]]),
     Inr (RObj \<lparr>zi_block = Val h, zi_events = [rec_event success_record]\<rparr>))" for n
    by (simp add: outcome_def decisive_def decide_def notice_def sees_success_def is_success_def
        success_record_def zk_info_of_def)
  from this [of 4] show ?thesis by (simp add: zk_lifecycle_spec)
qed

theorem zk_success_included_witness:
  "\<exists>as. [Subscribed [notice (InBlock ''0xb'') [success_record]]] = [] @ as \<and> length as \<le> 5 \<and>
    list_ex included_ok as"
proof -
  have "snd (snd (scripted w)) = snd w @ [fst (scripted w)]" for w
    by (cases w rule: scripted.cases) simp_all
  moreover have "snd (snd (empty_pool w)) = snd w" for w :: "attempt list \<times> attempt list"
    by (simp add: empty_pool_def)
  ultimately show ?thesis
    using zk_success_included [of snd scripted empty_pool, OF _ _ lifecycle_one_inclusion] by fastforce
qed


section \<open>A success that stays\<close>

lemma zk_loop_retry:
  assumes "f w = (a, w')" and "\<not> zv_done st"
    and "zk_attempt b st a = (st', Some (Reject (RejStr ''retry'')))"
    and "waitForEmptyMempool p w' = Some w''"
  shows "zk_loop f p b flt st (Suc n) v w = zk_loop f p b flt (st'\<lparr>zv_done := False\<rparr>) n RUndefined w''"
  using assms by (simp add: zk_loop.simps [of f p b flt st "Suc n"])

lemma zk_loop_resolve:
  assumes "f w = (a, w')" and "\<not> zv_done st" and "zk_attempt b st a = (st', Some (Resolve i))"
  shows "zk_loop f p b flt st (Suc n) v w = (w', Inr (RObj (zk_info_of flt i)))"
  using assms zk_attempt_resolves [OF assms(3)]
  by (simp add: zk_loop.simps [of f p b flt st "Suc n"] zk_loop_done)

text \<open>
  In the mode \<open>Finalized\<close> a success is remembered across attempts. When an attempt is included with
  success, then dropped as invalid and submitted again, the second attempt counts as a success whatever
  its own inclusion reports; and the result has no block hash.
\<close>
theorem finalized_success_sticky:
  assumes "sees_success rs1"
  shows "zk_handleTransactionLifecycle scripted empty_pool UntilFinalized None
      ([Subscribed [notice Ready [], notice (InBlock h1) rs1, notice Invalid []],
        Subscribed [notice (InBlock h2) rs2, notice (Finalized h2) rs3]], []) =
    (([], [Subscribed [notice Ready [], notice (InBlock h1) rs1, notice Invalid []],
        Subscribed [notice (InBlock h2) rs2, notice (Finalized h2) rs3]]),
     Inr (RObj \<lparr>zi_block = Null, zi_events = map rec_event rs3\<rparr>))"
proof -
  let ?a1 = "Subscribed [notice Ready [], notice (InBlock h1) rs1, notice Invalid []]"
    and ?a2 = "Subscribed [notice (InBlock h2) rs2, notice (Finalized h2) rs3]"
  have a1: "zk_attempt UntilFinalized (vars_ready False) ?a1 =
      (\<lparr>zv_success = True, zv_done = True, zv_ready = True\<rparr>, Some (Reject (RejStr ''retry'')))"
    using assms by (simp add: notice_def zk_notification_def Let_def)
  have 1: "zk_loop scripted empty_pool UntilFinalized (\<lambda>_. True) (vars_ready False) (Suc n) RMinus1
      ([?a1, ?a2], []) =
    zk_loop scripted empty_pool UntilFinalized (\<lambda>_. True)
      \<lparr>zv_success = True, zv_done = False, zv_ready = True\<rparr> n RUndefined ([?a2], [?a1])" for n
    by (subst zk_loop_retry [OF _ _ a1]) (simp_all add: wait_empty_pool)
  have a2: "zk_attempt UntilFinalized \<lparr>zv_success = True, zv_done = False, zv_ready = True\<rparr> ?a2 =
      (\<lparr>zv_success = True, zv_done = True, zv_ready = True\<rparr>, Some (Resolve (Null, rs3)))"
    by (simp add: notice_def zk_notification_def Let_def)
  have 2: "zk_loop scripted empty_pool UntilFinalized (\<lambda>_. True)
      \<lparr>zv_success = True, zv_done = False, zv_ready = True\<rparr> (Suc n) RUndefined ([?a2], [?a1]) =
    (([], [?a1, ?a2]), Inr (RObj \<lparr>zi_block = Null, zi_events = map rec_event rs3\<rparr>))" for n
    by (subst zk_loop_resolve [OF _ _ a2]) (simp_all add: zk_info_of_def)
  from 1 [of 4] 2 [of 3] show ?thesis by (simp add: zk_handleTransactionLifecycle_def)
qed

theorem finalized_success_sticky_witness:
  "sees_success [success_record] \<and> \<not> sees_success [] \<and>
   snd (zk_handleTransactionLifecycle scripted empty_pool UntilFinalized None
      ([Subscribed [notice Ready [], notice (InBlock ''a'') [success_record], notice Invalid []],
        Subscribed [notice (InBlock ''b'') [], notice (Finalized ''b'') []]], [])) =
   Inr (RObj \<lparr>zi_block = Null, zi_events = []\<rparr>)"
proof -
  have s: "sees_success [success_record]"
    by (simp add: sees_success_def is_success_def success_record_def)
  from finalized_success_sticky [OF s, of "''a''" "''b''" "[]" "[]"] s show ?thesis
    by (simp add: sees_success_def)
qed


section \<open>Exhausted attempts\<close>

lemma zk_spec_exhausted:
  assumes "\<And>w r. \<exists>r'. outcome flt r (fst (f w)) = ZRetry r'"
    and "\<And>w. \<exists>w'. waitForEmptyMempool p w = Some w'"
  shows "snd (zk_spec n r f p flt w) = Inr RUndefined"
proof (induction n arbitrary: r w)
  case (Suc n)
  obtain a w' where f: "f w = (a, w')" by fastforce
  obtain r' where "outcome flt r a = ZRetry r'" using assms(1) [of r w] f by auto
  moreover obtain w'' where "waitForEmptyMempool p w' = Some w''" using assms(2) by blast
  ultimately show ?case using Suc.IH f by simp
qed simp

text \<open>
  When the node refuses every submission of a proof with the error 1014 and its mempool always
  empties, \<open>submitProof\<close> gives \<open>undefined\<close> and not \<open>-1\<close>, on which \<open>receivedEvents\<close> fails with a \<open>TypeError\<close>
  where it would answer false for \<open>-1\<close>.
\<close>
theorem submitProof_exhausted:
  assumes "\<And>w s. \<exists>m. fst (z_submit api s w) = SendRejected (SendError (Some 1014) m)"
    and "\<And>w. \<exists>w'. waitForEmptyMempool (z_pending api) w = Some w'"
  shows "snd (submitProof api pallet signer args w) = Inr RUndefined \<and>
    receivedEvents (Submission RUndefined) = Inl (TypeError ''Cannot read properties of undefined'') \<and>
    receivedEvents (Submission RMinus1) = Inr False"
proof -
  have "\<exists>r'. outcome flt r (fst (z_submit api s w)) = ZRetry r'" for flt r s w
    using assms(1) [of s w] by (auto simp: outcome_def)
  then show ?thesis
    by (simp add: submitProof_def zk_submitExtrinsic_def zk_lifecycle_spec
        zk_spec_exhausted [OF _ assms(2)] receivedEvents_def)
qed

theorem submitProof_exhausted_witness:
  "snd (submitProof \<lparr>z_submit = (\<lambda>_ w. (SendRejected (SendError (Some 1014) ''low''), w)), z_pending = empty_pool\<rparr>
     ''settlementGroth16Pallet'' ''ALICE'' [] ()) = Inr RUndefined"
  using submitProof_exhausted [of "\<lparr>z_submit = (\<lambda>_ w. (SendRejected (SendError (Some 1014) ''low''), w)),
      z_pending = empty_pool\<rparr>" "''settlementGroth16Pallet''" "''ALICE''" "[]" "()"]
  by (simp add: wait_empty_pool)


section \<open>The types of the RPC methods\<close>

text \<open>The name inside \<open>Vec<name>\<close> and \<open>[name; n]\<close>.\<close>

definition base_type :: "string \<Rightarrow> string" where
  "base_type t =
     (let u = (if startsWith t ''Vec<'' then drop 4 t else dropWhile (\<lambda>c. c = CHR ''['') t)
      in takeWhile (\<lambda>c. c \<notin> {CHR '';'', CHR ''>''}) u)"

fun refers_to :: "type_def \<Rightarrow> string list" where
  "refers_to (Struct fs) = map (\<lambda>f. base_type (snd f)) fs"
| "refers_to (Enum vs) = map base_type (List.map_filter snd vs)"

definition builtin_types :: "string list" where
  "builtin_types = [''H256'', ''BlockHash'', ''Bytes'', ''u8'', ''u32'', ''u64'', ''U256'']"

definition known_type :: "string \<Rightarrow> bool" where
  "known_type t \<longleftrightarrow> t \<in> set builtin_types \<or> t \<in> fst ` set zkvTypes"

text \<open>
  The tables of types and RPC methods are closed: every type that a parameter, a result, a field or a
  variant refers to is a type of the chain library or defined in the table, and no type and no RPC method is
  defined twice.
\<close>
theorem zkv_types_closed:
  "list_all (\<lambda>(name, d). list_all known_type (refers_to d)) zkvTypes \<and>
   list_all (\<lambda>m. known_type (base_type (rpc_type m)) \<and>
     list_all (\<lambda>p. known_type (base_type (snd p))) (rpc_params m)) zkvRpc \<and>
   distinct (map fst zkvTypes) \<and> distinct (map (\<lambda>m. (rpc_section m, rpc_name m)) zkvRpc)"
proof -
  have "list_all (\<lambda>(name, d). list_all known_type (refers_to d)) zkvTypes" by code_simp
  moreover have "list_all (\<lambda>m. known_type (base_type (rpc_type m)) \<and>
     list_all (\<lambda>p. known_type (base_type (snd p))) (rpc_params m)) zkvRpc" by code_simp
  moreover have "distinct (map fst zkvTypes)" by code_simp
  moreover have "distinct (map (\<lambda>m. (rpc_section m, rpc_name m)) zkvRpc)" by code_simp
  ultimately show ?thesis by blast
qed

lemma init_api_once:
  assumes "init_api nodes name m = (m', Inr a)"
  shows "init_api nodes' name' m' = (m', Inr a)"
  using assms by (auto simp: init_api_def split: option.splits)

end
