(* ===== verification/TestFlow.thy ===== *)
theory TestFlow
  imports ZkvLib
begin

text \<open>
  The shape of the zombienet test scripts: a sequence of operations of the test library with early returns
  of a return code, and the readings of submission results that the scripts share.
\<close>


section \<open>Early returns\<close>

datatype ('c, 'a) flow = Return 'c | Go 'a

definition flow_bind ::
  "('w, ('c, 'a) flow) act \<Rightarrow> ('a \<Rightarrow> ('w, ('c, 'b) flow) act) \<Rightarrow> ('w, ('c, 'b) flow) act"
where
  "flow_bind m f = act_bind m (\<lambda>r. case r of Return c \<Rightarrow> act_return (Return c) | Go x \<Rightarrow> f x)"

definition flow_do :: "('w, 'a) act \<Rightarrow> ('w, ('c, 'a) flow) act" where
  "flow_do m = act_bind m (\<lambda>x. act_return (Go x))"

definition require :: "bool \<Rightarrow> 'c \<Rightarrow> ('w, ('c, unit) flow) act" where
  "require b c = act_return (if b then Go () else Return c)"

text \<open>The value that a script returns in the end.\<close>

definition flow_result :: "('w, ('c, 'c) flow) act \<Rightarrow> ('w, 'c) act" where
  "flow_result m = act_bind m (\<lambda>r. case r of Return c \<Rightarrow> act_return c | Go c \<Rightarrow> act_return c)"

definition never_returns :: "'c \<Rightarrow> ('w, ('c, 'a) flow) act \<Rightarrow> bool" where
  "never_returns c m \<longleftrightarrow> (\<forall>w w'. m w \<noteq> (w', Inr (Return c)))"

named_theorems flow_intros \<open>which codes a part of a script cannot return\<close>

lemma ex_flow: "(\<exists>r. P r) \<longleftrightarrow> (\<exists>c. P (Return c)) \<or> (\<exists>x. P (Go x))"
  by (metis flow.exhaust)

lemma flow_bind_Go:
  "flow_bind m f w = (w'', Inr (Go y)) \<longleftrightarrow> (\<exists>w' x. m w = (w', Inr (Go x)) \<and> f x w' = (w'', Inr (Go y)))"
  by (auto simp: flow_bind_def act_bind_eq_Inr ex_flow)

lemma flow_bind_Return:
  "flow_bind m f w = (w'', Inr (Return c)) \<longleftrightarrow>
     m w = (w'', Inr (Return c)) \<or> (\<exists>w' x. m w = (w', Inr (Go x)) \<and> f x w' = (w'', Inr (Return c)))"
  by (auto simp: flow_bind_def act_bind_eq_Inr ex_flow)

lemma flow_do_Go: "flow_do m w = (w', Inr (Go x)) \<longleftrightarrow> m w = (w', Inr x)"
  by (auto simp: flow_do_def act_bind_eq_Inr)

lemma flow_do_not_Return: "flow_do m w \<noteq> (w', Inr (Return c))"
  by (auto simp: flow_do_def act_bind_eq_Inr)

lemma require_Go: "require b c w = (w', Inr (Go u)) \<longleftrightarrow> b \<and> w' = w"
  by (auto simp: require_def)

lemma require_Return: "require b c w = (w', Inr (Return d)) \<longleftrightarrow> \<not> b \<and> w' = w \<and> d = c"
  by (auto simp: require_def)

lemmas flow_Go = flow_bind_Go flow_do_Go require_Go

text \<open>A script that returns \<open>c\<close> has left a part that cannot return \<open>c\<close> at its end.\<close>

lemma flow_result_bind:
  assumes "flow_result (flow_bind m f) w = (w'', Inr c)" and "never_returns c m"
  obtains w' x where "m w = (w', Inr (Go x))" and "flow_result (f x) w' = (w'', Inr c)"
proof -
  obtain w1 r where r: "flow_bind m f w = (w1, Inr r)"
    "(case r of Return c \<Rightarrow> act_return c | Go c \<Rightarrow> act_return c) w1 = (w'', Inr c :: _ res)"
    using assms(1) by (auto simp: flow_result_def act_bind_eq_Inr)
  show thesis
  proof (cases r)
    case (Return d)
    then show thesis
      using r assms(2) that by (auto simp: flow_bind_Return never_returns_def flow_result_def act_bind_def)
  next
    case (Go d)
    then show thesis using r that by (auto simp: flow_bind_Go flow_result_def act_bind_def)
  qed
qed

lemma never_returns_do [flow_intros]: "never_returns c (flow_do m)"
  by (simp add: never_returns_def flow_do_not_Return)

lemma never_returns_require [flow_intros]: "c \<noteq> d \<Longrightarrow> never_returns c (require b d)"
  by (auto simp: never_returns_def require_Return)

lemma never_returns_bind [flow_intros]:
  assumes "never_returns c m" and "\<And>x. never_returns c (f x)"
  shows "never_returns c (flow_bind m f)"
  using assms by (auto simp: never_returns_def flow_bind_Return)

lemma never_returns_fail [flow_intros]: "never_returns c (act_fail e)"
  by (simp add: never_returns_def)


section \<open>Reading the result of a submission\<close>

text \<open>\<open>data.events\<close> followed by an access to it: there is none on \<open>-1\<close> and on \<open>undefined\<close>.\<close>

fun events_of :: "zk_info retval \<Rightarrow> event list res" where
  "events_of (RObj i) = Inr (zi_events i)"
| "events_of RMinus1 = Inl (TypeError ''Cannot read properties of undefined'')"
| "events_of RUndefined = Inl (TypeError ''Cannot read properties of undefined'')"

definition with_method :: "string \<Rightarrow> event list \<Rightarrow> event list" where
  "with_method m es = filter (\<lambda>e. ev_method e = m) es"

text \<open>\<open>event.data[k]\<close>, on an event that may be \<open>undefined\<close>.\<close>

definition field :: "event \<Rightarrow> nat \<Rightarrow> string nullable" where
  "field e k = elem_at (ev_data e) k"

fun field_of :: "event nullable \<Rightarrow> nat \<Rightarrow> string nullable res" where
  "field_of (Val e) k = Inr (field e k)"
| "field_of _ k = Inl (TypeError ''Cannot read properties of undefined'')"

fun to_text :: "string nullable \<Rightarrow> string res" where
  "to_text (Val s) = Inr s"
| "to_text _ = Inl (TypeError ''Cannot read properties of undefined'')"

text \<open>A value of an event as an argument of a call.\<close>

fun codec_arg :: "string nullable \<Rightarrow> zarg" where
  "codec_arg (Val s) = Arg (JStr s)"
| "codec_arg Null = Arg JNull"
| "codec_arg Undef = UndefArg"

definition flow_lift :: "'a res \<Rightarrow> ('w, ('c, 'a) flow) act" where
  "flow_lift r = flow_do (act_lift r)"

text \<open>\<open>if (!receivedEvents(data)) return code\<close>, and its opposite.\<close>

definition require_events :: "zk_info retval \<Rightarrow> 'c \<Rightarrow> ('w, ('c, unit) flow) act" where
  "require_events data c = flow_bind (flow_lift (receivedEvents (Submission data))) (\<lambda>ok. require ok c)"

definition reject_events :: "zk_info retval \<Rightarrow> 'c \<Rightarrow> ('w, ('c, unit) flow) act" where
  "reject_events data c = flow_bind (flow_lift (receivedEvents (Submission data))) (\<lambda>ok. require (\<not> ok) c)"

lemma flow_lift_Go: "flow_lift r w = (w', Inr (Go x)) \<longleftrightarrow> r = Inr x \<and> w' = w"
  by (auto simp: flow_lift_def flow_do_Go)

lemma require_events_Go:
  "require_events data c w = (w', Inr (Go u)) \<longleftrightarrow> w' = w \<and> (\<exists>i. data = RObj i \<and> zi_events i \<noteq> [])"
  by (cases data) (auto simp: require_events_def flow_bind_Go flow_lift_Go require_Go receivedEvents_def)

lemma reject_events_Go:
  "reject_events data c w = (w', Inr (Go u)) \<longleftrightarrow>
     w' = w \<and> (data = RMinus1 \<or> (\<exists>i. data = RObj i \<and> zi_events i = []))"
  by (cases data) (auto simp: reject_events_def flow_bind_Go flow_lift_Go require_Go receivedEvents_def)

lemma never_returns_lift [flow_intros]: "never_returns c (flow_lift r)"
  unfolding flow_lift_def by (rule never_returns_do)

lemma never_returns_require_events [flow_intros]: "c \<noteq> d \<Longrightarrow> never_returns c (require_events data d)"
  unfolding require_events_def by (intro flow_intros) simp

lemma never_returns_reject_events [flow_intros]: "c \<noteq> d \<Longrightarrow> never_returns c (reject_events data d)"
  unfolding reject_events_def by (intro flow_intros) simp


section \<open>A node that answers from a list\<close>

text \<open>
  A concrete node for examples: the world is the list of the answers to come. An answer is a list of events
  that follow the success of the extrinsic, or none for an extrinsic that is included and fails.
\<close>

type_synonym replies = "event list option list"

definition make_event :: "string \<Rightarrow> string \<Rightarrow> string list \<Rightarrow> event" where
  "make_event sec m d = \<lparr>ev_section = sec, ev_method = m, ev_data = d\<rparr>"

fun answer_records :: "event list option \<Rightarrow> event_record list" where
  "answer_records None = []"
| "answer_records (Some es) = success_record # map (\<lambda>e. \<lparr>rec_event = e, rec_phase = 1\<rparr>) es"

fun reply_submit :: "zsubmission \<Rightarrow> replies \<Rightarrow> attempt \<times> replies" where
  "reply_submit s [] = (Subscribed [], [])"
| "reply_submit s (r # rs) = (Subscribed [notice (InBlock ''0xb'') (answer_records r)], rs)"

definition reply_api :: "replies zapi" where
  "reply_api = \<lparr>z_submit = reply_submit, z_pending = empty_pool\<rparr>"

named_theorems reply_simps \<open>the operations of the test library on the listed answers\<close>

lemma success_answer: "sees_success (answer_records (Some es))"
  by (simp add: sees_success_def is_success_def success_record_def)

lemma submit_answered [reply_simps]:
  "zk_submitExtrinsic reply_api tx signer UntilInBlock flt (Some es # rs) =
     (rs, Inr (RObj \<lparr>zi_block = Val ''0xb'', zi_events =
        filter (case flt of None \<Rightarrow> (\<lambda>_. True) | Some g \<Rightarrow> g) (rec_event success_record # es)\<rparr>))"
proof -
  have "zk_spec (Suc n) False (reply_submit s) empty_pool g (Some es # rs) =
      (rs, Inr (RObj \<lparr>zi_block = Val ''0xb'', zi_events = filter g (rec_event success_record # es)\<rparr>))" for n s g
    using success_answer [of es]
    by (simp add: outcome_def decisive_def decide_def notice_def zk_info_of_def comp_def)
  from this [of 4] show ?thesis by (simp add: zk_submitExtrinsic_def reply_api_def zk_lifecycle_spec)
qed

lemma submit_refused [reply_simps]:
  "zk_submitExtrinsic reply_api tx signer UntilInBlock flt (None # rs) = (rs, Inr RMinus1)"
proof -
  have "zk_spec (Suc n) False (reply_submit s) empty_pool g (None # rs) = (rs, Inr RMinus1)" for n s g
    by (simp add: outcome_def decisive_def decide_def notice_def sees_success_def)
  from this [of 4] show ?thesis by (simp add: zk_submitExtrinsic_def reply_api_def zk_lifecycle_spec)
qed

lemmas operation_defs = submitProof_def registerDomain_def unregisterDomain_def holdDomain_def aggregate_def
  allowlistProofSubmitters_def removeProofSubmitters_def sudoRegisterCA_def updateCrl_def registerVk_def

lemmas event_defs = make_event_def success_record_def in_section_def is_event_def proof_event_def
  with_method_def field_def elem_at_def receivedEvents_def

lemmas flow_defs = flow_bind_def flow_do_def flow_lift_def require_def require_events_def reject_events_def act_bind_def

end
