(* ===== verification/Merkle.thy ===== *)
theory Merkle
  imports Prelude "HOL-Library.Word"
begin

text \<open>
  The check of an aggregation proof, \<open>verifyProof\<close> and \<open>stripHexPrefix\<close> of
  \<open>zombienet-tests/js_scripts/0012-aggregate_proofs.js\<close>, against a reference binary Merkle tree in which the
  odd last node of a row moves up unchanged. The package \<open>keccak256\<close> is the parameter \<open>K\<close>, from the text
  that is hashed to the hexadecimal digits of the digest.
\<close>


section \<open>The check of a proof\<close>

text \<open>The result of the RPC method \<open>aggregate_statementPath\<close>, with its hashes as the text that \<open>toString\<close> gives.\<close>

record merkle_path =
  mp_root :: string
  mp_proof :: "string list"
  mp_number_of_leaves :: "32 word"
  mp_leaf_index :: "32 word"
  mp_leaf :: string

fun stripHexPrefix :: "string \<Rightarrow> string" where
  "stripHexPrefix (CHR ''0'' # CHR ''x'' # s) = s"
| "stripHexPrefix s = s"

record verify_vars =
  vv_position :: int
  vv_width :: int
  vv_hash :: string

definition on_right :: "verify_vars \<Rightarrow> bool" where
  "on_right st \<longleftrightarrow> vv_position st mod 2 = 1 \<or> vv_position st + 1 = vv_width st"

definition verify_input :: "string \<Rightarrow> verify_vars \<Rightarrow> string" where
  "verify_input p st =
     (if on_right st then ''0x'' @ stripHexPrefix p @ vv_hash st
      else ''0x'' @ vv_hash st @ stripHexPrefix p)"

definition verify_step :: "(string \<Rightarrow> string) \<Rightarrow> string \<Rightarrow> verify_vars \<Rightarrow> verify_vars" where
  "verify_step K p st =
     \<lparr>vv_position = vv_position st div 2, vv_width = (vv_width st - 1) div 2 + 1,
      vv_hash = K (verify_input p st)\<rparr>"

definition verify_start :: "(string \<Rightarrow> string) \<Rightarrow> merkle_path \<Rightarrow> verify_vars" where
  "verify_start K proof =
     \<lparr>vv_position = uint (mp_leaf_index proof), vv_width = uint (mp_number_of_leaves proof),
      vv_hash = K (mp_leaf proof)\<rparr>"

definition verifyProof :: "(string \<Rightarrow> string) \<Rightarrow> merkle_path \<Rightarrow> string \<Rightarrow> bool" where
  "verifyProof K proof publishedRoot \<longleftrightarrow>
     stripHexPrefix publishedRoot = vv_hash (fold (verify_step K) (mp_proof proof) (verify_start K proof))"


section \<open>The reference tree\<close>

definition join :: "(string \<Rightarrow> string) \<Rightarrow> string \<Rightarrow> string \<Rightarrow> string" where
  "join K a b = K (''0x'' @ a @ b)"

fun next_row :: "(string \<Rightarrow> string) \<Rightarrow> string list \<Rightarrow> string list" where
  "next_row K (a # b # r) = join K a b # next_row K r"
| "next_row K r = r"

lemma length_next_row: "length (next_row K r) = (length r + 1) div 2"
  by (induction K r rule: next_row.induct) auto

lemma next_row_shorter: "2 \<le> length r \<Longrightarrow> length (next_row K r) < length r"
  by (simp add: length_next_row)

lemma nth_next_row:
  "j < length (next_row K r) \<Longrightarrow>
     next_row K r ! j = (if 2 * j + 1 < length r then join K (r ! (2 * j)) (r ! (2 * j + 1)) else r ! (2 * j))"
proof (induction K r arbitrary: j rule: next_row.induct)
  case (1 K a b r)
  then show ?case by (cases j) auto
qed auto

text \<open>The root of the tree above a row; the digest of the empty tree is zero.\<close>

function merkle_root :: "(string \<Rightarrow> string) \<Rightarrow> string list \<Rightarrow> string" where
  "merkle_root K r =
     (if length r < 2 then (case r of [] \<Rightarrow> replicate 64 CHR ''0'' | h # _ \<Rightarrow> h)
      else merkle_root K (next_row K r))"
  by pat_completeness auto
termination
  by (relation "measure (length \<circ> snd)") (simp_all add: next_row_shorter)

text \<open>The siblings on the way from the node \<open>i\<close> of a row to the root; a node that moves up has none.\<close>

function siblings :: "(string \<Rightarrow> string) \<Rightarrow> nat \<Rightarrow> string list \<Rightarrow> string list" where
  "siblings K i r =
     (if length r < 2 then []
      else (if odd i then [r ! (i - 1)] else if i + 1 < length r then [r ! (i + 1)] else [])
        @ siblings K (i div 2) (next_row K r))"
  by pat_completeness auto
termination
  by (relation "measure (length \<circ> snd \<circ> snd)") (simp_all add: next_row_shorter)

declare merkle_root.simps [simp del] siblings.simps [simp del]

text \<open>All texts that are hashed above a row, and all nodes from the row to the root.\<close>

fun row_inputs :: "string list \<Rightarrow> string list" where
  "row_inputs (a # b # r) = (''0x'' @ a @ b) # row_inputs r"
| "row_inputs r = []"

function tree_inputs :: "(string \<Rightarrow> string) \<Rightarrow> string list \<Rightarrow> string list" where
  "tree_inputs K r = (if length r < 2 then [] else row_inputs r @ tree_inputs K (next_row K r))"
  by pat_completeness auto
termination
  by (relation "measure (length \<circ> snd)") (simp_all add: next_row_shorter)

declare tree_inputs.simps [simp del]

text \<open>All texts that \<open>verifyProof\<close> hashes.\<close>

fun verify_inputs :: "(string \<Rightarrow> string) \<Rightarrow> string list \<Rightarrow> verify_vars \<Rightarrow> string list" where
  "verify_inputs K [] st = []"
| "verify_inputs K (p # ps) st = verify_input p st # verify_inputs K ps (verify_step K p st)"


section \<open>Every statement of a tree is accepted\<close>

text \<open>
  The check does not see the levels at which a node moves up, so its position is only right up to
  these: it is the position in the row, or both are the last of their row.
\<close>

definition tracks :: "verify_vars \<Rightarrow> nat \<Rightarrow> string list \<Rightarrow> bool" where
  "tracks st i r \<longleftrightarrow> i < length r \<and> vv_hash st = r ! i \<and>
     (vv_position st = int i \<and> vv_width st = int (length r) \<or>
      vv_position st + 1 = vv_width st \<and> i + 1 = length r)"

lemma tracks_promoted:
  assumes "tracks st i r" and "2 \<le> length r" and "even i" and "\<not> i + 1 < length r"
  shows "tracks st (i div 2) (next_row K r)"
proof -
  from assms obtain k where k: "i = 2 * k" by (auto elim: evenE)
  have n: "length r = 2 * k + 1" using assms k by (simp add: tracks_def)
  then have "k < length (next_row K r)" by (simp add: length_next_row)
  with assms k n show ?thesis by (auto simp: tracks_def nth_next_row length_next_row)
qed

lemma tracks_step:
  assumes t: "tracks st i r" and "2 \<le> length r" and s: "odd i \<or> i + 1 < length r"
  shows "tracks (verify_step K (''0x'' @ (if odd i then r ! (i - 1) else r ! (i + 1))) st) (i div 2) (next_row K r)"
proof (cases "odd i")
  case True
  then obtain k where k: "i = 2 * k + 1" by (auto elim: oddE)
  have lt: "2 * k + 1 < length r" using t k by (simp add: tracks_def)
  then have j: "k < length (next_row K r)" by (simp add: length_next_row)
  have "on_right st" using t k by (auto simp: tracks_def on_right_def)
  with t k lt j show ?thesis
    by (auto simp: tracks_def verify_step_def verify_input_def nth_next_row length_next_row join_def)
next
  case False
  then obtain k where k: "i = 2 * k" by (auto elim: evenE)
  have lt: "2 * k + 1 < length r" using s k False by simp
  then have j: "k < length (next_row K r)" by (simp add: length_next_row)
  have st: "vv_position st = int i" "vv_width st = int (length r)" using t k lt by (auto simp: tracks_def)
  then have "\<not> on_right st" using k lt by (auto simp: on_right_def)
  with t k lt j st show ?thesis
    by (auto simp: tracks_def verify_step_def verify_input_def nth_next_row length_next_row join_def)
qed

lemma siblings_lead_to_root:
  assumes "tracks st i r"
  shows "vv_hash (fold (verify_step K) (map ((@) ''0x'') (siblings K i r)) st) = merkle_root K r"
  using assms
proof (induction K i r arbitrary: st rule: siblings.induct)
  case (1 K i r)
  show ?case
  proof (cases "length r < 2")
    case True
    then obtain h where "r = [h]" "i = 0" using 1(2) by (cases r) (auto simp: tracks_def)
    then show ?thesis using 1(2) by (simp add: merkle_root.simps siblings.simps [of K 0] tracks_def)
  next
    case False
    note IH = 1(1) [OF False]
    show ?thesis
    proof (cases "odd i \<or> i + 1 < length r")
      case True
      then have "siblings K i r =
          (if odd i then r ! (i - 1) else r ! (i + 1)) # siblings K (i div 2) (next_row K r)"
        using False by (auto simp: siblings.simps [of K i r])
      then show ?thesis
        using IH [OF tracks_step [OF 1(2) _ True]] False by (simp add: merkle_root.simps [of K r])
    next
      case promoted: False
      then have "siblings K i r = siblings K (i div 2) (next_row K r)"
        using False by (simp add: siblings.simps [of K i r])
      then show ?thesis
        using IH [OF tracks_promoted [OF 1(2)]] promoted False by (simp add: merkle_root.simps [of K r])
    qed
  qed
qed

text \<open>The path that belongs to a leaf.\<close>

definition path_of :: "(string \<Rightarrow> string) \<Rightarrow> string list \<Rightarrow> nat \<Rightarrow> merkle_path" where
  "path_of K leaves i =
     \<lparr>mp_root = ''0x'' @ merkle_root K (map K leaves),
      mp_proof = map ((@) ''0x'') (siblings K i (map K leaves)),
      mp_number_of_leaves = of_nat (length leaves), mp_leaf_index = of_nat i, mp_leaf = leaves ! i\<rparr>"

lemma path_of_accepted:
  assumes "i < length leaves" and "length leaves < 2 ^ 32"
  shows "verifyProof K (path_of K leaves i) (''0x'' @ merkle_root K (map K leaves))"
proof -
  have "uint (of_nat m :: 32 word) = int m" if "m < 2 ^ 32" for m
    using that by (simp add: unsigned_of_nat take_bit_nat_eq_self uint_nat)
  then have "tracks (verify_start K (path_of K leaves i)) i (map K leaves)"
    using assms by (simp add: tracks_def verify_start_def path_of_def)
  then show ?thesis
    using siblings_lead_to_root by (simp add: verifyProof_def path_of_def)
qed

text \<open>
  C33: The check agrees with the reference tree: for every list of fewer than \<open>2 ^ 32\<close> leaves and each of
  its positions, balanced or not, the path of siblings that leads to the root is accepted for the
  root, whatever the hash function.
\<close>
theorem verifyProof_complete:
  assumes "i < length leaves" and "length leaves < 2 ^ 32"
  shows "verifyProof K \<lparr>mp_root = published, mp_proof = map ((@) ''0x'') (siblings K i (map K leaves)),
       mp_number_of_leaves = of_nat (length leaves), mp_leaf_index = of_nat i, mp_leaf = leaves ! i\<rparr>
     (''0x'' @ merkle_root K (map K leaves))"
  using path_of_accepted [OF assms] by (simp add: verifyProof_def path_of_def verify_start_def)

theorem verifyProof_complete_witness:
  "verifyProof rev \<lparr>mp_root = [], mp_proof = map ((@) ''0x'') (siblings rev 2 (map rev [''ab'', ''cd'', ''ef''])),
     mp_number_of_leaves = 3, mp_leaf_index = 2, mp_leaf = ''ef''\<rparr>
     (''0x'' @ merkle_root rev (map rev [''ab'', ''cd'', ''ef'']))"
  using verifyProof_complete [of 2 "[''ab'', ''cd'', ''ef'']" rev "[]"] by simp


section \<open>Only statements of the tree are accepted\<close>

lemma set_next_row: "x \<in> set (next_row K r) \<Longrightarrow> x \<in> set r \<or> (\<exists>a b. x = join K a b \<and> a \<in> set r \<and> b \<in> set r
    \<and> ''0x'' @ a @ b \<in> set (row_inputs r))"
  by (induction K r rule: next_row.induct) auto

function nodes :: "(string \<Rightarrow> string) \<Rightarrow> string list \<Rightarrow> string set" where
  "nodes K r = (if length r < 2 then set r else set r \<union> nodes K (next_row K r))"
  by pat_completeness auto
termination
  by (relation "measure (length \<circ> snd)") (simp_all add: next_row_shorter)

declare nodes.simps [simp del]

lemma root_in_nodes: "r \<noteq> [] \<Longrightarrow> merkle_root K r \<in> nodes K r"
proof (induction K r rule: nodes.induct)
  case (1 K r)
  show ?case
  proof (cases "length r < 2")
    case True
    then show ?thesis using 1(2) by (cases r) (auto simp: merkle_root.simps nodes.simps [of K])
  next
    case False
    moreover have "next_row K r \<noteq> []" using False length_next_row [of K r] by (cases "next_row K r") auto
    ultimately show ?thesis using 1(1) by (simp add: merkle_root.simps [of K r] nodes.simps [of K r])
  qed
qed

lemma row_in_nodes: "set r \<subseteq> nodes K r"
  by (subst nodes.simps) auto

lemma node_cases:
  assumes "x \<in> nodes K r"
  shows "x \<in> set r \<or> (\<exists>a b. x = join K a b \<and> a \<in> nodes K r \<and> b \<in> nodes K r \<and>
    ''0x'' @ a @ b \<in> set (tree_inputs K r))"
  using assms
proof (induction K r rule: nodes.induct)
  case (1 K r)
  show ?case
  proof (cases "length r < 2")
    case True
    then show ?thesis using 1(2) by (simp add: nodes.simps [of K r])
  next
    case False
    have sub: "nodes K (next_row K r) \<subseteq> nodes K r"
      and inp: "set (tree_inputs K r) = set (row_inputs r) \<union> set (tree_inputs K (next_row K r))"
      using False by (auto simp: nodes.simps [of K r] tree_inputs.simps [of K r])
    consider "x \<in> set r" | "x \<in> nodes K (next_row K r)"
      using 1(2) False by (auto simp: nodes.simps [of K r])
    then show ?thesis
    proof cases
      case 2
      then consider "x \<in> set (next_row K r)"
        | "\<exists>a b. x = join K a b \<and> a \<in> nodes K (next_row K r) \<and> b \<in> nodes K (next_row K r) \<and>
            ''0x'' @ a @ b \<in> set (tree_inputs K (next_row K r))"
        using 1(1) [OF False] by blast
      then show ?thesis
      proof cases
        case 1
        then show ?thesis using set_next_row [of x K r] row_in_nodes [of r K] inp by blast
      next
        case 2
        then show ?thesis using sub inp by blast
      qed
    qed blast
  qed
qed

text \<open>Two different texts with the same digest, one from each list.\<close>

definition collision :: "(string \<Rightarrow> string) \<Rightarrow> string list \<Rightarrow> string list \<Rightarrow> bool" where
  "collision K xs ys \<longleftrightarrow> (\<exists>x \<in> set xs. \<exists>y \<in> set ys. x \<noteq> y \<and> K x = K y)"

lemma collisionI: "x \<in> set xs \<Longrightarrow> y \<in> set ys \<Longrightarrow> x \<noteq> y \<Longrightarrow> K x = K y \<Longrightarrow> collision K xs ys"
  unfolding collision_def by blast

lemma collision_mono: "collision K xs ys \<Longrightarrow> set xs \<subseteq> set xs' \<Longrightarrow> collision K xs' ys"
  unfolding collision_def by blast

abbreviation all_inputs :: "(string \<Rightarrow> string) \<Rightarrow> string list \<Rightarrow> string list" where
  "all_inputs K leaves \<equiv> leaves @ tree_inputs K (map K leaves)"

definition h256_text :: "string \<Rightarrow> bool" where
  "h256_text s \<longleftrightarrow> length s = 66 \<and> take 2 s = ''0x''"

lemma h256_textE:
  assumes "h256_text s"
  obtains d where "s = ''0x'' @ d" and "length d = 64"
proof
  show "s = ''0x'' @ drop 2 s" using assms append_take_drop_id [of 2 s] by (simp add: h256_text_def)
  show "length (drop 2 s) = 64" using assms by (simp add: h256_text_def)
qed

lemma node_lengths:
  assumes "\<And>x. length (K x) = 64" and "x \<in> nodes K (map K leaves)"
  shows "length x = 64"
  using node_cases [OF assms(2)] assms(1) by (auto simp: join_def)

lemma step_back:
  assumes len: "\<And>x. length (K x) = 64" and leaves: "\<forall>l \<in> set leaves. h256_text l"
    and p: "h256_text p" and h: "length (vv_hash st) = 64"
    and node: "vv_hash (verify_step K p st) \<in> nodes K (map K leaves)"
  shows "vv_hash st \<in> nodes K (map K leaves) \<or> collision K [verify_input p st] (all_inputs K leaves)"
proof -
  obtain d where d: "p = ''0x'' @ d" "length d = 64" using p by (rule h256_textE)
  have inp: "length (verify_input p st) = 130" using d h by (simp add: verify_input_def)
  from node_cases [OF node] show ?thesis
  proof (elim disjE exE conjE)
    assume "vv_hash (verify_step K p st) \<in> set (map K leaves)"
    then obtain l where l: "l \<in> set leaves" "K (verify_input p st) = K l" by (auto simp: verify_step_def)
    then have "verify_input p st \<noteq> l" using leaves inp by (auto simp: h256_text_def)
    then show ?thesis using l by (auto intro: collisionI)
  next
    fix a b
    assume j: "vv_hash (verify_step K p st) = join K a b" and ab: "a \<in> nodes K (map K leaves)" "b \<in> nodes K (map K leaves)"
      and i: "''0x'' @ a @ b \<in> set (tree_inputs K (map K leaves))"
    have "K (verify_input p st) = K (''0x'' @ a @ b)" using j by (simp add: verify_step_def join_def)
    moreover have "vv_hash st \<in> {a, b}" if "verify_input p st = ''0x'' @ a @ b"
      using that d h node_lengths [OF len ab(1)] by (auto simp: verify_input_def split: if_splits)
    ultimately show ?thesis using ab i by (cases "verify_input p st = ''0x'' @ a @ b") (auto intro: collisionI)
  qed
qed

lemma fold_back:
  assumes len: "\<And>x. length (K x) = 64" and leaves: "\<forall>l \<in> set leaves. h256_text l"
  shows "\<lbrakk>\<forall>p \<in> set ps. h256_text p; length (vv_hash st) = 64;
     vv_hash (fold (verify_step K) ps st) \<in> nodes K (map K leaves)\<rbrakk> \<Longrightarrow>
   vv_hash st \<in> nodes K (map K leaves) \<or> collision K (verify_inputs K ps st) (all_inputs K leaves)"
proof (induction ps arbitrary: st)
  case (Cons p ps)
  have "length (vv_hash (verify_step K p st)) = 64" by (simp add: verify_step_def len)
  then consider "vv_hash (verify_step K p st) \<in> nodes K (map K leaves)"
    | "collision K (verify_inputs K ps (verify_step K p st)) (all_inputs K leaves)"
    using Cons by auto
  then show ?case
  proof cases
    case 1
    then have "vv_hash st \<in> nodes K (map K leaves) \<or> collision K [verify_input p st] (all_inputs K leaves)"
      using step_back [of K leaves p st] len leaves Cons.prems by simp
    then show ?thesis
      using collision_mono [of K "[verify_input p st]" _ "verify_inputs K (p # ps) st"] by auto
  next
    case 2
    then have "collision K (verify_inputs K (p # ps) st) (all_inputs K leaves)"
      by (rule collision_mono) auto
    then show ?thesis ..
  qed
qed simp

text \<open>
  C34: The check accepts only statements of the tree: when it accepts a path, of any length and for any
  position and width, for the root of a tree whose leaves are digests, the leaf of the path is a leaf of
  the tree, or two different texts with the same digest are at hand, one hashed by the check and one
  hashed for the tree. The only assumption on the hash function is the length of its digests.
\<close>
theorem verifyProof_sound:
  assumes "\<And>x. length (K x) = 64" and "leaves \<noteq> []" and "\<forall>l \<in> set leaves. h256_text l"
    and "\<forall>p \<in> set (mp_proof path). h256_text p" and "h256_text (mp_leaf path)"
    and "verifyProof K path (''0x'' @ merkle_root K (map K leaves))"
  shows "mp_leaf path \<in> set leaves \<or>
    collision K (mp_leaf path # verify_inputs K (mp_proof path) (verify_start K path))
      (leaves @ tree_inputs K (map K leaves))"
proof -
  have "vv_hash (fold (verify_step K) (mp_proof path) (verify_start K path)) \<in> nodes K (map K leaves)"
    using assms(2,6) root_in_nodes [of "map K leaves" K] by (simp add: verifyProof_def)
  then consider "K (mp_leaf path) \<in> nodes K (map K leaves)"
    | "collision K (verify_inputs K (mp_proof path) (verify_start K path)) (all_inputs K leaves)"
    using fold_back [of K leaves "mp_proof path" "verify_start K path"] assms(1,3,4)
    by (auto simp: verify_start_def)
  then show ?thesis
  proof cases
    case 1
    from node_cases [OF 1] show ?thesis
    proof (elim disjE exE conjE)
      assume "K (mp_leaf path) \<in> set (map K leaves)"
      then obtain l where "l \<in> set leaves" "K (mp_leaf path) = K l" by auto
      then show ?thesis by (cases "mp_leaf path = l") (auto intro: collisionI)
    next
      fix a b
      assume j: "K (mp_leaf path) = join K a b" and "a \<in> nodes K (map K leaves)" "b \<in> nodes K (map K leaves)"
        and i: "''0x'' @ a @ b \<in> set (tree_inputs K (map K leaves))"
      then have "length (''0x'' @ a @ b) = 130" using node_lengths [OF assms(1)] by simp
      then have "mp_leaf path \<noteq> ''0x'' @ a @ b" using assms(5) by (auto simp: h256_text_def)
      then show ?thesis using j i by (auto simp: join_def intro: collisionI)
    qed
  next
    case 2
    then have "collision K (mp_leaf path # verify_inputs K (mp_proof path) (verify_start K path))
        (all_inputs K leaves)"
      by (rule collision_mono) auto
    then show ?thesis ..
  qed
qed

text \<open>A digest with 64 digits for the witness: the last 64 characters, filled up with zeros.\<close>

definition last64 :: "string \<Rightarrow> string" where
  "last64 s = rev (take 64 (rev s @ replicate 64 CHR ''0''))"

lemma length_last64: "length (last64 s) = 64"
  by (simp add: last64_def)

theorem verifyProof_sound_witness:
  "mp_leaf (path_of last64 [''0x'' @ replicate 64 CHR ''a''] 0) \<in> {''0x'' @ replicate 64 CHR ''a''} \<or>
   collision last64 [''0x'' @ replicate 64 CHR ''a''] [''0x'' @ replicate 64 CHR ''a'']"
proof -
  let ?l = "''0x'' @ replicate 64 CHR ''a''"
  have "verifyProof last64 (path_of last64 [?l] 0) (''0x'' @ merkle_root last64 (map last64 [?l]))"
    by (rule path_of_accepted) simp_all
  then show ?thesis
    using verifyProof_sound [of last64 "[?l]" "path_of last64 [?l] 0"] length_last64
    by (simp add: h256_text_def path_of_def siblings.simps tree_inputs.simps)
qed


text \<open>
  The position is not bound: the length of a path is not checked, and in a tree of five leaves the
  path of the last one is accepted as a path of the second.
\<close>

lemma position_not_bound:
  "verifyProof K \<lparr>mp_root = r, mp_proof = [''0x'' @ join K (join K (K l0) (K l1)) (join K (K l2) (K l3))],
     mp_number_of_leaves = 5, mp_leaf_index = 1, mp_leaf = l4\<rparr>
   (''0x'' @ merkle_root K (map K [l0, l1, l2, l3, l4]))"
  by (simp add: verifyProof_def verify_start_def verify_step_def verify_input_def on_right_def
      merkle_root.simps join_def)

end
