(* ===== verification/TdxInfo.thy ===== *)
theory TdxInfo
  imports Json
begin

text \<open>
  The request for fresh attestation data, \<open>fetchTdxTcbInfo\<close> of
  \<open>zombienet-tests/js_scripts/tee_intel_data.js\<close>. The server is a parameter. A text is the list of its UTF-8
  bytes, and a chunk of the body is a whole number of characters. An error that is thrown in the
  callback does not settle the promise but ends the process; it is the result of the model.
\<close>


section \<open>Hexadecimal text\<close>

definition hex_byte :: "char \<Rightarrow> string" where
  "hex_byte c = (let n = of_char c in [hex_digit (n div 16), hex_digit (n mod 16)])"

text \<open>\<open>Buffer.from(s, 'utf8').toString('hex')\<close>\<close>

definition hex_text :: "string \<Rightarrow> string" where
  "hex_text s = concat (map hex_byte s)"

fun unhex :: "string \<Rightarrow> string option" where
  "unhex [] = Some []"
| "unhex [a] = None"
| "unhex (a # b # s) =
     (case (hex_val a, hex_val b, unhex s) of
        (Some x, Some y, Some t) \<Rightarrow> Some (char_of (16 * x + y) # t)
      | _ \<Rightarrow> None)"

lemma unhex_hex_text: "unhex (hex_text s) = Some s"
proof (induction s)
  case (Cons c s)
  have "of_char c = (of_char c mod 256 :: nat)" by (metis char_of_char of_char_of)
  then have "of_char c < (256 :: nat)" by (metis mod_less_divisor zero_less_numeral)
  then have lt: "of_char c div 16 < (16 :: nat)" by (intro less_mult_imp_div_less) simp
  show ?case
    using Cons lt by (simp add: hex_text_def hex_byte_def Let_def hex_val_hex_digit)
qed (simp add: hex_text_def)


section \<open>\<open>decodeURIComponent\<close>\<close>

definition percent_byte :: "string \<Rightarrow> (nat \<times> string) option" where
  "percent_byte s =
     (case s of
        p # a # b # r \<Rightarrow>
          (if p = CHR ''%'' then
             (case (hex_val a, hex_val b) of (Some x, Some y) \<Rightarrow> Some (16 * x + y, r) | _ \<Rightarrow> None)
           else None)
      | _ \<Rightarrow> None)"

fun continuation :: "nat \<Rightarrow> string \<Rightarrow> (nat list \<times> string) option" where
  "continuation 0 s = Some ([], s)"
| "continuation (Suc n) s =
     (case percent_byte s of
        None \<Rightarrow> None
      | Some (b, r) \<Rightarrow>
          if 128 \<le> b \<and> b < 192 then
            (case continuation n r of None \<Rightarrow> None | Some (bs, r') \<Rightarrow> Some (b # bs, r'))
          else None)"

text \<open>The bytes that must follow a first byte, and the code points that are allowed for that length.\<close>

definition utf8_more :: "nat \<Rightarrow> nat option" where
  "utf8_more b =
     (if b < 128 then Some 0 else if b < 192 then None else if b < 224 then Some 1
      else if b < 240 then Some 2 else if b < 248 then Some 3 else None)"

definition code_point :: "nat \<Rightarrow> nat list \<Rightarrow> nat" where
  "code_point b bs = foldl (\<lambda>v c. 64 * v + c mod 64) (b mod 2 ^ (6 - length bs)) bs"

definition allowed_point :: "nat \<Rightarrow> nat \<Rightarrow> bool" where
  "allowed_point n v \<longleftrightarrow>
     (if n = 1 then 128 \<le> v
      else if n = 2 then 2048 \<le> v \<and> \<not> (55296 \<le> v \<and> v < 57344)
      else n = 3 \<and> 65536 \<le> v \<and> v \<le> 1114111)"

lemma percent_byte_shorter: "percent_byte s = Some (b, r) \<Longrightarrow> length r < length s"
  by (auto simp: percent_byte_def split: list.splits if_splits option.splits)

lemma continuation_shorter: "continuation n s = Some (bs, r) \<Longrightarrow> length r \<le> length s"
proof (induction n arbitrary: s bs r)
  case (Suc n)
  then obtain b r1 bs' where "percent_byte s = Some (b, r1)" "continuation n r1 = Some (bs', r)"
    by (auto split: option.splits if_splits)
  then show ?case using Suc.IH percent_byte_shorter by (meson dual_order.trans less_imp_le)
qed simp

function decodeURIComponent :: "string \<Rightarrow> string res" where
  "decodeURIComponent s =
     (case s of
        [] \<Rightarrow> Inr []
      | c # rest \<Rightarrow>
          if c \<noteq> CHR ''%'' then res_bind (decodeURIComponent rest) (\<lambda>t. Inr (c # t))
          else
            (case percent_byte s of
               None \<Rightarrow> Inl (URIError ''URI malformed'')
             | Some (b, r) \<Rightarrow>
                 (case utf8_more b of
                    None \<Rightarrow> Inl (URIError ''URI malformed'')
                  | Some n \<Rightarrow>
                      (case continuation n r of
                         None \<Rightarrow> Inl (URIError ''URI malformed'')
                       | Some (bs, r') \<Rightarrow>
                           if n = 0 \<or> allowed_point n (code_point b bs)
                           then res_bind (decodeURIComponent r') (\<lambda>t. Inr (map char_of (b # bs) @ t))
                           else Inl (URIError ''URI malformed'')))))"
  by pat_completeness auto
termination
proof (relation "measure length", goal_cases)
  case (3 s c rest q b r n q' bs r')
  have "length r' \<le> length r" using 3 by (intro continuation_shorter [of n _ bs]) simp
  also have "\<dots> < length s" using 3 by (intro percent_byte_shorter [of _ b]) simp
  finally show ?case by simp
qed simp_all

declare decodeURIComponent.simps [simp del]


section \<open>The request\<close>

definition FMSPC :: string where
  "FMSPC = ''B0C06F000000''"

text \<open>The answer of the server: an error, or a status, the header \<open>tcb-info-issuer-chain\<close> and the chunks of the body.\<close>

datatype http_answer = HttpError string | HttpResponse int "string option" "string list"

record tcb_info =
  vkTcbResp :: string
  vkTcbCert :: string

definition fetchTdxTcbInfo :: "(string \<Rightarrow> http_answer) \<Rightarrow> tcb_info res" where
  "fetchTdxTcbInfo https_get =
     (case https_get (''https://api.trustedservices.intel.com/tdx/certification/v4/tcb?fmspc='' @ FMSPC) of
        HttpError e \<Rightarrow> Inl (SysError e)
      | HttpResponse statusCode header chunks \<Rightarrow>
          if statusCode \<noteq> 200 then Inl (ErrorMsg (''Intel API returned status '' @ show_int statusCode))
          else
            res_bind (decodeURIComponent (case header of None \<Rightarrow> ''undefined'' | Some h \<Rightarrow> h))
              (\<lambda>certChainPem. Inr \<lparr>vkTcbResp = ''0x'' @ hex_text (concat chunks),
                 vkTcbCert = ''0x'' @ hex_text certChainPem\<rparr>))"

lemma decode_plain:
  "CHR ''%'' \<notin> set s \<Longrightarrow> decodeURIComponent s = Inr s"
proof (induction s)
  case (Cons c s)
  then show ?case by (auto simp: decodeURIComponent.simps [of "c # s"])
qed (simp add: decodeURIComponent.simps)

lemma fetched_body:
  assumes "fetchTdxTcbInfo get = Inr info"
  obtains header chunks where
    "get (''https://api.trustedservices.intel.com/tdx/certification/v4/tcb?fmspc='' @ FMSPC) =
       HttpResponse 200 header chunks"
    and "unhex (drop 2 (vkTcbResp info)) = Some (concat chunks)"
  using assms
  by (auto simp: fetchTdxTcbInfo_def res_bind_eq_Inr unhex_hex_text split: http_answer.splits if_splits)

end
