(* ===== verification/Aggregation.thy ===== *)
theory Aggregation
  imports TestFlow Merkle TdxInfo
begin

text \<open>
  The scenario \<open>zombienet-tests/js_scripts/0012-aggregate_proofs.js\<close>: proofs are submitted to a domain and
  aggregated, the path of every statement is checked against the published root, and the life cycle and
  the access rules of domains are exercised. The node, the hash function, the key ring, the order of
  chain numbers under \<open><=\<close> and the attestation server are the record \<open>agg_host\<close>; its \<open>ah_data\<close> gives the
  constants of the files of test vectors by their imported name. Console output is left out, except where
  its text has an effect.
\<close>


section \<open>Return codes and host\<close>

datatype ReturnCode =
    Ok
  | ErrDomainRegistrationFailed
  | ErrProofVerificationFailed
  | ErrAggregationNotReady
  | ErrNoAggregation
  | ErrAggregationProofFailedVerification
  | ErrDomainUnregistrationFailed
  | ErrDomainHoldFailed
  | ErrProofOnUnregisteredDomain
  | ErrWrongDomainId
  | ErrPublishShouldNotPay
  | ErrProofFromInvalidSubmitter
  | ErrProofFromValidSubmitter
  | ErrAllowlist
  | ErrRegisterCA
  | ErrUpdateCrl

fun code_value :: "ReturnCode \<Rightarrow> int" where
  "code_value Ok = 1"
| "code_value ErrDomainRegistrationFailed = 2"
| "code_value ErrProofVerificationFailed = 3"
| "code_value ErrAggregationNotReady = 4"
| "code_value ErrNoAggregation = 5"
| "code_value ErrAggregationProofFailedVerification = 6"
| "code_value ErrDomainUnregistrationFailed = 7"
| "code_value ErrDomainHoldFailed = 8"
| "code_value ErrProofOnUnregisteredDomain = 9"
| "code_value ErrWrongDomainId = 10"
| "code_value ErrPublishShouldNotPay = 11"
| "code_value ErrProofFromInvalidSubmitter = 12"
| "code_value ErrProofFromValidSubmitter = 13"
| "code_value ErrAllowlist = 14"
| "code_value ErrRegisterCA = 15"
| "code_value ErrUpdateCrl = 16"

lemma code_value_Ok: "code_value c = 1 \<longleftrightarrow> c = Ok"
  by (cases c) simp_all

record 'w agg_host =
  ah_api :: "'w zapi"
  ah_nodes :: "string \<Rightarrow> string option"
  ah_chain :: string
  ah_address :: "string \<Rightarrow> string"
  ah_account :: "string \<Rightarrow> ('w, account_info) act"
  ah_path :: "string nullable \<Rightarrow> string nullable \<Rightarrow> string nullable \<Rightarrow> string nullable \<Rightarrow> ('w, merkle_path) act"
  ah_keccak :: "string \<Rightarrow> string"
  ah_le :: "string \<Rightarrow> string \<Rightarrow> bool"
  ah_https :: "string \<Rightarrow> http_answer"
  ah_data :: "string \<Rightarrow> json"

abbreviation ah_alice :: "'w agg_host \<Rightarrow> string" where
  "ah_alice h \<equiv> ah_address h ''//Alice''"

abbreviation ah_bob :: "'w agg_host \<Rightarrow> string" where
  "ah_bob h \<equiv> ah_address h ''//Bob''"



section \<open>Verifiers\<close>

record verifier =
  v_name :: string
  v_pallet :: string
  v_args :: "zarg list"
  v_statementHash :: "string nullable"

definition verifier_with :: "string \<Rightarrow> string \<Rightarrow> json \<Rightarrow> json \<Rightarrow> json \<Rightarrow> verifier" where
  "verifier_with name pallet vk proof pubs =
     \<lparr>v_name = name, v_pallet = pallet, v_args = [Arg (JObj [(''Vk'', vk)]), Arg proof, Arg pubs],
      v_statementHash = Undef\<rparr>"



section \<open>Submission and aggregation\<close>

definition caName :: string where
  "caName = ''0x'' @ hex_text ''Intel_SGX_Processor''"

definition setup_crl :: "'w agg_host \<Rightarrow> ('w, (ReturnCode, unit) flow) act" where
  "setup_crl h =
     flow_bind (flow_do (sudoRegisterCA (ah_api h) (ah_alice h) (JStr caName) (ah_data h ''TEE_ROOT_CERT_DER'')))
       (\<lambda>events. flow_bind (require_events events ErrRegisterCA)
       (\<lambda>_. flow_bind
          (flow_do (updateCrl (ah_api h) (ah_bob h) (JStr caName)
             (JObj [(''Pem'', JObj [(''crl'', ah_data h ''TEE_CRL_PEM''), (''cert_chain'', ah_data h ''TEE_CRL_CHAIN_PEM'')])])))
       (\<lambda>events. require_events events ErrUpdateCrl)))"

text \<open>The registration of a domain by Bob, with the identifier that its first event carries.\<close>

definition destination :: json where
  "destination = JObj [(''None'', JNull)]"

definition register_new_domain ::
  "'w agg_host \<Rightarrow> json \<Rightarrow> json \<Rightarrow> string \<Rightarrow> ('w, (ReturnCode, string nullable) flow) act"
where
  "register_new_domain h aggregation_size queue_len proof_rules =
     flow_bind (flow_do (registerDomain (ah_api h) (ah_bob h)
         [aggregation_size, queue_len, JStr ''Untrusted'', JStr proof_rules, destination, JNull]))
       (\<lambda>events. flow_bind (require_events events ErrDomainRegistrationFailed)
       (\<lambda>_. flow_bind (flow_lift (events_of events))
       (\<lambda>es. flow_lift (field_of (elem_at es 0) 0))))"

definition submit_to_domain ::
  "'w agg_host \<Rightarrow> verifier \<Rightarrow> string \<Rightarrow> string nullable \<Rightarrow> ('w, zk_info retval) act"
where
  "submit_to_domain h v who domainId =
     submitProof (ah_api h) (v_pallet v) who (v_args v @ [codec_arg domainId])"


record receipt =
  rc_block :: "string nullable"
  rc_receipt :: "event nullable"

fun aggregate_all :: "'w agg_host \<Rightarrow> event list \<Rightarrow> ('w, (ReturnCode, receipt list) flow) act" where
  "aggregate_all h [] = act_return (Go [])"
| "aggregate_all h (e # es) =
     flow_bind (flow_do (getBalance (ah_account h) (ah_bob h)))
       (\<lambda>prePublish. flow_bind
          (flow_do (aggregate (ah_api h) (ah_bob h) (codec_arg (field e 0)) (codec_arg (field e 1))))
       (\<lambda>data. flow_bind (require_events data ErrNoAggregation)
       (\<lambda>_. flow_bind (flow_lift (events_of data))
       (\<lambda>evs. flow_bind (flow_do (getBalance (ah_account h) (ah_bob h)))
       (\<lambda>after. flow_bind (require (\<not> ah_le h (show_nat after) (show_nat prePublish)) ErrPublishShouldNotPay)
       (\<lambda>_. flow_bind (aggregate_all h es)
       (\<lambda>receipts. act_return (Go
          (\<lparr>rc_block = (case data of RObj i \<Rightarrow> zi_block i | _ \<Rightarrow> Undef),
            rc_receipt = elem_at (with_method ''NewAggregationReceipt'' evs) 0\<rparr> # receipts)))))))))"


section \<open>Checking the published roots\<close>




section \<open>The life cycle of a domain\<close>



definition count_new_proofs :: "zk_info retval \<Rightarrow> nat res" where
  "count_new_proofs data = res_bind (events_of data) (\<lambda>es. Inr (length (with_method ''NewProof'' es)))"




section \<open>Access rules\<close>


definition submitShouldFail ::
  "'w agg_host \<Rightarrow> verifier \<Rightarrow> string \<Rightarrow> string nullable \<Rightarrow> ReturnCode \<Rightarrow> ('w, ReturnCode) act"
where
  "submitShouldFail h v who domainId err =
     act_bind (submit_to_domain h v who domainId)
       (\<lambda>data. act_bind (act_lift (count_new_proofs data)) (\<lambda>n. act_return (if 0 < n then err else Ok)))"

definition submitShouldSuccess ::
  "'w agg_host \<Rightarrow> verifier \<Rightarrow> string \<Rightarrow> string nullable \<Rightarrow> ReturnCode \<Rightarrow> ('w, ReturnCode) act"
where
  "submitShouldSuccess h v who domainId err =
     act_bind (submit_to_domain h v who domainId)
       (\<lambda>data. act_bind (act_lift (count_new_proofs data)) (\<lambda>n. act_return (if n = 0 then err else Ok)))"

definition only_allowlisted :: "'w agg_host \<Rightarrow> verifier \<Rightarrow> ('w, (ReturnCode, unit) flow) act" where
  "only_allowlisted h v =
     flow_bind (register_new_domain h (JNum (Fin 4)) (JNum (Fin 8)) ''OnlyAllowlisted'')
       (\<lambda>domainId. flow_bind (flow_do (submitShouldFail h v (ah_alice h) domainId ErrProofFromInvalidSubmitter))
       (\<lambda>err1. flow_bind (flow_do (submitShouldFail h v (ah_bob h) domainId ErrProofFromInvalidSubmitter))
       (\<lambda>err2. flow_bind (require (\<not> (err1 \<noteq> Ok \<or> err2 \<noteq> Ok)) err1)
       (\<lambda>_. flow_bind (flow_do (allowlistProofSubmitters (ah_api h) (ah_bob h) (codec_arg domainId)
              (JArr [JStr (ah_alice h)])))
       (\<lambda>data. flow_bind (require_events data ErrAllowlist)
       (\<lambda>_. flow_bind (flow_do (submitShouldFail h v (ah_bob h) domainId ErrProofFromInvalidSubmitter))
       (\<lambda>err1. flow_bind (flow_do (submitShouldSuccess h v (ah_alice h) domainId ErrProofFromInvalidSubmitter))
       (\<lambda>err2. flow_bind (require (\<not> (err1 \<noteq> Ok \<or> err2 \<noteq> Ok)) err1)
       (\<lambda>_. flow_bind (flow_do (removeProofSubmitters (ah_api h) (ah_bob h) (codec_arg domainId)
              (JArr [JStr (ah_alice h)])))
       (\<lambda>data. require_events data ErrAllowlist))))))))))"


section \<open>The scenario\<close>








section \<open>What the return code promises\<close>

lemma never_returns_Go [flow_intros]: "never_returns c (act_return (Go x))"
  by (simp add: never_returns_def)

lemma setup_crl_not_Ok [flow_intros]: "never_returns Ok (setup_crl h)"
  unfolding setup_crl_def by (intro flow_intros) simp_all

lemma register_new_domain_not_Ok [flow_intros]: "never_returns Ok (register_new_domain h a q r)"
  unfolding register_new_domain_def by (intro flow_intros) simp_all

lemma aggregate_all_not_Ok [flow_intros]: "never_returns Ok (aggregate_all h es)"
proof (induction es)
  case (Cons e es)
  then show ?case unfolding aggregate_all.simps by (intro flow_intros) simp_all
qed (simp add: never_returns_def)













text \<open>A run that ends with \<open>Ok\<close>.\<close>

definition new_proof :: "event list option" where
  "new_proof = Some [make_event ''aggregate'' ''NewProof'' [''0xs'', ''1'', ''0'']]"


definition new_domain :: "string \<Rightarrow> event list option" where
  "new_domain d = Some [make_event ''aggregate'' ''NewDomain'' [d]]"

definition agg_sample_host :: "replies agg_host" where
  "agg_sample_host =
     \<lparr>ah_api = reply_api, ah_nodes = (\<lambda>_. Some ''ws''), ah_chain = ''zkVerify'', ah_address = id,
      ah_account = (\<lambda>_ w. (w, Inr \<lparr>ai_free = 90 - length w\<rparr>)),
      ah_path = (\<lambda>_ _ _ s w. (w, Inr \<lparr>mp_root = ''0xh'', mp_proof = [], mp_number_of_leaves = 1,
         mp_leaf_index = 0, mp_leaf = ''0xs''\<rparr>)),
      ah_keccak = (\<lambda>_. ''h''), ah_le = (\<le>), ah_https = (\<lambda>_. HttpResponse 200 (Some ''c'') [''b'']),
      ah_data = (\<lambda>_. JNull)\<rparr>"

lemma agg_sample_host_sel:
  "ah_api agg_sample_host = reply_api" "ah_nodes agg_sample_host n = Some ''ws''" "ah_chain agg_sample_host = ''zkVerify''"
  "ah_account agg_sample_host a w = (w, Inr \<lparr>ai_free = 90 - length w\<rparr>)"
  "ah_path agg_sample_host b d i t w = (w, Inr \<lparr>mp_root = ''0xh'', mp_proof = [], mp_number_of_leaves = 1,
     mp_leaf_index = 0, mp_leaf = ''0xs''\<rparr>)"
  "ah_keccak agg_sample_host x = ''h''" "ah_le agg_sample_host = (\<le>)"
  "ah_https agg_sample_host u = HttpResponse 200 (Some ''c'') [''b'']"
  by (simp_all add: agg_sample_host_def)

lemmas sample_simps = agg_sample_host_sel reply_simps operation_defs event_defs flow_defs


lemma sample_register: "register_new_domain agg_sample_host a q r (new_domain d # rs) = (rs, Inr (Go (Val d)))"
  by (simp add: register_new_domain_def new_domain_def sample_simps)

lemma sample_submit:
  "submit_to_domain agg_sample_host v who d (new_proof # rs) =
     (rs, Inr (RObj \<lparr>zi_block = Val ''0xb'', zi_events = [make_event ''aggregate'' ''NewProof'' [''0xs'', ''1'', ''0'']]\<rparr>))"
  "submit_to_domain agg_sample_host v who d (Some [] # rs) = (rs, Inr (RObj \<lparr>zi_block = Val ''0xb'', zi_events = []\<rparr>))"
  by (simp_all add: submit_to_domain_def new_proof_def sample_simps)

lemma sample_should:
  "submitShouldFail agg_sample_host v who d e (new_proof # rs) = (rs, Inr e)"
  "submitShouldFail agg_sample_host v who d e (Some [] # rs) = (rs, Inr Ok)"
  "submitShouldSuccess agg_sample_host v who d e (new_proof # rs) = (rs, Inr Ok)"
  "submitShouldSuccess agg_sample_host v who d e (Some [] # rs) = (rs, Inr e)"
  by (simp_all add: submitShouldFail_def submitShouldSuccess_def sample_submit count_new_proofs_def
      with_method_def make_event_def act_bind_def)

















section \<open>An \<open>Ok\<close> that is not\<close>

text \<open>
  In the part on allowlisted domains the script returns the first of two codes when one of them is an
  error. When only the second one is an error, because the chain accepts the proof of Bob who is not on the
  list, or rejects that of Alice who is, it returns \<open>Ok\<close>, and the whole scenario with it.
\<close>
theorem allowlist_error_returns_Ok:
  assumes "register_new_domain h (JNum (Fin 4)) (JNum (Fin 8)) ''OnlyAllowlisted'' w = (w1, Inr (Go d))"
    and "submitShouldFail h v (ah_alice h) d ErrProofFromInvalidSubmitter w1 = (w2, Inr Ok)"
    and "submitShouldFail h v (ah_bob h) d ErrProofFromInvalidSubmitter w2 = (w3, Inr e)"
    and "e \<noteq> Ok \<or>
      e = Ok \<and> allowlistProofSubmitters (ah_api h) (ah_bob h) (codec_arg d) (JArr [JStr (ah_alice h)]) w3 =
        (w4, Inr (RObj i)) \<and> zi_events i \<noteq> [] \<and>
      submitShouldFail h v (ah_bob h) d ErrProofFromInvalidSubmitter w4 = (w5, Inr Ok) \<and>
      submitShouldSuccess h v (ah_alice h) d ErrProofFromInvalidSubmitter w5 = (w6, Inr ErrProofFromInvalidSubmitter)"
  shows "snd (flow_result (flow_bind (only_allowlisted h v) (\<lambda>_. act_return (Go Ok))) w) = Inr Ok"
  using assms by (auto simp: only_allowlisted_def flow_result_def flow_defs receivedEvents_def)

theorem allowlist_error_returns_Ok_witness:
  "submitShouldFail agg_sample_host (verifier_with [] [] JNull JNull JNull) (ah_bob agg_sample_host) (Val ''4'')
     ErrProofFromInvalidSubmitter [new_proof] = ([], Inr ErrProofFromInvalidSubmitter) \<and>
   snd (flow_result (flow_bind (only_allowlisted agg_sample_host (verifier_with [] [] JNull JNull JNull))
     (\<lambda>_. act_return (Go Ok))) [new_domain ''4'', Some [], new_proof]) = Inr Ok"
  using allowlist_error_returns_Ok [OF sample_register sample_should(2) sample_should(1)]
  by (simp add: sample_should)

end
