(* ===== verification/PaymentTests.thy ===== *)
theory PaymentTests
  imports TestFlow
begin

text \<open>
  The scenarios on transfers and fees under \<open>zombienet-tests/js_scripts\<close>: \<open>0003-transaction.js\<close>,
  \<open>0004-failing_transaction.js\<close>, \<open>0006-proof_should_pay.js\<close> and
  \<open>0009-proof_on_disabled_verifier_should_pay_just_a_little_fee.js\<close>. A chain number in an arithmetic operation of
  JavaScript is converted through its decimal text, so the fees are differences of doubles. The constants
  of the files of test vectors are given by \<open>th_data\<close>.
\<close>


section \<open>Hosts and numbers\<close>

record 'w test_host =
  th_api :: "'w zapi"
  th_nodes :: "string \<Rightarrow> string option"
  th_address :: "string \<Rightarrow> string"
  th_account :: "string \<Rightarrow> ('w, account_info) act"
  th_data :: "string \<Rightarrow> json"

text \<open>\<open>const {wsUri, userDefinedTypes} = networkInfo.nodesByName[nodeName]\<close>\<close>

definition node_uri :: "'w test_host \<Rightarrow> string \<Rightarrow> string res" where
  "node_uri h nodeName =
     (case th_nodes h nodeName of
        None \<Rightarrow> Inl (TypeError ''Cannot destructure property'')
      | Some wsUri \<Rightarrow> Inr wsUri)"

definition codec_number :: "nat \<Rightarrow> jsnum" where
  "codec_number n = StringToNumber (show_nat n)"

fun num_neg :: "jsnum \<Rightarrow> jsnum" where
  "num_neg (Fin a) = Fin (- a)"
| "num_neg PosInf = NegInf"
| "num_neg NegInf = PosInf"
| "num_neg NaN = NaN"

definition num_sub :: "jsnum \<Rightarrow> jsnum \<Rightarrow> jsnum" where
  "num_sub a b = num_add a (num_neg b)"

definition ALICE :: string where
  "ALICE = ''5GrwvaEF5zXb26Fz9rcQpDWS57CtERHpNehXCPcNoHGKutQY''"

definition BOB :: string where
  "BOB = ''5FHneW46xGXgs5mUiveU4sbTyGBzmstUspZC92UhjJM694ty''"


section \<open>A transfer\<close>

text \<open>
  The callback of \<open>0003-transaction.js\<close> on the notifications of the node; the result is whether the promise is
  resolved. A promise that \<open>signAndSend\<close> rejects leaves the outer one unsettled.
\<close>

fun watch_transfer :: "bool \<Rightarrow> notification list \<Rightarrow> bool option" where
  "watch_transfer success [] = None"
| "watch_transfer success (n # ns) =
     (case n_status n of
        InBlock _ \<Rightarrow> watch_transfer (success \<or> sees_success (n_records n)) ns
      | Finalized _ \<Rightarrow> Some success
      | StatusError \<Rightarrow> Some False
      | _ \<Rightarrow> watch_transfer success ns)"

definition submit_watched ::
  "'w test_host \<Rightarrow> ztx \<Rightarrow> (notification list \<Rightarrow> 'a option) \<Rightarrow> ('w, 'a) act"
where
  "submit_watched h tx watcher w =
     (case z_submit (th_api h) (SignAndSend (Val (th_address h ''//Alice'')) tx) w of
        (SendRejected e, w') \<Rightarrow> (w', Inl NeverSettles)
      | (Subscribed ns, w') \<Rightarrow>
          (w', case watcher ns of None \<Rightarrow> Inl NeverSettles | Some r \<Rightarrow> Inr r))"

definition read_balances :: "'w test_host \<Rightarrow> ('w, nat) act" where
  "read_balances h =
     act_bind (getBalance (th_account h) ALICE)
       (\<lambda>balance_alice. act_bind (getBalance (th_account h) BOB) (\<lambda>_. act_return balance_alice))"

text \<open>The \<open>return -1\<close> of the rejection handler does not leave the function.\<close>

definition transaction_run :: "'w test_host \<Rightarrow> string \<Rightarrow> ('w, nat) act" where
  "transaction_run h nodeName =
     act_bind (act_lift (node_uri h nodeName))
       (\<lambda>_. act_bind (read_balances h)
       (\<lambda>_. act_bind
          (submit_watched h (Tx ''balances'' ''transferAllowDeath'' [Arg (JStr BOB), Arg (JNum (Fin 1))])
             (watch_transfer False))
       (\<lambda>_. read_balances h)))"


section \<open>A transfer that fails\<close>

text \<open>The events of a block: the flag and whether the promise is rejected.\<close>

fun scan_failing :: "event_record list \<Rightarrow> bool \<times> bool \<Rightarrow> bool \<times> bool" where
  "scan_failing [] st = st"
| "scan_failing (r # rs) (success, rejected) =
     (if is_event ''system'' ''ExtrinsicSuccess'' (rec_event r) then scan_failing rs (True, rejected)
      else if is_event ''system'' ''ExtrinsicFailed'' (rec_event r) then scan_failing rs (False, True)
      else scan_failing rs (success, rejected))"

fun watch_failing :: "bool \<Rightarrow> notification list \<Rightarrow> bool option" where
  "watch_failing success [] = None"
| "watch_failing success (n # ns) =
     (case n_status n of
        InBlock _ \<Rightarrow>
          (case scan_failing (n_records n) (success, False) of
             (success', rejected) \<Rightarrow> if rejected then Some success' else watch_failing success' ns)
      | Finalized _ \<Rightarrow> Some success
      | StatusError \<Rightarrow> Some False
      | _ \<Rightarrow> watch_failing success ns)"

definition failing_run :: "'w test_host \<Rightarrow> string \<Rightarrow> ('w, nat) act" where
  "failing_run h nodeName =
     act_bind (act_lift (node_uri h nodeName))
       (\<lambda>_. act_bind (read_balances h)
       (\<lambda>_. act_bind
          (submit_watched h
             (Tx ''balances'' ''transferAllowDeath'' [Arg (JStr BOB), Arg (JStr ''1152921504606846977'')])
             (watch_failing False))
       (\<lambda>success. if \<not> success then act_return 0
          else act_bind (read_balances h) (\<lambda>_. act_return 1))))"


section \<open>A proof has to pay\<close>

datatype pay_code =
    PayOk
  | PayErrProofVerificationFailed
  | PayErrFalseProofVerified
  | PayErrValidProofNotPay
  | PayErrInvalidProofNotPay

fun pay_value :: "pay_code \<Rightarrow> int" where
  "pay_value PayOk = 1"
| "pay_value PayErrProofVerificationFailed = 2"
| "pay_value PayErrFalseProofVerified = 3"
| "pay_value PayErrValidProofNotPay = 4"
| "pay_value PayErrInvalidProofNotPay = 5"

definition MIN_PRICE :: jsnum where
  "MIN_PRICE = Fin 1000000000"

definition submit_alice :: "'w test_host \<Rightarrow> string \<Rightarrow> json \<Rightarrow> ('w, zk_info retval) act" where
  "submit_alice h pallet pubs =
     submitProof (th_api h) pallet (th_address h ''//Alice'')
       [Arg (JObj [(''Vk'', th_data h ''VK'')]), Arg (th_data h ''PROOF''), Arg pubs]"

abbreviation alice_balance :: "'w test_host \<Rightarrow> ('w, nat) act" where
  "alice_balance h \<equiv> getBalance (th_account h) (th_address h ''//Alice'')"

definition pays :: "nat \<Rightarrow> nat \<Rightarrow> bool" where
  "pays balance newBalance \<longleftrightarrow>
     \<not> num_le (num_sub (codec_number balance) (codec_number newBalance)) MIN_PRICE"

definition pay_body :: "'w test_host \<Rightarrow> ('w, pay_code) act" where
  "pay_body h = flow_result
     (flow_bind (flow_do (alice_balance h))
       (\<lambda>b0. flow_bind (flow_do (submit_alice h ''settlementUltraplonkPallet'' (th_data h ''PUBS'')))
       (\<lambda>data. flow_bind (require_events data PayErrProofVerificationFailed)
       (\<lambda>_. flow_bind (flow_do (alice_balance h))
       (\<lambda>b1. flow_bind (require (pays b0 b1) PayErrValidProofNotPay)
       (\<lambda>_. flow_bind (flow_do (submit_alice h ''settlementUltraplonkPallet'' (JNum (Fin 0))))
       (\<lambda>data. flow_bind (reject_events data PayErrFalseProofVerified)
       (\<lambda>_. flow_bind (flow_do (alice_balance h))
       (\<lambda>b2. flow_bind (require (pays b1 b2) PayErrInvalidProofNotPay)
       (\<lambda>_. act_return (Go PayOk)))))))))))"


section \<open>A disabled verifier costs little\<close>

datatype disable_code =
    DisOk
  | DisErrProofVerificationFailed
  | DisErrCannotDisable
  | DisErrVerifiedOnDisable
  | DisErrValidProofNotPay
  | DisErrDisableProofTooCostly

fun disable_value :: "disable_code \<Rightarrow> int" where
  "disable_value DisOk = 1"
| "disable_value DisErrProofVerificationFailed = 2"
| "disable_value DisErrCannotDisable = 3"
| "disable_value DisErrVerifiedOnDisable = 4"
| "disable_value DisErrValidProofNotPay = 5"
| "disable_value DisErrDisableProofTooCostly = 6"

definition FACTOR :: rat where
  "FACTOR = 70"

definition too_costly :: "int \<Rightarrow> int \<Rightarrow> bool" where
  "too_costly paidBalanceOnDisable paidBalanceOnVerify \<longleftrightarrow>
     num_lt (num_div_const (StringToNumber (show_int paidBalanceOnVerify)) FACTOR)
       (StringToNumber (show_int paidBalanceOnDisable))"

definition disable_body :: "'w test_host \<Rightarrow> ('w, disable_code) act" where
  "disable_body h = flow_result
     (flow_bind (flow_do (alice_balance h))
       (\<lambda>b0. flow_bind (flow_do (submit_alice h ''settlementRisc0Pallet'' (th_data h ''PUBS'')))
       (\<lambda>data. flow_bind (require_events data DisErrProofVerificationFailed)
       (\<lambda>_. flow_bind (flow_do (alice_balance h))
       (\<lambda>b1. flow_bind (flow_do (zk_submitExtrinsic (th_api h)
            (sudo_call (Tx ''settlementRisc0Pallet'' ''disable'' [Arg (JBool True)]))
            (Val (th_address h ''//Alice'')) UntilInBlock None))
       (\<lambda>data. flow_bind (require_events data DisErrCannotDisable)
       (\<lambda>_. flow_bind (flow_do (alice_balance h))
       (\<lambda>b2. flow_bind (flow_do (submit_alice h ''settlementRisc0Pallet'' (th_data h ''PUBS'')))
       (\<lambda>data. flow_bind (reject_events data DisErrVerifiedOnDisable)
       (\<lambda>_. flow_bind (flow_do (alice_balance h))
       (\<lambda>b3. flow_bind (require (\<not> too_costly (int b2 - int b3) (int b0 - int b1)) DisErrDisableProofTooCostly)
       (\<lambda>_. act_return (Go DisOk)))))))))))))"

text \<open>Both scripts get their connection from the library.\<close>

definition with_init_api :: "'w test_host \<Rightarrow> ('w, 'a) act \<Rightarrow> string \<Rightarrow> (zk_module \<times> 'w, 'a) act" where
  "with_init_api h body nodeName mw =
     (case init_api (th_nodes h) nodeName (fst mw) of
        (m', Inl e) \<Rightarrow> ((m', snd mw), Inl e)
      | (m', Inr _) \<Rightarrow> (case body (snd mw) of (w', r) \<Rightarrow> ((m', w'), r)))"

definition pay_run :: "'w test_host \<Rightarrow> string \<Rightarrow> (zk_module \<times> 'w, pay_code) act" where
  "pay_run h = with_init_api h (pay_body h)"

definition disable_run :: "'w test_host \<Rightarrow> string \<Rightarrow> (zk_module \<times> 'w, disable_code) act" where
  "disable_run h = with_init_api h (disable_body h)"


section \<open>What the transfers report\<close>

lemma watch_failing_last:
  assumes "\<forall>n \<in> set ns. \<forall>r \<in> set (n_records n). \<not> is_event ''system'' ''ExtrinsicFailed'' (rec_event r)"
  shows "watch_failing s ns = watch_transfer s ns"
proof -
  have scan: "scan_failing rs (t, False) = (t \<or> sees_success rs, False)"
    if "\<forall>r \<in> set rs. \<not> is_event ''system'' ''ExtrinsicFailed'' (rec_event r)" for rs t
    using that by (induction rs arbitrary: t) (auto simp: sees_success_def is_success_def is_event_def)
  show ?thesis using assms
    by (induction ns arbitrary: s) (auto simp: scan split: ext_status.splits)
qed



section \<open>What the fee check promises\<close>

lemma codec_number_double: "codec_number n = double_of_rat (of_nat n)"
  by (simp add: codec_number_def StringToNumber_digits)

text \<open>Rounding keeps the order, so a balance that has not fallen never passes, also where doubles are inexact.\<close>

lemma pays_less:
  assumes "pays b b'" and "b' < 2 ^ 128"
  shows "b' < b"
proof (rule ccontr)
  assume "\<not> b' < b"
  then obtain u v where "codec_number b = Fin u" "codec_number b' = Fin v" "u \<le> v"
    using double_of_nat_mono [of b b'] assms(2) by (auto simp: codec_number_double)
  then have "num_le (num_sub (codec_number b) (codec_number b')) MIN_PRICE"
    by (simp add: num_sub_def MIN_PRICE_def double_of_rat_nonpos)
  then show False using assms(1) by (simp add: pays_def)
qed

text \<open>Where doubles are exact, the check is the one it means to be.\<close>

lemma codec_number_small: "n < 2 ^ 53 \<Longrightarrow> codec_number n = Fin (of_nat n)"
  by (simp add: codec_number_double double_of_nat_small)

lemma pays_exact:
  assumes "b < 2 ^ 53" and "b' \<le> b"
  shows "pays b b' \<longleftrightarrow> b' + 1000000000 < b"
proof -
  have "double_of_rat (of_nat b - of_nat b') = Fin (of_nat (b - b'))"
    using double_of_nat_small [of "b - b'"] assms by (simp add: of_nat_diff)
  then have "num_sub (codec_number b) (codec_number b') = Fin (of_nat (b - b'))"
    using assms by (simp add: num_sub_def codec_number_small)
  moreover have "(of_nat (b - b') :: rat) \<le> 1000000000 \<longleftrightarrow> b - b' \<le> 1000000000"
    using of_nat_le_iff [of "b - b'" 1000000000, where ?'a = rat] by simp
  ultimately show ?thesis using assms(2) by (auto simp: pays_def MIN_PRICE_def num_le_Fin)
qed

lemma pay_body_Ok:
  assumes "pay_body h w = (w', Inr PayOk)"
  shows "\<exists>b0 b1 b2 w1 w2 w3 w4 i d.
    alice_balance h w = (w1, Inr b0) \<and>
    submit_alice h ''settlementUltraplonkPallet'' (th_data h ''PUBS'') w1 = (w2, Inr (RObj i)) \<and>
    zi_events i \<noteq> [] \<and> alice_balance h w2 = (w3, Inr b1) \<and> pays b0 b1 \<and>
    submit_alice h ''settlementUltraplonkPallet'' (JNum (Fin 0)) w3 = (w4, Inr d) \<and>
    receivedEvents (Submission d) = Inr False \<and> alice_balance h w4 = (w', Inr b2) \<and> pays b1 b2"
  using assms unfolding pay_body_def
  by (elim flow_result_bind) (auto simp: flow_do_Go require_events_Go require_Go reject_events_Go
      flow_result_def act_bind_def receivedEvents_def intro: flow_intros)

text \<open>
  When the scenario \<open>0006-proof_should_pay.js\<close> ends with \<open>Ok\<close>, the valid proof has been accepted and the false
  one has not, and the balance of Alice has fallen with each of them, for all balances of the chain, although the
  script computes the fees in doubles that do not hold such balances exactly.
\<close>
theorem pay_run_Ok:
  assumes "pay_run h nodeName (m, w) = ((m', w'), Inr PayOk)"
    and "\<And>a w w' i. th_account h a w = (w', Inr i) \<Longrightarrow> ai_free i < 2 ^ 128"
  shows "\<exists>b0 b1 b2 w1 w2 w3 w4 i d.
    alice_balance h w = (w1, Inr b0) \<and>
    submit_alice h ''settlementUltraplonkPallet'' (th_data h ''PUBS'') w1 = (w2, Inr (RObj i)) \<and>
    zi_events i \<noteq> [] \<and> alice_balance h w2 = (w3, Inr b1) \<and> b1 < b0 \<and>
    submit_alice h ''settlementUltraplonkPallet'' (JNum (Fin 0)) w3 = (w4, Inr d) \<and>
    receivedEvents (Submission d) = Inr False \<and> alice_balance h w4 = (w', Inr b2) \<and> b2 < b1"
proof -
  have body: "pay_body h w = (w', Inr PayOk)"
    using assms(1) by (auto simp: pay_run_def with_init_api_def split: prod.splits sum.splits)
  have small: "b < 2 ^ 128" if "alice_balance h v = (v', Inr b)" for v v' b
    using that assms(2) by (auto simp: getBalance_def act_bind_eq_Inr)
  from pay_body_Ok [OF body] show ?thesis using small pays_less by blast
qed

definition fee_host :: "replies test_host" where
  "fee_host = \<lparr>th_api = reply_api, th_nodes = (\<lambda>_. Some ''ws''), th_address = id,
     th_account = (\<lambda>_ w. (w, Inr \<lparr>ai_free = (if length w = 2 then 9000000000 else if length w = 1 then 7000000000
        else 5000000000)\<rparr>)), th_data = (\<lambda>_. JNull)\<rparr>"

lemma fee_host_run:
  "pay_run fee_host ''node'' (\<lparr>zm_api = None, zm_opened = []\<rparr>,
     [Some [make_event ''settlementUltraplonkPallet'' ''ProofVerified'' [''0xs'']], None]) =
   ((\<lparr>zm_api = Some ''ws'', zm_opened = [''ws'']\<rparr>, []), Inr PayOk)"
  by (simp add: pay_run_def with_init_api_def init_api_def fee_host_def pay_body_def submit_alice_def getBalance_def
      pays_exact reply_simps operation_defs event_defs flow_result_def flow_defs)

theorem pay_run_Ok_witness:
  "\<exists>b0 b1 b2 w1 w2 w3 w4 i d.
    alice_balance fee_host [Some [make_event ''settlementUltraplonkPallet'' ''ProofVerified'' [''0xs'']], None] = (w1, Inr b0) \<and>
    submit_alice fee_host ''settlementUltraplonkPallet'' (th_data fee_host ''PUBS'') w1 = (w2, Inr (RObj i)) \<and>
    zi_events i \<noteq> [] \<and> alice_balance fee_host w2 = (w3, Inr b1) \<and> b1 < b0 \<and>
    submit_alice fee_host ''settlementUltraplonkPallet'' (JNum (Fin 0)) w3 = (w4, Inr d) \<and>
    receivedEvents (Submission d) = Inr False \<and> alice_balance fee_host w4 = ([], Inr b2) \<and> b2 < b1"
proof -
  have "ai_free i < 2 ^ 128" if "th_account fee_host a w = (w', Inr i)" for a w w' i
    using that by (auto simp: fee_host_def)
  from pay_run_Ok [OF fee_host_run this] show ?thesis .
qed

end
