(* ===== verification/NetworkTests.thy ===== *)
theory NetworkTests
  imports PaymentTests
begin

text \<open>
  The scenarios on the network under \<open>zombienet-tests/js_scripts\<close>: the first connection, the runtime upgrade through a multisig
  account and the scheduler, \<open>0008-update-runtime-multisig-scheduler.js\<close>, and the teleport of tokens between relay
  chain and parachain, \<open>0013-xcm/relay_send.js\<close> and \<open>0013-xcm/para_recv_sendback.js\<close>. Queries of the chain, the key
  derivation and the parsing of big numbers are parameters. A world is taken to move on with every query, which
  stands for the time a script waits.
\<close>


section \<open>A first connection\<close>

text \<open>\<open>0002-script.js\<close> and \<open>0002-script_ts.ts\<close> ask the node for its peer id and return 2.\<close>

definition script_run :: "'w test_host \<Rightarrow> ('w, string) act \<Rightarrow> string \<Rightarrow> ('w, nat) act" where
  "script_run h localPeerId nodeName =
     act_bind (act_lift (node_uri h nodeName)) (\<lambda>_. act_bind localPeerId (\<lambda>_. act_return 2))"

definition script_ts_run :: "'w test_host \<Rightarrow> ('w, string) act \<Rightarrow> string \<Rightarrow> ('w, nat) act" where
  "script_ts_run h localPeerId nodeName =
     act_bind (act_lift (node_uri h nodeName)) (\<lambda>_. act_bind localPeerId (\<lambda>_. act_return 2))"


section \<open>Waiting for blocks\<close>

text \<open>
  \<open>waitForBlocks\<close> on the numbers of the new heads. A block number that is still zero counts as not set.
\<close>

fun wait_heads :: "nat \<Rightarrow> int \<Rightarrow> nat list \<Rightarrow> unit res" where
  "wait_heads startingBlockNumber numberOfBlocks [] = Inl NeverSettles"
| "wait_heads startingBlockNumber numberOfBlocks (n # heads) =
     (let start = (if startingBlockNumber = 0 then n else startingBlockNumber) in
      if int start + numberOfBlocks \<le> int n then Inr ()
      else wait_heads start numberOfBlocks heads)"

definition waitForBlocks :: "int \<Rightarrow> nat list \<Rightarrow> unit res" where
  "waitForBlocks numberOfBlocks heads = wait_heads 0 numberOfBlocks heads"


section \<open>The upgrade of the runtime\<close>

datatype upgrade_code =
    UpOk
  | UpErrWrongSudoAccount
  | UpErrClaimMembership
  | UpErrSameRuntimeVersion
  | UpErrUnsupportedNetwork

fun upgrade_value :: "upgrade_code \<Rightarrow> int" where
  "upgrade_value UpOk = 1"
| "upgrade_value UpErrWrongSudoAccount = 2"
| "upgrade_value UpErrClaimMembership = 3"
| "upgrade_value UpErrSameRuntimeVersion = 4"
| "upgrade_value UpErrUnsupportedNetwork = 5"

record 'w upgrade_host =
  uh_test :: "'w test_host"
  uh_wasm :: "string res"
  uh_createKeyMulti :: "string list \<Rightarrow> nat \<Rightarrow> string"
  uh_encodeAddress :: "string \<Rightarrow> nat \<Rightarrow> string"
  uh_sudoKey :: "('w, string option) act"
  uh_specVersion :: "('w, nat) act"
  uh_blockNumber :: "('w, nat) act"
  uh_paymentWeight :: "ztx \<Rightarrow> string \<Rightarrow> ('w, json) act"
  uh_methodHex :: "ztx \<Rightarrow> string"
  uh_methodHash :: "ztx \<Rightarrow> string"
  uh_multisigWhen :: "string \<Rightarrow> string \<Rightarrow> ('w, json option) act"
  uh_newHeads :: "('w, nat list) act"

definition CHARLIE :: string where
  "CHARLIE = ''5FLSigC9HGRKVhB9FiEo4Y3koPsNmBmLJbpXg2mp1hXcS59Y''"

text \<open>\<open>api.tx.sudo.sudo(api.tx.scheduler.schedule(when, null, 100, api.tx.system.setCode(code)))\<close>\<close>

definition sudoScheduleTx :: "nat \<Rightarrow> string \<Rightarrow> ztx" where
  "sudoScheduleTx at_block code =
     sudo_call (Tx ''scheduler'' ''schedule''
       [Arg (JNum (num_of_nat at_block)), Arg JNull, Arg (JNum (Fin 100)),
        CallArg (Tx ''system'' ''setCode'' [Arg (JStr (''0x'' @ code))])])"

definition asMulti :: "string list \<Rightarrow> json \<Rightarrow> string \<Rightarrow> json \<Rightarrow> ztx" where
  "asMulti others timepoint call max_weight =
     Tx ''multisig'' ''asMulti''
       [Arg (JNum (Fin 2)), Arg (JArr (map JStr (sort others))), Arg timepoint, Arg (JStr call), Arg max_weight]"

text \<open>\<open>info.unwrapOr(null).when\<close>\<close>

definition when_of :: "json option \<Rightarrow> json res" where
  "when_of info = (case info of None \<Rightarrow> Inl (TypeError ''Cannot read properties of null'') | Some t \<Rightarrow> Inr t)"

definition set_sudo_key :: "'w upgrade_host \<Rightarrow> ('w, (upgrade_code, string) flow) act" where
  "set_sudo_key u =
     (let h = uh_test u;
          multisigAddress = uh_createKeyMulti u
            [th_address h ''//Alice'', th_address h ''//Bob'', th_address h ''//Charlie''] 2;
          Ss58MultiAddress = uh_encodeAddress u multisigAddress 251
      in flow_bind (flow_do (zk_submitExtrinsic (th_api h) (Tx ''sudo'' ''setKey'' [Arg (JStr Ss58MultiAddress)])
            (Val (th_address h ''//Alice'')) UntilFinalized None))
          (\<lambda>_. flow_bind (flow_do (uh_sudoKey u))
          (\<lambda>key. flow_bind (require (\<not> (key \<noteq> None \<and> key \<noteq> Some Ss58MultiAddress)) UpErrWrongSudoAccount)
          (\<lambda>_. act_return (Go multisigAddress)))))"

definition schedule_upgrade :: "'w upgrade_host \<Rightarrow> string \<Rightarrow> string \<Rightarrow> ('w, (upgrade_code, nat) flow) act" where
  "schedule_upgrade u multisigAddress code =
     (let h = uh_test u in
      flow_bind (flow_do (uh_sudoKey u))
        (\<lambda>_. flow_bind (flow_do (uh_blockNumber u))
        (\<lambda>blockNumber. let at_block = blockNumber + 5; tx = sudoScheduleTx at_block code in
           flow_bind (flow_do (uh_paymentWeight u tx (th_address h ''//Alice'')))
        (\<lambda>max_weight. flow_bind
           (flow_do (zk_submitExtrinsic (th_api h)
              (asMulti [BOB, CHARLIE] JNull (uh_methodHex u tx) (JNum (Fin 0)))
              (Val (th_address h ''//Alice'')) UntilInBlock None))
        (\<lambda>_. flow_bind (flow_do (uh_multisigWhen u multisigAddress (uh_methodHash u tx)))
        (\<lambda>info. flow_bind (flow_lift (when_of info))
        (\<lambda>timepoint. flow_bind
           (flow_do (zk_submitExtrinsic (th_api h)
              (asMulti [ALICE, CHARLIE] timepoint (uh_methodHex u tx) max_weight)
              (Val (th_address h ''//Bob'')) UntilInBlock None))
        (\<lambda>_. act_return (Go at_block)))))))))"

definition await_upgrade :: "'w upgrade_host \<Rightarrow> nat \<Rightarrow> ('w, (upgrade_code, unit) flow) act" where
  "await_upgrade u at_block =
     flow_bind (flow_do (uh_blockNumber u))
       (\<lambda>blockNumberEnd. flow_bind (flow_do (uh_newHeads u))
       (\<lambda>heads. flow_lift (waitForBlocks (int at_block - int blockNumberEnd + 1) heads)))"

definition upgrade_run :: "'w upgrade_host \<Rightarrow> string \<Rightarrow> ('w, upgrade_code) act" where
  "upgrade_run u nodeName = flow_result
     (flow_bind (flow_lift (node_uri (uh_test u) nodeName))
       (\<lambda>_. flow_bind (flow_lift (uh_wasm u))
       (\<lambda>code. flow_bind (set_sudo_key u)
       (\<lambda>multisigAddress. flow_bind (flow_do (uh_specVersion u))
       (\<lambda>currentRuntimeVersion. flow_bind (schedule_upgrade u multisigAddress code)
       (\<lambda>at_block. flow_bind (await_upgrade u at_block)
       (\<lambda>_. flow_bind (flow_do (uh_specVersion u))
       (\<lambda>updatedRuntimeVersion. flow_bind
          (require (updatedRuntimeVersion \<noteq> currentRuntimeVersion) UpErrSameRuntimeVersion)
       (\<lambda>_. act_return (Go UpOk))))))))))"


section \<open>Teleports\<close>

datatype relay_code =
    RelayOk
  | RelayWrongBalance
  | RelayExtrinsicUnsuccessful
  | RelayFailedSavingFile

fun relay_value :: "relay_code \<Rightarrow> int" where
  "relay_value RelayOk = 1"
| "relay_value RelayWrongBalance = 2"
| "relay_value RelayExtrinsicUnsuccessful = 3"
| "relay_value RelayFailedSavingFile = 4"

fun json_arg :: "string nullable \<Rightarrow> json option" where
  "json_arg (Val s) = Some (JStr s)"
| "json_arg Null = Some JNull"
| "json_arg Undef = None"

text \<open>JSON has no \<open>undefined\<close>: a property with this value is left out, as \<open>JSON.stringify\<close> does.\<close>

definition prop_opt :: "string \<Rightarrow> json option \<Rightarrow> (string \<times> json) list" where
  "prop_opt k v = (case v of None \<Rightarrow> [] | Some j \<Rightarrow> [(k, j)])"

definition xcm_account :: "json option \<Rightarrow> json" where
  "xcm_account i =
     JObj [(''V4'', JObj [(''parents'', JStr ''0''), (''interior'', JObj [(''X1'', JArr
       [JObj [(''AccountId32'', JObj ((''network'', JNull) # prop_opt ''id'' i))]])])])]"

definition xcm_assets :: "rat \<Rightarrow> json option \<Rightarrow> json" where
  "xcm_assets parents amount =
     JObj [(''V4'', JArr [JObj
       [(''id'', JObj [(''parents'', JNum (Fin parents)), (''interior'', JObj [(''Here'', JStr [])])]),
        (''fun'', JObj (prop_opt ''Fungible'' amount))]])]"

definition teleportAssets :: "json \<Rightarrow> json \<Rightarrow> json \<Rightarrow> ztx" where
  "teleportAssets dest beneficiary assets =
     Tx ''xcmPallet'' ''teleportAssets'' [Arg dest, Arg beneficiary, Arg assets, Arg (JStr ''0'')]"

text \<open>The relay chain sends and compares what it has paid; \<open>BN\<close> is \<open>new BN(amount, 10)\<close>.\<close>

definition relay_run ::
  "'w test_host \<Rightarrow> (string nullable \<Rightarrow> int) \<Rightarrow> string \<Rightarrow> string list \<Rightarrow> ('w, relay_code) act"
where
  "relay_run h BN nodeName args = flow_result
     (flow_bind (flow_lift (node_uri h nodeName))
       (\<lambda>_. flow_bind (flow_do (getBalance (th_account h) ALICE))
       (\<lambda>pre. flow_bind (flow_do (zk_submitExtrinsic (th_api h)
            (teleportAssets
              (JObj [(''V4'', JObj [(''parents'', JStr ''0''), (''interior'',
                 JObj [(''X1'', JArr [JObj [(''Parachain'', JNum (Fin 1599))]])])])])
              (xcm_account (json_arg (elem_at args 1))) (xcm_assets 0 (json_arg (elem_at args 0))))
            (Val (th_address h ''//Alice'')) UntilInBlock None))
       (\<lambda>data. flow_bind (require_events data RelayExtrinsicUnsuccessful)
       (\<lambda>_. flow_bind (flow_do (getBalance (th_account h) ALICE))
       (\<lambda>post. flow_bind (require (\<not> int pre - int post \<le> BN (elem_at args 0)) RelayWrongBalance)
       (\<lambda>_. act_return (Go RelayOk))))))))"

datatype para_code =
    ParaOk
  | ParaWrongTeleportReceived
  | ParaExtrinsicUnsuccessful

fun para_value :: "para_code \<Rightarrow> int" where
  "para_value ParaOk = 1"
| "para_value ParaWrongTeleportReceived = 2"
| "para_value ParaExtrinsicUnsuccessful = 3"

text \<open>The parachain waits for the tokens: \<open>query\<close> reads the balance of the receiver.\<close>

function wait_teleport ::
  "('w, account_info) act \<Rightarrow> int \<Rightarrow> int \<Rightarrow> nat \<Rightarrow> ('w, (para_code, unit) flow) act"
where
  "wait_teleport query amount timeout balance_receiver w =
     (if int balance_receiver = amount then (w, Inr (Go ()))
      else
        (case query w of
           (w', Inl e) \<Rightarrow> (w', Inl e)
         | (w', Inr a) \<Rightarrow>
             if timeout - 1000 \<le> 0 then (w', Inr (Return ParaWrongTeleportReceived))
             else wait_teleport query amount (timeout - 1000) (ai_free a) w'))"
  by pat_completeness auto
termination
  by (relation "measure (\<lambda>(q, a, t, b, w). nat t)") auto

declare wait_teleport.simps [simp del]

definition receive_teleport :: "('w, account_info) act \<Rightarrow> int \<Rightarrow> ('w, (para_code, unit) flow) act" where
  "receive_teleport query amount =
     flow_bind (flow_do query) (\<lambda>a. wait_teleport query amount (int BLOCK_TIME * 3) (ai_free a))"

definition ALICE_REMOTE_ORIGIN :: string where
  "ALICE_REMOTE_ORIGIN = ''0x7b2ac6587a1931a0b108bb03777f8e552293bd6a6ea3790a5fe14e214f13072b''"

text \<open>\<open>th_account\<close> on the receiver, which may be missing on the command line.\<close>

definition para_run ::
  "'w test_host \<Rightarrow> (string nullable \<Rightarrow> ('w, account_info) act) \<Rightarrow> (string nullable \<Rightarrow> int) \<Rightarrow> string \<Rightarrow>
   string list \<Rightarrow> ('w, para_code) act"
where
  "para_run h account BN nodeName args = flow_result
     (flow_bind (flow_lift (node_uri h nodeName))
       (\<lambda>_. flow_bind (receive_teleport (account (elem_at args 1)) (BN (elem_at args 0)))
       (\<lambda>_. flow_bind (flow_do (zk_submitExtrinsic (th_api h)
            (teleportAssets
              (JObj [(''V4'', JObj [(''parents'', JStr ''1''), (''interior'', JObj [(''Here'', JStr [])])])])
              (xcm_account (Some (JStr ALICE_REMOTE_ORIGIN))) (xcm_assets 1 (json_arg (elem_at args 0))))
            (Val (th_address h ''//Alice'')) UntilInBlock None))
       (\<lambda>data. flow_bind (require_events data ParaExtrinsicUnsuccessful)
       (\<lambda>_. act_return (Go ParaOk))))))"


section \<open>How long the scripts wait\<close>

lemma wait_heads_started:
  assumes "0 < start"
  shows "wait_heads start n heads = Inr () \<longleftrightarrow> (\<exists>h \<in> set heads. int start + n \<le> int h)"
  using assms by (induction heads) (auto simp: Let_def)

text \<open>
  The wait for blocks ends exactly when, counted from the first block that is not the genesis block, a head has
  arrived whose number is higher by the wanted number of blocks; a wanted number that is not positive ends it with
  the first head.
\<close>
theorem waitForBlocks_iff:
  "waitForBlocks n heads = Inr () \<longleftrightarrow>
     (if n \<le> 0 then heads \<noteq> []
      else (\<exists>start later. dropWhile (\<lambda>h. h = 0) heads = start # later \<and>
        (\<exists>h \<in> set later. int start + n \<le> int h)))"
proof (induction heads)
  case (Cons m heads)
  show ?case
  proof (cases "m = 0")
    case True
    then show ?thesis using Cons by (auto simp: waitForBlocks_def Let_def)
  next
    case False
    then show ?thesis by (auto simp: waitForBlocks_def wait_heads_started)
  qed
qed (simp add: waitForBlocks_def)

text \<open>A chain that answers every query: its states follow each other and each has a balance.\<close>

definition answering :: "('w \<Rightarrow> 'w) \<Rightarrow> ('w \<Rightarrow> nat) \<Rightarrow> ('w, account_info) act" where
  "answering later free w = (later w, Inr \<lparr>ai_free = free w\<rparr>)"

lemma find_upt_Suc:
  "List.find P [0..<Suc k] = (if P 0 then Some 0 else map_option Suc (List.find (\<lambda>j. P (Suc j)) [0..<k]))"
proof -
  have "List.find P (map Suc xs) = map_option Suc (List.find (\<lambda>j. P (Suc j)) xs)" for xs
    by (induction xs) auto
  then show ?thesis by (simp add: upt_conv_Cons map_Suc_upt [symmetric] del: upt_Suc)
qed

lemma wait_teleport_rounds:
  "wait_teleport (answering later free) amount (int (Suc k) * 1000) b w =
     (if int b = amount then (w, Inr (Go ()))
      else case List.find (\<lambda>j. int (free ((later ^^ j) w)) = amount) [0..<k] of
        Some j \<Rightarrow> ((later ^^ Suc j) w, Inr (Go ()))
      | None \<Rightarrow> ((later ^^ Suc k) w, Inr (Return ParaWrongTeleportReceived)))"
proof (induction k arbitrary: b w)
  case 0
  show ?case by (simp add: wait_teleport.simps answering_def)
next
  case (Suc k)
  have step: "wait_teleport (answering later free) amount (int (Suc (Suc k)) * 1000) b w =
      (if int b = amount then (w, Inr (Go ()))
       else wait_teleport (answering later free) amount (int (Suc k) * 1000) (free w) (later w))"
    by (subst wait_teleport.simps) (simp add: answering_def algebra_simps)
  show ?case
    unfolding step Suc find_upt_Suc by (auto simp: funpow_swap1 split: option.splits)
qed

text \<open>
  The parachain script looks at the balance of the receiver at most nineteen times and always ends its wait.
  It goes on when one of the first eighteen readings shows the amount, right after the first such one; the
  nineteenth reading is made and not looked at.
\<close>
theorem receive_teleport_bounded:
  "receive_teleport (answering later free) amount w =
     (case List.find (\<lambda>j. int (free ((later ^^ j) w)) = amount) [0..<18] of
        Some j \<Rightarrow> ((later ^^ Suc j) w, Inr (Go ()))
      | None \<Rightarrow> ((later ^^ 19) w, Inr (Return ParaWrongTeleportReceived)))"
proof -
  have "receive_teleport (answering later free) amount w =
      wait_teleport (answering later free) amount (int (Suc 17) * 1000) (free w) (later w)"
    by (simp add: receive_teleport_def flow_defs BLOCK_TIME_def) (simp add: answering_def)
  moreover have "(later ^^ 19) w = (later ^^ 18) (later w)"
    using funpow_Suc_right [of 18 later] by (simp add: fun_eq_iff)
  ultimately show ?thesis
    using find_upt_Suc [of "\<lambda>j. int (free ((later ^^ j) w)) = amount" 17]
    unfolding wait_teleport_rounds by (auto simp: funpow_swap1 split: option.splits)
qed

end
