(* ===== verification/KeyTests.thy ===== *)
theory KeyTests
  imports PaymentTests
begin

text \<open>
  The scenarios on verification keys and claims under \<open>zombienet-tests/js_scripts\<close>:
  \<open>0007-proof_with_vk.js\<close>, \<open>0014-vk_hash_api.js\<close> and \<open>0015-claim_no_fee.js\<close>. The node, the key ring and the
  signatures are parameters, and the constants of the files of test vectors are given by \<open>th_data\<close>.
\<close>


section \<open>Proofs with registered keys\<close>

datatype vk_code =
    VkOk
  | VkErrProofVerificationFailed
  | VkErrAcceptAnUnregisteredHash
  | VkErrVkRegistrationFailed
  | VkErrWrongKeyHash
  | VkErrProofVerificationHashFailed
  | VkErrWrongStatementHash

fun vk_value :: "vk_code \<Rightarrow> int" where
  "vk_value VkOk = 1"
| "vk_value VkErrProofVerificationFailed = 2"
| "vk_value VkErrAcceptAnUnregisteredHash = 3"
| "vk_value VkErrVkRegistrationFailed = 4"
| "vk_value VkErrWrongKeyHash = 5"
| "vk_value VkErrProofVerificationHashFailed = 6"
| "vk_value VkErrWrongStatementHash = 7"

text \<open>
  The script takes \<open>.events\<close> of the result before it asks \<open>receivedEvents\<close>; on a failed submission that is
  \<open>undefined\<close>, on which \<open>receivedEvents\<close> fails.
\<close>

definition events_then :: "zk_info retval \<Rightarrow> 'c \<Rightarrow> ('w, ('c, event list) flow) act" where
  "events_then data c =
     flow_bind (flow_lift (events_of data))
       (\<lambda>es. flow_bind (flow_lift (receivedEvents (EventArray es)))
       (\<lambda>ok. flow_bind (require ok c) (\<lambda>_. act_return (Go es))))"

text \<open>\<open>CONSTANT != events[0].data[0]\<close>\<close>

definition first_is :: "json \<Rightarrow> event list \<Rightarrow> bool" where
  "first_is expected es \<longleftrightarrow> (\<exists>s. field (es ! 0) 0 = Val s \<and> expected = JStr s)"

definition submit_ultraplonk :: "'w test_host \<Rightarrow> json \<Rightarrow> ('w, zk_info retval) act" where
  "submit_ultraplonk h vk_or_hash =
     submitProof (th_api h) ''settlementUltraplonkPallet'' (th_address h ''//Alice'')
       [Arg vk_or_hash, Arg (th_data h ''ULTRAPLONK_PROOF''), Arg (th_data h ''ULTRAPLONK_PUBS'')]"

definition vk_body :: "'w test_host \<Rightarrow> ('w, vk_code) act" where
  "vk_body h = flow_result
     (flow_bind (flow_do (submit_ultraplonk h (JObj [(''Vk'', th_data h ''VK_ULTRAPLONK'')])))
       (\<lambda>data. flow_bind (events_then data VkErrProofVerificationFailed)
       (\<lambda>es. flow_bind (require (first_is (th_data h ''ULTRAPLONK_STATEMENT_HASH'') es) VkErrWrongStatementHash)
       (\<lambda>_. flow_bind (flow_do (submit_ultraplonk h (JObj [(''Hash'', th_data h ''ULTRAPLONK_VKEY_HASH'')])))
       (\<lambda>data. flow_bind (reject_events data VkErrAcceptAnUnregisteredHash)
       (\<lambda>_. flow_bind (flow_do (registerVk (th_api h) ''settlementUltraplonkPallet'' (th_address h ''//Alice'')
            (th_data h ''VK_ULTRAPLONK'')))
       (\<lambda>data. flow_bind (events_then data VkErrVkRegistrationFailed)
       (\<lambda>es. flow_bind (require (first_is (th_data h ''ULTRAPLONK_VKEY_HASH'') es) VkErrWrongKeyHash)
       (\<lambda>_. flow_bind (flow_do (submit_ultraplonk h (JObj [(''Hash'', th_data h ''ULTRAPLONK_VKEY_HASH'')])))
       (\<lambda>data. flow_bind (events_then data VkErrProofVerificationHashFailed)
       (\<lambda>es. flow_bind (require (first_is (th_data h ''ULTRAPLONK_STATEMENT_HASH'') es) VkErrWrongStatementHash)
       (\<lambda>_. act_return (Go VkOk)))))))))))))"

definition vk_run :: "'w test_host \<Rightarrow> string \<Rightarrow> (zk_module \<times> 'w, vk_code) act" where
  "vk_run h = with_init_api h (vk_body h)"


section \<open>Hashes of keys\<close>

datatype hash_code =
    HashOk
  | HashErrProofVerificationFailed
  | HashErrNoAttestation
  | HashErrAttProofVerificationFailed
  | HashErrWrongAttestationTiming
  | HashErrIncorrectHash

fun hash_value :: "hash_code \<Rightarrow> int" where
  "hash_value HashOk = 1"
| "hash_value HashErrProofVerificationFailed = 2"
| "hash_value HashErrNoAttestation = 3"
| "hash_value HashErrAttProofVerificationFailed = 4"
| "hash_value HashErrWrongAttestationTiming = 5"
| "hash_value HashErrIncorrectHash = 6"

record hash_verifier =
  hv_name :: string
  hv_method :: string
  hv_vk :: json
  hv_expected_hash :: json

definition hash_verifier_with :: "string \<Rightarrow> string \<Rightarrow> json \<Rightarrow> json \<Rightarrow> hash_verifier" where
  "hash_verifier_with name meth vk expected =
     \<lparr>hv_name = name, hv_method = meth, hv_vk = vk, hv_expected_hash = expected\<rparr>"

definition hash_verifiers :: "'w test_host \<Rightarrow> hash_verifier list" where
  "hash_verifiers h =
     (let D = th_data h in
      [hash_verifier_with ''Ezkl'' ''ezkl'' (D ''EZKL_VK'') (D ''EZKL_VKEY_HASH''),
       hash_verifier_with ''Fflonk'' ''fflonk'' (D ''FFLONK_VK'') (D ''FFLONK_VKEY_HASH''),
       hash_verifier_with ''Groth16'' ''groth16'' (D ''GROTH16_VK'') (D ''GROTH16_VKEY_HASH''),
       hash_verifier_with ''Plonky2'' ''plonky2'' (D ''PLONKY2_VK'') (D ''PLONKY2_VKEY_HASH''),
       hash_verifier_with ''Risc0'' ''risc0'' (D ''RISC0_VK'') (D ''RISC0_VK''),
       hash_verifier_with ''UltraHonk'' ''ultrahonk'' (D ''ULTRAHONK_VK'') (D ''ULTRAHONK_VKEY_HASH''),
       hash_verifier_with ''UltraPLONK'' ''ultraplonk'' (D ''ULTRAPLONK_VK'') (D ''ULTRAPLONK_VKEY_HASH''),
       hash_verifier_with ''Sp1'' ''sp1'' (D ''SP1_VK'') (D ''SP1_VK'')])"

text \<open>\<open>rpc\<close> calls the method \<open>api.rpc.vk_hash.<name>\<close> and gives the text of its result.\<close>

fun check_hashes :: "(string \<Rightarrow> json \<Rightarrow> ('w, string) act) \<Rightarrow> hash_verifier list \<Rightarrow> ('w, hash_code) act" where
  "check_hashes rpc_call [] = act_return HashOk"
| "check_hashes rpc_call (v # vs) =
     act_bind (rpc_call (hv_method v) (hv_vk v))
       (\<lambda>verifier_hash. if JStr verifier_hash \<noteq> hv_expected_hash v then act_return HashErrIncorrectHash
          else check_hashes rpc_call vs)"

definition hash_run ::
  "'w test_host \<Rightarrow> (string \<Rightarrow> json \<Rightarrow> ('w, string) act) \<Rightarrow> string \<Rightarrow> (zk_module \<times> 'w, hash_code) act"
where
  "hash_run h rpc_call = with_init_api h (check_hashes rpc_call (hash_verifiers h))"

text \<open>Every RPC method that the scenario calls is declared in the table of the library, and no two verifiers share one.\<close>

lemma hash_methods_declared:
  "list_all (\<lambda>v. list_ex (\<lambda>r. rpc_section r = ''vk_hash'' \<and> rpc_name r = hv_method v) zkvRpc) (hash_verifiers h) \<and>
   distinct (map hv_method (hash_verifiers h))"
  by (simp add: hash_verifiers_def hash_verifier_with_def zkvRpc_def rpc_def Let_def)

lemma check_hashes_Ok:
  assumes "check_hashes rpc_call vs w = (w', Inr HashOk)" and "v \<in> set vs"
  shows "\<exists>w1 w2 s. rpc_call (hv_method v) (hv_vk v) w1 = (w2, Inr s) \<and> hv_expected_hash v = JStr s"
  using assms
proof (induction vs arbitrary: w)
  case (Cons u us)
  from Cons.prems(1) obtain w1 s where "rpc_call (hv_method u) (hv_vk u) w = (w1, Inr s)"
    "hv_expected_hash u = JStr s" "check_hashes rpc_call us w1 = (w', Inr HashOk)"
    by (auto simp: act_bind_eq_Inr split: if_splits)
  then show ?case using Cons.IH Cons.prems(2) by auto
qed simp


section \<open>Claims without fees\<close>

datatype claim_code =
    ClOk
  | ClErrInitClaim
  | ClErrClaim
  | ClErrClaimedAmount
  | ClErrUnsupportedNetwork

fun claim_value :: "claim_code \<Rightarrow> int" where
  "claim_value ClOk = 1"
| "claim_value ClErrInitClaim = 2"
| "claim_value ClErrClaim = 3"
| "claim_value ClErrClaimedAmount = 4"
| "claim_value ClErrUnsupportedNetwork = 5"

text \<open>The key pairs: address, public key and signature by the type of the key ring and the seed.\<close>

record 'w claim_host =
  ch_test :: "'w test_host"
  ch_palletAccount :: "('w, string option) act"
  ch_pairAddress :: "string \<Rightarrow> string \<Rightarrow> string"
  ch_publicKey :: "string \<Rightarrow> string \<Rightarrow> json"
  ch_sign :: "string \<Rightarrow> string \<Rightarrow> string \<Rightarrow> json"
  ch_hexToU8a :: "string \<Rightarrow> json"

definition MNEMONIC :: string where
  "MNEMONIC = ''poverty popular note inform state innocent grant crumble manage tornado primary list''"

definition CLAIM_AMOUNT :: string where
  "CLAIM_AMOUNT = ''1000000000000000000''"

definition INITIAL_BALANCE :: string where
  "INITIAL_BALANCE = ''10000000000000000000''"

definition beneficiary_eth :: string where
  "beneficiary_eth = ''0xCFb405552868d9906DeDCAbe2F387a37E35e9610''"

definition eth_signature :: string where
  "eth_signature = ''0x3485f6726eb2efee5356f3b5bdd4df6287c70a73e2b3b9b82e54d8df5395421543456d948bff2109db8fc2342bf4cdc424f70c0161091ff83cb68227a32713e81c''"

definition prefixed_signature :: string where
  "prefixed_signature = ''0xc89703e8763b08dfedd8e78959d1c1b28138628e58c7e4bc2c0eefd87d796c10e3fdb7bd35ef713d02c49959d3bfb2c559673a70e54156bc71bff5e7541f1e86''"

definition claim_message :: string where
  "claim_message = ''I'' @ [CHR 0x27] @ ''m claiming my funds !''"

text \<open>A \<open>Map\<close> as the array of its entries.\<close>

definition beneficiaries_map :: "'w claim_host \<Rightarrow> json" where
  "beneficiaries_map c = JArr
     (JArr [JObj [(''Ethereum'', JStr beneficiary_eth)], JStr CLAIM_AMOUNT] #
      map (\<lambda>(t, seed). JArr [JObj [(''Substrate'', JStr (ch_pairAddress c t seed))], JStr CLAIM_AMOUNT])
        [(''sr25519'', ''//BeneficiarySR''), (''sr25519'', MNEMONIC), (''ed25519'', ''//BeneficiaryED''),
         (''ecdsa'', ''//BeneficiaryEC'')])"

text \<open>A balance of the chain compared with a text by \<open>!=\<close>: by its decimal text.\<close>

definition require_balance :: "'w claim_host \<Rightarrow> string \<Rightarrow> string \<Rightarrow> ('w, (claim_code, unit) flow) act" where
  "require_balance c address expected =
     flow_bind (flow_do (getBalance (th_account (ch_test c)) address))
       (\<lambda>b. require (show_nat b = expected) ClErrClaimedAmount)"

definition claim_and_check ::
  "'w claim_host \<Rightarrow> string \<Rightarrow> string \<Rightarrow> string \<Rightarrow> json \<Rightarrow> ('w, (claim_code, unit) flow) act"
where
  "claim_and_check c variant t seed signature =
     flow_bind (flow_do (claim (th_api (ch_test c)) (JObj [(variant, ch_publicKey c t seed)]) (JObj [(variant, signature)])))
       (\<lambda>events. flow_bind (require_events events ClErrClaim)
       (\<lambda>_. require_balance c (ch_pairAddress c t seed) CLAIM_AMOUNT))"

definition init_claim :: "'w claim_host \<Rightarrow> ('w, (claim_code, unit) flow) act" where
  "init_claim c =
     flow_bind (flow_do (ch_palletAccount c))
       (\<lambda>palletAddressOption. flow_bind
          (flow_lift (case palletAddressOption of
             None \<Rightarrow> Inl (ErrorMsg ''Option: unwrapping a None value'') | Some a \<Rightarrow> Inr a))
       (\<lambda>palletAddress. flow_bind (flow_do (getBalance (th_account (ch_test c)) palletAddress))
       (\<lambda>b. flow_bind (require (\<not> num_le (codec_number b) (Fin 0)) ClErrInitClaim)
       (\<lambda>_. flow_bind (flow_do (ch_palletAccount c))
       (\<lambda>p. flow_bind
          (flow_do (sudoInitClaim (th_api (ch_test c)) (map_option JStr p) (th_address (ch_test c) ''//Alice'')
             (beneficiaries_map c) (JStr INITIAL_BALANCE) (JStr claim_message)))
       (\<lambda>events. require_events events ClErrInitClaim))))))"

definition claim_body :: "'w claim_host \<Rightarrow> ('w, claim_code) act" where
  "claim_body c = flow_result
     (flow_bind (init_claim c)
       (\<lambda>_. flow_bind (claim_and_check c ''Sr25519'' ''sr25519'' ''//BeneficiarySR''
            (ch_sign c ''sr25519'' ''//BeneficiarySR'' claim_message))
       (\<lambda>_. flow_bind (claim_and_check c ''Sr25519'' ''sr25519'' MNEMONIC (ch_hexToU8a c prefixed_signature))
       (\<lambda>_. flow_bind (claim_and_check c ''Ed25519'' ''ed25519'' ''//BeneficiaryED''
            (ch_sign c ''ed25519'' ''//BeneficiaryED'' claim_message))
       (\<lambda>_. flow_bind (claim_and_check c ''Ecdsa'' ''ecdsa'' ''//BeneficiaryEC''
            (ch_sign c ''ecdsa'' ''//BeneficiaryEC'' claim_message))
       (\<lambda>_. flow_bind (flow_do (claimEthereum (th_api (ch_test c)) (JStr beneficiary_eth) (JStr eth_signature)
            (JStr (ch_pairAddress c ''sr25519'' ''//BeneficiarySR''))))
       (\<lambda>events. flow_bind (require_events events ClErrClaim)
       (\<lambda>_. flow_bind (require_balance c (ch_pairAddress c ''sr25519'' ''//BeneficiarySR'') ''2000000000000000000'')
       (\<lambda>_. act_return (Go ClOk))))))))))"

definition claim_run :: "'w claim_host \<Rightarrow> string \<Rightarrow> (zk_module \<times> 'w, claim_code) act" where
  "claim_run c = with_init_api (ch_test c) (claim_body c)"


section \<open>What the return codes promise\<close>

lemma claim_amount: "show_nat b = CLAIM_AMOUNT \<Longrightarrow> b = 1000000000000000000"
proof -
  assume "show_nat b = CLAIM_AMOUNT"
  then have "BigInt CLAIM_AMOUNT = Inr (int b)" by (metis BigInt_show_nat)
  moreover have "BigInt CLAIM_AMOUNT = Inr 1000000000000000000"
    by (simp add: CLAIM_AMOUNT_def BigInt_digits is_digit_def digits_val_def digit_val_def)
  ultimately show ?thesis by simp
qed

lemma claim_and_check_Go:
  assumes "claim_and_check c variant t seed signature w = (w', Inr (Go u))"
  shows "\<exists>w1 i. claim (th_api (ch_test c)) (JObj [(variant, ch_publicKey c t seed)]) (JObj [(variant, signature)]) w =
      (w1, Inr (RObj i)) \<and> zi_events i \<noteq> [] \<and>
    getBalance (th_account (ch_test c)) (ch_pairAddress c t seed) w1 = (w', Inr 1000000000000000000)"
  using assms
  by (auto simp: claim_and_check_def require_balance_def flow_Go require_events_Go dest!: claim_amount)

end
