(* ===== verification/Frame.thy ===== *)
theory Frame
  imports Prelude "HOL-Library.Multiset"
begin

text \<open>
  What the pallets of the chain share: origins, dispatch errors, calls whose storage is rolled back
  when they fail, balances of 128 bits, and the currency of the runtime. FRAME, the currency and the
  signature schemes belong to the Polkadot SDK, outside the repository: the currency is a parameter, and
  what the pallets rely on is written down as the predicate \<open>currency_laws\<close>.
\<close>

named_theorems call_simps \<open>unfolding of the calls of a pallet\<close>


section \<open>Origins and errors\<close>

type_synonym account = string
type_synonym h256 = string

definition u32_max :: nat where
  "u32_max = 2 ^ 32 - 1"

definition u64_max :: nat where
  "u64_max = 2 ^ 64 - 1"

datatype origin = Root | Signed account | NoOrigin

datatype token_error = FundsUnavailable | BelowMinimum | OverflowError | OtherToken

text \<open>
  An error of the pallet itself is a \<open>ModuleErr\<close>, one that another pallet reported an \<open>OtherErr\<close>. A panic
  ends the execution of the extrinsic (and of the block) where the source has an \<open>unwrap\<close>, an
  \<open>expect\<close> or an \<open>assert\<close> that fails.
\<close>

datatype 'e dispatch_error =
    BadOrigin
  | TokenErr token_error
  | ModuleErr 'e
  | ArithmeticOverflow
  | OtherErr string
  | PanicErr string

type_synonym ('s, 'e, 'a) storage_act = "('s, 'e dispatch_error, 'a) eact"

definition ensure :: "bool \<Rightarrow> 'e \<Rightarrow> ('s, 'e, unit) eact" where
  "ensure b e = (if b then act_return () else act_fail e)"

definition gets :: "('s \<Rightarrow> 'a) \<Rightarrow> ('s, 'e, 'a) eact" where
  "gets f s = (s, Inr (f s))"

definition modify :: "('s \<Rightarrow> 's) \<Rightarrow> ('s, 'e, unit) eact" where
  "modify f s = (f s, Inr ())"

definition act_then :: "('s, 'e, 'a) eact \<Rightarrow> ('s, 'e, 'b) eact \<Rightarrow> ('s, 'e, 'b) eact" where
  "act_then m k = act_bind m (\<lambda>_. k)"

lemma gets_apply [simp, call_simps]: "gets f s = (s, Inr (f s))"
  by (simp add: gets_def)

lemma modify_apply [simp, call_simps]: "modify f s = (f s, Inr ())"
  by (simp add: modify_def)

lemma ensure_apply [call_simps]: "ensure b e s = (s, if b then Inr () else Inl e)"
  by (simp add: ensure_def)

lemma ensure_eq_Inr [simp]: "ensure b e s = (s', Inr u) \<longleftrightarrow> b \<and> s' = s"
  by (auto simp: ensure_apply)

lemma act_then_eq_Inr:
  "act_then m k s = (s'', Inr y) \<longleftrightarrow> (\<exists>s' x. m s = (s', Inr x) \<and> k s' = (s'', Inr y))"
  by (simp add: act_then_def act_bind_eq_Inr)

lemma bind_gets [simp, call_simps]: "act_bind (gets g) f s = f (g s) s"
  by (simp add: act_bind_def)

lemma bind_return [simp, call_simps]: "act_bind (act_return x) f s = f x s"
  by (simp add: act_bind_def)

lemma bind_fail [simp, call_simps]: "act_bind (act_fail e) f s = (s, Inl e)"
  by (simp add: act_bind_def)

lemma then_modify [simp, call_simps]: "act_then (modify g) k s = k (g s)"
  by (simp add: act_then_def act_bind_def)

lemma then_ensure [call_simps]: "act_then (ensure b e) k s = (if b then k s else (s, Inl e))"
  by (simp add: act_then_def act_bind_def ensure_apply)

lemmas call_Inr = act_bind_eq_Inr act_then_eq_Inr

text \<open>Calls that do not panic.\<close>

definition panic_free :: "('s, 'e, 'a) storage_act \<Rightarrow> 's \<Rightarrow> bool" where
  "panic_free m s \<longleftrightarrow> (\<forall>msg. snd (m s) \<noteq> Inl (PanicErr msg))"

named_theorems panic_intros \<open>which calls do not panic\<close>

lemma panic_free_bind [panic_intros]:
  assumes "panic_free m s" and "\<And>s' x. m s = (s', Inr x) \<Longrightarrow> panic_free (f x) s'"
  shows "panic_free (act_bind m f) s"
  using assms by (auto simp: panic_free_def act_bind_def split: prod.splits sum.splits)

lemma panic_free_then [panic_intros]:
  assumes "panic_free m s" and "\<And>s' x. m s = (s', Inr x) \<Longrightarrow> panic_free k s'"
  shows "panic_free (act_then m k) s"
  unfolding act_then_def using assms by (rule panic_free_bind)

lemma panic_free_basic [panic_intros]:
  "panic_free (gets f) s" "panic_free (modify g) s" "panic_free (act_return x) s"
  "(\<And>msg. e \<noteq> PanicErr msg) \<Longrightarrow> panic_free (act_fail e) s"
  "(\<And>msg. \<not> b \<Longrightarrow> e \<noteq> PanicErr msg) \<Longrightarrow> panic_free (ensure b e) s"
  by (auto simp: panic_free_def ensure_apply)

text \<open>Observations of the storage that a call keeps.\<close>

definition keeps :: "('s \<Rightarrow> 'o) \<Rightarrow> ('s, 'e, 'a) eact \<Rightarrow> bool" where
  "keeps v m \<longleftrightarrow> (\<forall>s. v (fst (m s)) = v s)"

named_theorems keeps_intros \<open>what calls keep\<close>

lemma keepsD: "keeps v m \<Longrightarrow> m s = (s', r) \<Longrightarrow> v s' = v s"
  unfolding keeps_def by (metis fst_conv)

lemma keeps_bind [keeps_intros]:
  assumes "keeps v m" and "\<And>x. keeps v (f x)"
  shows "keeps v (act_bind m f)"
  unfolding keeps_def
proof
  fix s
  show "v (fst (act_bind m f s)) = v s"
    by (rule act_bind_keeps) (use assms in \<open>simp_all add: keeps_def\<close>)
qed

lemma keeps_then [keeps_intros]: "keeps v m \<Longrightarrow> keeps v k \<Longrightarrow> keeps v (act_then m k)"
  unfolding act_then_def by (rule keeps_bind)

lemma keeps_basic [keeps_intros]:
  "keeps v (gets f)" "keeps v (act_return x)" "keeps v (act_fail e)" "keeps v (ensure b e')"
  "(\<And>s. v (g s) = v s) \<Longrightarrow> keeps v (modify g)"
  by (auto simp: keeps_def ensure_apply)

lemma keeps_if [keeps_intros]: "(b \<Longrightarrow> keeps v m) \<Longrightarrow> (\<not> b \<Longrightarrow> keeps v k) \<Longrightarrow> keeps v (if b then m else k)"
  by simp

text \<open>Changes of the storage that a call does not look at: it does the same before and after the change.\<close>

definition commutes :: "('s \<Rightarrow> 's) \<Rightarrow> ('s, 'e, 'a) eact \<Rightarrow> bool" where
  "commutes f m \<longleftrightarrow> (\<forall>s. m (f s) = map_prod f (\<lambda>r. r) (m s))"

named_theorems commutes_intros \<open>what calls do not look at\<close>

lemma commutesD: "commutes f m \<Longrightarrow> m s = (s', r) \<Longrightarrow> m (f s) = (f s', r)"
  by (simp add: commutes_def)

lemma commutes_bind [commutes_intros]:
  assumes "commutes f m" and "\<And>x. commutes f (k x)"
  shows "commutes f (act_bind m k)"
  using assms by (auto simp: commutes_def act_bind_def split: prod.splits sum.splits)

lemma commutes_then [commutes_intros]: "commutes f m \<Longrightarrow> commutes f k \<Longrightarrow> commutes f (act_then m k)"
  unfolding act_then_def by (rule commutes_bind)

lemma commutes_basic [commutes_intros]:
  "commutes f (act_return x)" "commutes f (act_fail e)" "commutes f (ensure b e')"
  "(\<And>s. g (f s) = g s) \<Longrightarrow> commutes f (gets g)"
  "(\<And>s. h (f s) = f (h s)) \<Longrightarrow> commutes f (modify h)"
  by (auto simp: commutes_def ensure_apply)

lemma commutes_if [commutes_intros]:
  "(b \<Longrightarrow> commutes f m) \<Longrightarrow> (\<not> b \<Longrightarrow> commutes f k) \<Longrightarrow> commutes f (if b then m else k)"
  by simp

text \<open>A dispatched call is a transaction: a failure leaves the storage as it was.\<close>

definition transactional :: "('s, 'e, 'a) eact \<Rightarrow> ('s, 'e, 'a) eact" where
  "transactional m s = (case m s of (s', Inr x) \<Rightarrow> (s', Inr x) | (_, Inl e) \<Rightarrow> (s, Inl e))"

lemma transactional_eq_Inr [simp]: "transactional m s = (s', Inr x) \<longleftrightarrow> m s = (s', Inr x)"
  by (auto simp: transactional_def split: prod.splits sum.splits)

lemma transactional_eq_Inl: "transactional m s = (s', Inl e) \<longleftrightarrow> s' = s \<and> (\<exists>s''. m s = (s'', Inl e))"
  by (auto simp: transactional_def split: prod.splits sum.splits)

lemma transactional_result [simp]: "snd (transactional m s) = snd (m s)"
  by (simp add: transactional_def split: prod.splits sum.splits)

definition ensure_signed :: "origin \<Rightarrow> ('s, 'e, account) storage_act" where
  "ensure_signed origin = (case origin of Signed a \<Rightarrow> act_return a | _ \<Rightarrow> act_fail BadOrigin)"

definition ensure_signed_or_root :: "origin \<Rightarrow> ('s, 'e, account option) storage_act" where
  "ensure_signed_or_root origin =
     (case origin of
        Root \<Rightarrow> act_return None
      | Signed a \<Rightarrow> act_return (Some a)
      | NoOrigin \<Rightarrow> act_fail BadOrigin)"

definition ensure_root :: "origin \<Rightarrow> ('s, 'e, unit) storage_act" where
  "ensure_root origin = ensure (origin = Root) BadOrigin"

definition ensure_none :: "origin \<Rightarrow> ('s, 'e, unit) storage_act" where
  "ensure_none origin = ensure (origin = NoOrigin) BadOrigin"

definition ensure_origin :: "(origin \<Rightarrow> bool) \<Rightarrow> origin \<Rightarrow> ('s, 'e, unit) storage_act" where
  "ensure_origin allowed origin = ensure (allowed origin) BadOrigin"

lemma ensure_signed_eq_Inr [simp]:
  "ensure_signed og s = (s', Inr a) \<longleftrightarrow> og = Signed a \<and> s' = s"
  by (auto simp: ensure_signed_def split: origin.splits)

lemma ensure_signed_or_root_eq_Inr [simp]:
  "ensure_signed_or_root og s = (s', Inr a) \<longleftrightarrow> s' = s \<and> (og = Root \<and> a = None \<or> (\<exists>b. og = Signed b \<and> a = Some b))"
  by (auto simp: ensure_signed_or_root_def split: origin.splits)

lemma panic_free_origin [panic_intros]:
  "panic_free (ensure_signed og) s" "panic_free (ensure_none og) s" "panic_free (ensure_origin P og) s"
  "panic_free (ensure_signed_or_root og) s" "panic_free (ensure_root og) s"
  by (auto simp: panic_free_def ensure_signed_def ensure_none_def ensure_origin_def ensure_apply
      ensure_signed_or_root_def ensure_root_def split: origin.splits)

lemma panic_free_transactional: "panic_free m s \<Longrightarrow> snd (transactional m s) \<noteq> Inl (PanicErr msg)"
  by (simp add: panic_free_def)

lemmas origin_simps = ensure_none_def ensure_origin_def ensure_root_def


section \<open>Pallets\<close>

text \<open>
  The contract of a pallet: a dispatched call that succeeds keeps the invariant, and one that
  fails leaves the storage as it was. Then no sequence of calls, whoever sends them, breaks it.
\<close>

locale pallet =
  fixes dispatch :: "'c \<Rightarrow> ('s, 'e, unit) eact"
    and inv :: "'s \<Rightarrow> bool"
  assumes inv_ok: "inv s \<Longrightarrow> dispatch c s = (s', Inr ()) \<Longrightarrow> inv s'"
    and rolled_back: "dispatch c s = (s', Inl e) \<Longrightarrow> s' = s"
begin

lemma dispatch_inv: "inv s \<Longrightarrow> inv (fst (dispatch c s))"
  by (cases "dispatch c s"; cases "snd (dispatch c s)") (auto dest: inv_ok rolled_back)

lemma fold_inv: "inv s \<Longrightarrow> inv (fold (\<lambda>c s. fst (dispatch c s)) cs s)"
  by (induction cs arbitrary: s) (simp_all add: dispatch_inv)

end


section \<open>Ordered maps\<close>

text \<open>
  A \<open>BTreeMap\<close> is the list of its entries with strictly ascending keys. Collecting pairs into one keeps
  the last value of a key.
\<close>

definition btree :: "('k :: linorder \<times> 'v) list \<Rightarrow> bool" where
  "btree m \<longleftrightarrow> sorted_wrt (<) (map fst m)"

fun btree_insert :: "'k :: linorder \<Rightarrow> 'v \<Rightarrow> ('k \<times> 'v) list \<Rightarrow> ('k \<times> 'v) list" where
  "btree_insert k v [] = [(k, v)]"
| "btree_insert k v (e # m) =
     (if k < fst e then (k, v) # e # m else if k = fst e then (k, v) # m else e # btree_insert k v m)"

definition btree_collect :: "('k :: linorder \<times> 'v) list \<Rightarrow> ('k \<times> 'v) list" where
  "btree_collect es = fold (\<lambda>(k, v). btree_insert k v) es []"

lemma btree_distinct: "btree m \<Longrightarrow> distinct (map fst m)"
  by (simp add: btree_def strict_sorted_iff)

lemma btree_insert_keys: "fst ` set (btree_insert k v m) = insert k (fst ` set m)"
  by (induction m) auto

lemma length_btree_insert: "length (btree_insert k v m) \<le> Suc (length m)"
  by (induction m) auto

lemma btree_insert_btree: "btree m \<Longrightarrow> btree (btree_insert k v m)"
  by (induction m) (auto simp: btree_def btree_insert_keys image_iff dest: spec)

lemma btree_insert_mset:
  "k \<notin> fst ` set m \<Longrightarrow> mset (btree_insert k v m) = add_mset (k, v) (mset m)"
  by (induction m) auto

lemma map_of_btree_insert: "btree m \<Longrightarrow> map_of (btree_insert k v m) = (map_of m)(k \<mapsto> v)"
  by (induction m) (auto simp: btree_def fun_eq_iff)

lemma btree_collect_aux:
  assumes "btree m" and "distinct (map fst es)" and "fst ` set es \<inter> fst ` set m = {}"
  shows "btree (fold (\<lambda>(k, v). btree_insert k v) es m) \<and>
    mset (fold (\<lambda>(k, v). btree_insert k v) es m) = mset es + mset m"
  using assms
proof (induction es arbitrary: m)
  case Nil
  then show ?case by simp
next
  case (Cons e es)
  obtain k v where e: "e = (k, v)" by (cases e)
  have "btree (btree_insert k v m)" using Cons.prems(1) by (rule btree_insert_btree)
  moreover have "fst ` set es \<inter> fst ` set (btree_insert k v m) = {}"
    using Cons.prems(2,3) e by (auto simp: btree_insert_keys)
  ultimately show ?case
    using Cons.IH [of "btree_insert k v m"] Cons.prems e by (auto simp: btree_insert_mset)
qed

lemma btree_collect_distinct:
  assumes "distinct (map fst es)"
  shows "btree (btree_collect es)" and "mset (btree_collect es) = mset es"
  using btree_collect_aux [of "[]" es] assms by (auto simp: btree_collect_def btree_def)


section \<open>Balances and the currency\<close>

definition u128_max :: nat where
  "u128_max = 2 ^ 128 - 1"

definition saturating_add :: "nat \<Rightarrow> nat \<Rightarrow> nat" where
  "saturating_add a b = min (a + b) u128_max"

text \<open>
  \<open>cu_reducible\<close> is \<open>reducible_balance\<close> and \<open>cu_transfer\<close> is \<open>transfer\<close>, both with \<open>Preservation::Preserve\<close>.
\<close>

record 'l currency =
  cu_minimum_balance :: nat
  cu_account_exists :: "'l \<Rightarrow> account \<Rightarrow> bool"
  cu_reducible :: "'l \<Rightarrow> account \<Rightarrow> nat"
  cu_can_deposit :: "'l \<Rightarrow> account \<Rightarrow> nat \<Rightarrow> bool"
  cu_transfer :: "'l \<Rightarrow> account \<Rightarrow> account \<Rightarrow> nat \<Rightarrow> token_error + 'l"
  cu_mint_into :: "'l \<Rightarrow> account \<Rightarrow> nat \<Rightarrow> token_error + 'l"

text \<open>
  The documented behaviour of \<open>fungible::Inspect\<close> and \<open>fungible::Mutate\<close>: what can be spent leaves the
  minimum balance in the account; a transfer moves its amount, or nothing when it goes to the
  account itself; it succeeds when the amount can be spent and the destination can take it; no other
  account loses anything.
\<close>

definition transfer_laws :: "'l currency \<Rightarrow> bool" where
  "transfer_laws cu \<longleftrightarrow>
     (\<forall>l a b n l'. cu_transfer cu l a b n = Inr l' \<longrightarrow>
        n \<le> cu_reducible cu l a \<and>
        cu_reducible cu l' a = (if a = b then cu_reducible cu l a else cu_reducible cu l a - n) \<and>
        (\<forall>x. x \<noteq> a \<longrightarrow> cu_reducible cu l x \<le> cu_reducible cu l' x)) \<and>
     (\<forall>l a b n. n \<le> cu_reducible cu l a \<longrightarrow> cu_can_deposit cu l b n \<longrightarrow>
        (\<exists>l'. cu_transfer cu l a b n = Inr l'))"

definition currency_laws :: "'l currency \<Rightarrow> bool" where
  "currency_laws cu \<longleftrightarrow>
     0 < cu_minimum_balance cu \<and>
     (\<forall>l a. cu_reducible cu l a + cu_minimum_balance cu \<le> u128_max) \<and>
     transfer_laws cu \<and>
     (\<forall>l a n l'. cu_mint_into cu l a n = Inr l' \<longrightarrow>
        (\<forall>x. cu_reducible cu l x \<le> cu_reducible cu l' x))"

lemma reducible_below_max:
  assumes "currency_laws cu"
  shows "cu_reducible cu l a < u128_max"
proof -
  have "0 < cu_minimum_balance cu" "cu_reducible cu l a + cu_minimum_balance cu \<le> u128_max"
    using assms by (simp_all add: currency_laws_def)
  then show ?thesis by linarith
qed

lemma transfer_spent:
  assumes "currency_laws cu" and "cu_transfer cu l a b n = Inr l'"
  shows "n \<le> cu_reducible cu l a"
    and "cu_reducible cu l' a = (if a = b then cu_reducible cu l a else cu_reducible cu l a - n)"
proof -
  have "transfer_laws cu" using assms(1) by (simp add: currency_laws_def)
  then have "n \<le> cu_reducible cu l a \<and>
      cu_reducible cu l' a = (if a = b then cu_reducible cu l a else cu_reducible cu l a - n)"
    using assms(2) unfolding transfer_laws_def by blast
  then show "n \<le> cu_reducible cu l a"
    and "cu_reducible cu l' a = (if a = b then cu_reducible cu l a else cu_reducible cu l a - n)"
    by blast+
qed

lemma transfer_succeeds:
  assumes "currency_laws cu" and "n \<le> cu_reducible cu l a" and "cu_can_deposit cu l b n"
  obtains l' where "cu_transfer cu l a b n = Inr l'"
proof -
  have "transfer_laws cu" using assms(1) by (simp add: currency_laws_def)
  then have "\<forall>l a b n. n \<le> cu_reducible cu l a \<longrightarrow> cu_can_deposit cu l b n \<longrightarrow>
      (\<exists>l'. cu_transfer cu l a b n = Inr l')"
    unfolding transfer_laws_def by (rule conjunct2)
  with assms(2,3) that show thesis by blast
qed

lemma mint_keeps:
  assumes "currency_laws cu" and "cu_mint_into cu l a n = Inr l'"
  shows "cu_reducible cu l x \<le> cu_reducible cu l' x"
  using assms unfolding currency_laws_def by blast


section \<open>Considerations\<close>

text \<open>A consideration: tickets for a number of items of a size, which are paid for while they exist.\<close>

record ('l, 't) consideration =
  co_new :: "'l \<Rightarrow> account \<Rightarrow> nat \<Rightarrow> nat \<Rightarrow> token_error + 't \<times> 'l"
  co_update :: "'l \<Rightarrow> 't \<Rightarrow> account \<Rightarrow> nat \<Rightarrow> nat \<Rightarrow> token_error + 't \<times> 'l"
  co_drop :: "'l \<Rightarrow> 't \<Rightarrow> account \<Rightarrow> token_error + 'l"


section \<open>A currency with these laws\<close>

text \<open>
  Free balances in an association list. An account that does not exist can only be given at least
  the minimum balance, and no balance passes the maximum.
\<close>

type_synonym ledger = "(account \<times> nat) list"

definition free_balance :: "ledger \<Rightarrow> account \<Rightarrow> nat" where
  "free_balance l a = (case map_of l a of Some n \<Rightarrow> min n u128_max | None \<Rightarrow> 0)"

definition ledger_can_deposit :: "nat \<Rightarrow> ledger \<Rightarrow> account \<Rightarrow> nat \<Rightarrow> bool" where
  "ledger_can_deposit ed l a n \<longleftrightarrow>
     (n = 0 \<or> ed \<le> n \<or> 0 < free_balance l a) \<and> free_balance l a + n \<le> u128_max"

definition ledger_transfer :: "nat \<Rightarrow> ledger \<Rightarrow> account \<Rightarrow> account \<Rightarrow> nat \<Rightarrow> token_error + ledger" where
  "ledger_transfer ed l a b n =
     (if free_balance l a - ed < n then Inl FundsUnavailable
      else if \<not> ledger_can_deposit ed l b n then Inl BelowMinimum
      else if a = b then Inr l
      else Inr ((a, free_balance l a - n) # (b, free_balance l b + n) # l))"

definition ledger_mint :: "ledger \<Rightarrow> account \<Rightarrow> nat \<Rightarrow> token_error + ledger" where
  "ledger_mint l a n =
     (if u128_max < free_balance l a + n then Inl OverflowError
      else Inr ((a, free_balance l a + n) # l))"

definition ledger_currency :: "nat \<Rightarrow> ledger currency" where
  "ledger_currency ed =
     \<lparr>cu_minimum_balance = ed,
      cu_account_exists = (\<lambda>l a. 0 < free_balance l a),
      cu_reducible = (\<lambda>l a. free_balance l a - ed),
      cu_can_deposit = ledger_can_deposit ed,
      cu_transfer = ledger_transfer ed,
      cu_mint_into = ledger_mint\<rparr>"

lemma free_balance_le: "free_balance l a \<le> u128_max"
  by (simp add: free_balance_def split: option.splits)

lemma free_balance_Cons:
  "n \<le> u128_max \<Longrightarrow> free_balance ((a, n) # l) b = (if b = a then n else free_balance l b)"
  by (simp add: free_balance_def)

lemma ledger_transfer_eq:
  "ledger_transfer ed l a b n = Inr l' \<longleftrightarrow>
     n \<le> free_balance l a - ed \<and> ledger_can_deposit ed l b n \<and>
     l' = (if a = b then l else (a, free_balance l a - n) # (b, free_balance l b + n) # l)"
  by (auto simp: ledger_transfer_def)

lemma ledger_transfer_free:
  assumes "ledger_transfer ed l a b n = Inr l'"
  shows "free_balance l' x =
    (if a = b then free_balance l x else if x = a then free_balance l a - n
     else if x = b then free_balance l b + n else free_balance l x)"
proof -
  have "free_balance l a - n \<le> u128_max" using free_balance_le [of l a] by simp
  moreover have "free_balance l b + n \<le> u128_max"
    using assms by (simp add: ledger_transfer_eq ledger_can_deposit_def)
  ultimately show ?thesis using assms by (simp add: ledger_transfer_eq free_balance_Cons)
qed

lemma ledger_currency_laws:
  assumes "0 < ed" and "ed \<le> u128_max"
  shows "currency_laws (ledger_currency ed)"
proof -
  have "free_balance l a - ed + ed \<le> u128_max" for l a
    using assms(2) free_balance_le [of l a] by simp
  moreover have "n \<le> free_balance l a - ed \<and>
      free_balance l' a - ed = (if a = b then free_balance l a - ed else free_balance l a - ed - n) \<and>
      (\<forall>x. x \<noteq> a \<longrightarrow> free_balance l x - ed \<le> free_balance l' x - ed)"
    if "ledger_transfer ed l a b n = Inr l'" for l a b n l'
  proof -
    have "n \<le> free_balance l a - ed" using that by (simp add: ledger_transfer_eq)
    then show ?thesis by (simp add: ledger_transfer_free [OF that] diff_le_mono add.commute)
  qed
  then have "transfer_laws (ledger_currency ed)"
    by (simp add: transfer_laws_def ledger_currency_def) (simp add: ledger_transfer_eq)
  moreover have "free_balance l x - ed \<le> free_balance l' x - ed"
    if "ledger_mint l a n = Inr l'" for l a n l' x
    using that by (auto simp: ledger_mint_def free_balance_Cons split: if_splits)
  ultimately show ?thesis
    using assms(1) by (simp add: currency_laws_def ledger_currency_def)
qed

end
