(* ===== verification/TokenClaim.thy ===== *)
theory TokenClaim
  imports Frame "HOL-Library.Word"
begin

text \<open>
  The token claim pallet (\<open>pallets/token-claim/src/lib.rs\<close> and \<open>beneficiary.rs\<close>): the beneficiaries of a
  campaign and what each may claim, the calls of the manager and of the claimants, and the check of
  unsigned claims in the transaction pool. The currency, the hash function and the signature schemes
  are fields of the configuration.
\<close>


section \<open>Beneficiaries\<close>

type_synonym eth_address = string

datatype beneficiary_id = Substrate account | Ethereum eth_address

text \<open>\<open>Ord for Beneficiary\<close>: accounts of the chain come before Ethereum addresses.\<close>

instantiation beneficiary_id :: linorder
begin

fun less_beneficiary_id :: "beneficiary_id \<Rightarrow> beneficiary_id \<Rightarrow> bool" where
  "less_beneficiary_id (Substrate a) (Ethereum b) = True"
| "less_beneficiary_id (Ethereum a) (Substrate b) = False"
| "less_beneficiary_id (Substrate a) (Substrate b) = (a < b)"
| "less_beneficiary_id (Ethereum a) (Ethereum b) = (a < b)"

definition less_eq_beneficiary_id :: "beneficiary_id \<Rightarrow> beneficiary_id \<Rightarrow> bool" where
  "less_eq_beneficiary_id x y = (x < y \<or> x = y)"

instance
proof
  fix x y z :: beneficiary_id
  show "x < y \<longleftrightarrow> x \<le> y \<and> \<not> y \<le> x"
    by (cases x; cases y) (auto simp: less_eq_beneficiary_id_def)
  show "x \<le> x" by (simp add: less_eq_beneficiary_id_def)
  show "x \<le> y \<Longrightarrow> y \<le> z \<Longrightarrow> x \<le> z"
    by (cases x; cases y; cases z) (auto simp: less_eq_beneficiary_id_def)
  show "x \<le> y \<Longrightarrow> y \<le> x \<Longrightarrow> x = y"
    by (cases x; cases y) (auto simp: less_eq_beneficiary_id_def)
  show "x \<le> y \<or> y \<le> x"
    by (cases x; cases y) (auto simp: less_eq_beneficiary_id_def)
qed

end

type_synonym entitlements = "(beneficiary_id \<times> nat) list"

datatype claim_signature = SubstrateSig string | EthereumSig string account


section \<open>Configuration and storage\<close>

text \<open>
  \<open>pallet_account\<close> is \<open>PalletId::get().into_account_truncating()\<close>; \<open>clear_prefix\<close> is \<open>clear\<close> of a storage map with a
  limit, which returns what is left, the number of removed entries and whether there is a cursor;
  \<open>ecdsa_recover\<close> recovers the Ethereum address of the signer of a digest.
\<close>

record 'l claim_config =
  pallet_account :: account
  ManagerOrigin :: "origin \<Rightarrow> bool"
  Currency :: "'l currency"
  UnclaimedDestination :: account
  into_account :: "string \<Rightarrow> account"
  signature_verify :: "string \<Rightarrow> string \<Rightarrow> account \<Rightarrow> bool"
  to_bytes_literal :: "account \<Rightarrow> string"
  keccak_256 :: "string \<Rightarrow> string"
  ecdsa_recover :: "string \<Rightarrow> string \<Rightarrow> eth_address option"
  MaxBeneficiaries :: "32 word"
  MaxOpBeneficiaries :: "32 word"
  EthMsgSeparator :: string
  clear_prefix :: "nat \<Rightarrow> entitlements \<Rightarrow> entitlements \<times> nat \<times> bool"

datatype claim_event =
    ClaimStarted "64 word" string
  | Claimed beneficiary_id nat
  | ClaimEnded "64 word" string
  | BeneficiariesRemoved nat
  | NoMoreBeneficiaries

datatype claim_error =
    AlreadyStarted
  | NotEligible
  | NothingToClaim
  | MaxNumBeneficiariesReached
  | TooManyBeneficiaries
  | AlreadyPresent
  | AlreadyEnded
  | NonEmptyBeneficiaries
  | BadSignature
  | InvalidClaimMessage

record 'l claim_storage =
  Beneficiaries :: entitlements
  TotalClaimable :: nat
  ClaimActive :: bool
  ClaimId :: "(64 word \<times> string) option"
  PalletAccountId :: "account option"
  claim_events :: "claim_event list"
  claim_ledger :: 'l

type_synonym ('l, 'a) claim_act = "('l claim_storage, claim_error, 'a) storage_act"

definition deposit_event :: "claim_event \<Rightarrow> ('l, unit) claim_act" where
  "deposit_event e = modify (\<lambda>s. s\<lparr>claim_events := claim_events s @ [e]\<rparr>)"

definition contains_key :: "entitlements \<Rightarrow> beneficiary_id \<Rightarrow> bool" where
  "contains_key m b \<longleftrightarrow> b \<in> fst ` set m"

definition remove_key :: "beneficiary_id \<Rightarrow> entitlements \<Rightarrow> entitlements" where
  "remove_key b m = filter (\<lambda>e. fst e \<noteq> b) m"


section \<open>Signatures\<close>

definition MSG_PREFIX :: string where
  "MSG_PREFIX = ''<Bytes>''"

definition MSG_SUFFIX :: string where
  "MSG_SUFFIX = ''</Bytes>''"

definition eip191_message :: "string \<Rightarrow> string" where
  "eip191_message message =
     CHR 0x19 # ''Ethereum Signed Message:'' @ [CHR 0x0A] @ show_nat (length message) @ message"

definition eip191_hash_message :: "'l claim_config \<Rightarrow> string \<Rightarrow> string" where
  "eip191_hash_message cfg message = keccak_256 cfg (eip191_message message)"

definition message_with_dest :: "'l claim_config \<Rightarrow> string \<Rightarrow> account \<Rightarrow> string" where
  "message_with_dest cfg claim_message dest =
     claim_message @ EthMsgSeparator cfg @ to_bytes_literal cfg dest"

fun verify :: "'l claim_config \<Rightarrow> claim_signature \<Rightarrow> string \<Rightarrow> beneficiary_id \<Rightarrow> bool" where
  "verify cfg (SubstrateSig sub_sig) claim_message (Substrate sub_addr) =
     (signature_verify cfg sub_sig (MSG_PREFIX @ claim_message @ MSG_SUFFIX) sub_addr \<or>
      signature_verify cfg sub_sig claim_message sub_addr)"
| "verify cfg (EthereumSig eth_sig dest) claim_message (Ethereum eth_addr) =
     (ecdsa_recover cfg (eip191_hash_message cfg (message_with_dest cfg claim_message dest)) eth_sig =
      Some eth_addr)"
| "verify cfg _ claim_message _ = False"


section \<open>Helper functions of the pallet\<close>

definition account_id :: "'l claim_config \<Rightarrow> ('l, account) claim_act" where
  "account_id cfg =
     act_bind (gets PalletAccountId) (\<lambda>stored.
       case stored of
         Some account \<Rightarrow> act_return account
       | None \<Rightarrow>
           act_then (modify (\<lambda>s. s\<lparr>PalletAccountId := Some (pallet_account cfg)\<rparr>))
             (act_return (pallet_account cfg)))"

definition pot :: "'l claim_config \<Rightarrow> ('l, nat) claim_act" where
  "pot cfg = act_bind (account_id cfg) (\<lambda>account. gets (\<lambda>s. cu_reducible (Currency cfg) (claim_ledger s) account))"

definition transfer_from_pot :: "'l claim_config \<Rightarrow> account \<Rightarrow> nat \<Rightarrow> ('l, unit) claim_act" where
  "transfer_from_pot cfg dest amount =
     act_bind (account_id cfg) (\<lambda>account s.
       case cu_transfer (Currency cfg) (claim_ledger s) account dest amount of
         Inl e \<Rightarrow> (s, Inl (TokenErr e))
       | Inr l \<Rightarrow> (s\<lparr>claim_ledger := l\<rparr>, Inr ()))"

definition do_claim :: "'l claim_config \<Rightarrow> account \<Rightarrow> nat \<Rightarrow> ('l, unit) claim_act" where
  "do_claim cfg dest amount =
     act_then (transfer_from_pot cfg dest amount)
       (modify (\<lambda>s. s\<lparr>TotalClaimable := TotalClaimable s - amount\<rparr>))"

definition process_claim :: "'l claim_config \<Rightarrow> beneficiary_id \<Rightarrow> ('l, nat) claim_act" where
  "process_claim cfg beneficiary =
     act_bind (gets (\<lambda>s. map_of (Beneficiaries s) beneficiary)) (\<lambda>entry.
       case entry of
         None \<Rightarrow> act_fail (ModuleErr NotEligible)
       | Some amount \<Rightarrow>
           act_bind (pot cfg) (\<lambda>available.
             act_then (ensure (amount \<le> available) (TokenErr FundsUnavailable))
             (act_then (deposit_event (Claimed beneficiary amount))
             (act_then (modify (\<lambda>s. s\<lparr>Beneficiaries := remove_key beneficiary (Beneficiaries s)\<rparr>))
             (act_return amount)))))"

text \<open>The loop over the new beneficiaries, with the amount that the pot has to cover so far.\<close>

fun add_loop :: "nat \<Rightarrow> entitlements \<Rightarrow> nat \<Rightarrow> ('l, nat) claim_act" where
  "add_loop available_amount [] required_amount = act_return required_amount"
| "add_loop available_amount ((beneficiary, amount) # rest) required_amount =
     act_bind (gets (\<lambda>s. contains_key (Beneficiaries s) beneficiary)) (\<lambda>present.
       act_then (ensure (\<not> present) (ModuleErr AlreadyPresent))
       (act_then (ensure (amount \<noteq> 0) (ModuleErr NothingToClaim))
       (act_then (ensure (saturating_add required_amount amount \<le> available_amount)
                   (TokenErr FundsUnavailable))
       (act_then (modify (\<lambda>s. s\<lparr>Beneficiaries := Beneficiaries s @ [(beneficiary, amount)]\<rparr>))
       (add_loop available_amount rest (saturating_add required_amount amount))))))"

definition do_add_beneficiaries :: "'l claim_config \<Rightarrow> entitlements \<Rightarrow> ('l, unit) claim_act" where
  "do_add_beneficiaries cfg beneficiaries =
     act_bind (pot cfg) (\<lambda>available_amount.
     act_bind (gets TotalClaimable) (\<lambda>required_amount.
     act_bind (add_loop available_amount beneficiaries required_amount) (\<lambda>required_amount.
       modify (\<lambda>s. s\<lparr>TotalClaimable := required_amount\<rparr>))))"

definition check_claim_status :: "bool \<Rightarrow> ('l, unit) claim_act" where
  "check_claim_status should_be_active =
     act_bind (gets ClaimActive) (\<lambda>active.
       case (active, should_be_active) of
         (False, True) \<Rightarrow> act_fail (ModuleErr AlreadyEnded)
       | (True, False) \<Rightarrow> act_fail (ModuleErr AlreadyStarted)
       | _ \<Rightarrow> act_return ())"

definition check_max_op_beneficiaries :: "'l claim_config \<Rightarrow> nat \<Rightarrow> ('l, unit) claim_act" where
  "check_max_op_beneficiaries cfg new_beneficiaries_len =
     ensure (new_beneficiaries_len \<le> unat (MaxOpBeneficiaries cfg)) (ModuleErr TooManyBeneficiaries)"

text \<open>The sum is one of 32-bit numbers.\<close>

definition check_max_beneficiaries :: "'l claim_config \<Rightarrow> nat \<Rightarrow> ('l, unit) claim_act" where
  "check_max_beneficiaries cfg new_beneficiaries_len =
     act_bind (gets (\<lambda>s. of_nat (length (Beneficiaries s)) :: 32 word)) (\<lambda>actual.
       ensure (actual + of_nat new_beneficiaries_len \<le> MaxBeneficiaries cfg)
         (ModuleErr MaxNumBeneficiariesReached))"

definition check_beneficiaries_len :: "'l claim_config \<Rightarrow> nat \<Rightarrow> ('l, unit) claim_act" where
  "check_beneficiaries_len cfg n =
     act_then (check_max_op_beneficiaries cfg n) (check_max_beneficiaries cfg n)"

definition do_remove_beneficiaries :: "'l claim_config \<Rightarrow> nat \<Rightarrow> ('l, unit) claim_act" where
  "do_remove_beneficiaries cfg limit =
     act_bind (gets (\<lambda>s. length (Beneficiaries s))) (\<lambda>num_beneficiaries.
       if 0 < num_beneficiaries then
         act_bind (gets (\<lambda>s. clear_prefix cfg limit (Beneficiaries s))) (\<lambda>(left, unique, cursor).
           act_then (modify (\<lambda>s. s\<lparr>Beneficiaries := left\<rparr>))
             (if cursor then deposit_event (BeneficiariesRemoved (num_beneficiaries - unique))
              else deposit_event NoMoreBeneficiaries))
       else act_return ())"

definition check_claimant ::
  "'l claim_config \<Rightarrow> beneficiary_id \<Rightarrow> claim_signature \<Rightarrow> ('l, unit) claim_act"
where
  "check_claimant cfg beneficiary signature =
     act_then (check_claim_status True)
     (act_bind (gets (\<lambda>s. contains_key (Beneficiaries s) beneficiary)) (\<lambda>eligible.
       act_then (ensure eligible (ModuleErr NotEligible))
       (act_bind (gets ClaimId) (\<lambda>claim_id.
         case claim_id of
           None \<Rightarrow> act_fail (PanicErr ''unwrap'')
         | Some (_, claim_message) \<Rightarrow>
             ensure (verify cfg signature claim_message beneficiary) (ModuleErr BadSignature)))))"


section \<open>Calls\<close>

definition begin_claim :: "'l claim_config \<Rightarrow> origin \<Rightarrow> entitlements \<Rightarrow> string \<Rightarrow> ('l, unit) claim_act" where
  "begin_claim cfg origin beneficiaries claim_message =
     act_then (ensure_origin (ManagerOrigin cfg) origin)
     (act_bind (gets (\<lambda>s. length (Beneficiaries s))) (\<lambda>count.
       act_then (ensure (count = 0) (ModuleErr NonEmptyBeneficiaries))
       (act_then (ensure (claim_message \<noteq> []) (ModuleErr InvalidClaimMessage))
       (act_then (check_claim_status False)
       (act_then (modify (\<lambda>s. s\<lparr>ClaimActive := True\<rparr>))
       (act_then
         (if 0 < length beneficiaries
          then act_then (check_max_op_beneficiaries cfg (length beneficiaries))
                 (do_add_beneficiaries cfg beneficiaries)
          else act_return ())
       (act_bind (gets ClaimId) (\<lambda>t.
         let new_id = (case t of None \<Rightarrow> 0 | Some v \<Rightarrow> fst v + 1) in
         act_then (modify (\<lambda>s. s\<lparr>ClaimId := Some (new_id, claim_message)\<rparr>))
           (deposit_event (ClaimStarted new_id claim_message))))))))))"

definition claim :: "'l claim_config \<Rightarrow> origin \<Rightarrow> string \<Rightarrow> string \<Rightarrow> ('l, unit) claim_act" where
  "claim cfg origin beneficiary signature =
     act_then (ensure_none origin)
     (let beneficiary_account = into_account cfg beneficiary;
          beneficiary = Substrate beneficiary_account in
      act_then (check_claimant cfg beneficiary (SubstrateSig signature))
      (act_bind (process_claim cfg beneficiary) (\<lambda>amount.
        do_claim cfg beneficiary_account amount)))"

definition claim_for :: "'l claim_config \<Rightarrow> origin \<Rightarrow> account \<Rightarrow> ('l, unit) claim_act" where
  "claim_for cfg origin dest =
     act_then (ensure_origin (ManagerOrigin cfg) origin)
     (act_then (check_claim_status True)
     (act_bind (process_claim cfg (Substrate dest)) (\<lambda>amount. do_claim cfg dest amount)))"

definition add_beneficiaries :: "'l claim_config \<Rightarrow> origin \<Rightarrow> entitlements \<Rightarrow> ('l, unit) claim_act" where
  "add_beneficiaries cfg origin beneficiaries =
     act_then (check_claim_status True)
     (act_then (ensure_origin (ManagerOrigin cfg) origin)
     (if 0 < length beneficiaries
      then act_then (check_beneficiaries_len cfg (length beneficiaries))
             (do_add_beneficiaries cfg beneficiaries)
      else act_return ()))"

definition end_claim :: "'l claim_config \<Rightarrow> origin \<Rightarrow> ('l, unit) claim_act" where
  "end_claim cfg origin =
     act_then (ensure_origin (ManagerOrigin cfg) origin)
     (act_then (check_claim_status True)
     (act_then (modify (\<lambda>s. s\<lparr>ClaimActive := False\<rparr>))
     (act_bind (account_id cfg) (\<lambda>account.
       act_then
         (if UnclaimedDestination cfg \<noteq> account
          then act_bind (pot cfg) (\<lambda>remaining_funds.
                 transfer_from_pot cfg (UnclaimedDestination cfg) remaining_funds)
          else act_return ())
       (act_then (modify (\<lambda>s. s\<lparr>TotalClaimable := 0\<rparr>))
       (act_bind (gets ClaimId) (\<lambda>claim_id.
         case claim_id of
           None \<Rightarrow> act_fail (PanicErr ''unwrap'')
         | Some (claim_id, claim_message) \<Rightarrow> deposit_event (ClaimEnded claim_id claim_message))))))))"

definition remove_beneficiaries :: "'l claim_config \<Rightarrow> origin \<Rightarrow> nat option \<Rightarrow> ('l, unit) claim_act" where
  "remove_beneficiaries cfg origin limit =
     act_bind (ensure_signed origin) (\<lambda>_.
       act_then (check_claim_status False)
         (do_remove_beneficiaries cfg
           (case limit of Some n \<Rightarrow> n | None \<Rightarrow> unat (MaxOpBeneficiaries cfg))))"

definition claim_ethereum ::
  "'l claim_config \<Rightarrow> origin \<Rightarrow> eth_address \<Rightarrow> string \<Rightarrow> account \<Rightarrow> ('l, unit) claim_act"
where
  "claim_ethereum cfg origin beneficiary signature dest =
     act_then (ensure_none origin)
     (act_then (check_claimant cfg (Ethereum beneficiary) (EthereumSig signature dest))
     (act_bind (process_claim cfg (Ethereum beneficiary)) (\<lambda>amount. do_claim cfg dest amount)))"

definition claim_ethereum_for ::
  "'l claim_config \<Rightarrow> origin \<Rightarrow> eth_address \<Rightarrow> account \<Rightarrow> ('l, unit) claim_act"
where
  "claim_ethereum_for cfg origin beneficiary dest =
     act_then (ensure_origin (ManagerOrigin cfg) origin)
     (act_then (check_claim_status True)
     (act_bind (process_claim cfg (Ethereum beneficiary)) (\<lambda>amount. do_claim cfg dest amount)))"

datatype claim_call =
    BeginClaim entitlements string
  | Claim string string
  | ClaimFor account
  | AddBeneficiaries entitlements
  | EndClaim
  | RemoveBeneficiaries "nat option"
  | ClaimEthereum eth_address string account
  | ClaimEthereumFor eth_address account

fun claim_call_body :: "'l claim_config \<Rightarrow> origin \<Rightarrow> claim_call \<Rightarrow> ('l, unit) claim_act" where
  "claim_call_body cfg origin (BeginClaim beneficiaries msg) = begin_claim cfg origin beneficiaries msg"
| "claim_call_body cfg origin (Claim beneficiary signature) = claim cfg origin beneficiary signature"
| "claim_call_body cfg origin (ClaimFor dest) = claim_for cfg origin dest"
| "claim_call_body cfg origin (AddBeneficiaries beneficiaries) = add_beneficiaries cfg origin beneficiaries"
| "claim_call_body cfg origin EndClaim = end_claim cfg origin"
| "claim_call_body cfg origin (RemoveBeneficiaries limit) = remove_beneficiaries cfg origin limit"
| "claim_call_body cfg origin (ClaimEthereum beneficiary signature dest) =
     claim_ethereum cfg origin beneficiary signature dest"
| "claim_call_body cfg origin (ClaimEthereumFor beneficiary dest) =
     claim_ethereum_for cfg origin beneficiary dest"

definition claim_dispatch :: "'l claim_config \<Rightarrow> origin \<times> claim_call \<Rightarrow> ('l, unit) claim_act" where
  "claim_dispatch cfg c = transactional (claim_call_body cfg (fst c) (snd c))"


section \<open>Hooks, genesis and the transaction pool\<close>

definition claim_on_initialize :: "'l claim_config \<Rightarrow> 'l claim_storage \<Rightarrow> 'l claim_storage" where
  "claim_on_initialize cfg s =
     (case account_id cfg s of
        (s', Inr account) \<Rightarrow>
          if \<not> cu_account_exists (Currency cfg) (claim_ledger s') account then
            (case cu_mint_into (Currency cfg) (claim_ledger s') account
                (cu_minimum_balance (Currency cfg)) of
               Inr l \<Rightarrow> s'\<lparr>claim_ledger := l\<rparr>
             | Inl _ \<Rightarrow> s')
          else s'
      | (s', Inl _) \<Rightarrow> s')"

definition claim_genesis :: "'l \<Rightarrow> 'l claim_storage" where
  "claim_genesis l =
     \<lparr>Beneficiaries = [], TotalClaimable = 0, ClaimActive = False, ClaimId = None,
      PalletAccountId = None, claim_events = [], claim_ledger = l\<rparr>"

definition claim_genesis_build :: "'l claim_config \<Rightarrow> entitlements \<Rightarrow> string \<Rightarrow> ('l, unit) claim_act" where
  "claim_genesis_build cfg beneficiaries claim_message =
     act_then (ensure (MaxOpBeneficiaries cfg \<le> MaxBeneficiaries cfg) (PanicErr ''assert''))
     (act_then (modify (\<lambda>s. s\<lparr>TotalClaimable := 0\<rparr>))
     (if 0 < length beneficiaries then
        act_then (ensure (claim_message \<noteq> []) (PanicErr ''InvalidClaimMessage''))
        (act_then (check_max_beneficiaries cfg (length beneficiaries))
        (act_then (do_add_beneficiaries cfg (btree_collect beneficiaries))
        (modify (\<lambda>s. s\<lparr>ClaimActive := True, ClaimId := Some (0, claim_message)\<rparr>))))
      else act_return ()))"

datatype invalid_transaction = Stale | BadSigner | BadProof | Custom nat | CallInvalid

fun validity_error :: "claim_error \<Rightarrow> invalid_transaction" where
  "validity_error AlreadyEnded = Stale"
| "validity_error NotEligible = BadSigner"
| "validity_error BadSignature = BadProof"
| "validity_error _ = Custom 0"

text \<open>
  The tag that a valid unsigned claim provides: two transactions with the same tag exclude each
  other in the pool. A panic of the check has no value.
\<close>

type_synonym claim_tag = "string \<times> (64 word \<times> string) \<times> beneficiary_id"

definition validate_claimant ::
  "'l claim_config \<Rightarrow> string \<Rightarrow> beneficiary_id \<Rightarrow> claim_signature \<Rightarrow> 'l claim_storage \<Rightarrow>
   (invalid_transaction + claim_tag) option"
where
  "validate_claimant cfg name beneficiary signature s =
     (case snd (check_claimant cfg beneficiary signature s) of
        Inl (ModuleErr e) \<Rightarrow> Some (Inl (validity_error e))
      | Inl _ \<Rightarrow> None
      | Inr _ \<Rightarrow> (case ClaimId s of
                   None \<Rightarrow> None
                 | Some claim_id \<Rightarrow> Some (Inr (name, claim_id, beneficiary))))"

fun validate_unsigned ::
  "'l claim_config \<Rightarrow> claim_call \<Rightarrow> 'l claim_storage \<Rightarrow> (invalid_transaction + claim_tag) option"
where
  "validate_unsigned cfg (Claim beneficiary signature) s =
     validate_claimant cfg ''claim'' (Substrate (into_account cfg beneficiary)) (SubstrateSig signature) s"
| "validate_unsigned cfg (ClaimEthereum beneficiary signature dest) s =
     validate_claimant cfg ''claim_ethereum'' (Ethereum beneficiary) (EthereumSig signature dest) s"
| "validate_unsigned cfg _ s = Some (Inl CallInvalid)"


section \<open>The calls as guarded updates\<close>

text \<open>
  What the pallet relies on: the laws of the currency, that clearing a map removes at least as many
  entries as asked for, all of them when there is no cursor, and changes no other, and the sizes of
  the configuration.
\<close>

definition clear_laws :: "(nat \<Rightarrow> entitlements \<Rightarrow> entitlements \<times> nat \<times> bool) \<Rightarrow> bool" where
  "clear_laws clear \<longleftrightarrow>
     (\<forall>n m left unique cursor. clear n m = (left, unique, cursor) \<longrightarrow>
        (\<exists>removed. mset (left @ removed) = mset m \<and> length removed = unique) \<and>
        min n (length m) \<le> unique \<and> (\<not> cursor \<longrightarrow> left = []))"

definition claim_config_ok :: "'l claim_config \<Rightarrow> bool" where
  "claim_config_ok cfg \<longleftrightarrow>
     currency_laws (Currency cfg) \<and> clear_laws (clear_prefix cfg) \<and>
     MaxOpBeneficiaries cfg \<le> MaxBeneficiaries cfg \<and> unat (MaxBeneficiaries cfg) < 2 ^ 31"

definition amounts :: "entitlements \<Rightarrow> nat" where
  "amounts m = sum_list (map snd m)"

lemma amounts_simps [simp]:
  "amounts [] = 0" "amounts (e # m) = snd e + amounts m" "amounts (m @ m') = amounts m + amounts m'"
  by (simp_all add: amounts_def)

lemma amounts_mset: "mset m = mset m' \<Longrightarrow> amounts m = amounts m'"
  unfolding amounts_def by (metis mset_map sum_mset_sum_list)

lemma remove_key_absent: "b \<notin> fst ` set m \<Longrightarrow> remove_key b m = m"
  by (induction m) (auto simp: remove_key_def)

lemma amounts_remove_key:
  "distinct (map fst m) \<Longrightarrow> map_of m b = Some n \<Longrightarrow> amounts m = n + amounts (remove_key b m)"
proof (induction m)
  case Nil
  then show ?case by simp
next
  case (Cons e m)
  show ?case
  proof (cases "fst e = b")
    case True
    then have "remove_key b m = m" using Cons.prems(1) by (auto intro: remove_key_absent)
    then show ?thesis using True Cons.prems(2) by (cases e) (simp add: remove_key_def)
  next
    case False
    then show ?thesis using Cons by (cases e) (simp add: remove_key_def)
  qed
qed

lemma remove_key_distinct: "distinct (map fst m) \<Longrightarrow> distinct (map fst (remove_key b m))"
  by (simp add: remove_key_def distinct_map_filter)

lemma remove_key_subset: "set (remove_key b m) \<subseteq> set m" "length (remove_key b m) \<le> length m"
  by (auto simp: remove_key_def)

lemma map_of_remove_key: "map_of (remove_key b m) c = (if c = b then None else map_of m c)"
  by (induction m) (auto simp: remove_key_def)

definition account_ok :: "'l claim_config \<Rightarrow> 'l claim_storage \<Rightarrow> bool" where
  "account_ok cfg s \<longleftrightarrow> PalletAccountId s = None \<or> PalletAccountId s = Some (pallet_account cfg)"

definition settled :: "'l claim_config \<Rightarrow> 'l claim_storage \<Rightarrow> 'l claim_storage" where
  "settled cfg s = s\<lparr>PalletAccountId := Some (pallet_account cfg)\<rparr>"

definition pot_of :: "'l claim_config \<Rightarrow> 'l claim_storage \<Rightarrow> nat" where
  "pot_of cfg s = cu_reducible (Currency cfg) (claim_ledger s) (pallet_account cfg)"

lemma settled_sel [simp]:
  "Beneficiaries (settled cfg s) = Beneficiaries s" "TotalClaimable (settled cfg s) = TotalClaimable s"
  "ClaimActive (settled cfg s) = ClaimActive s" "ClaimId (settled cfg s) = ClaimId s"
  "claim_events (settled cfg s) = claim_events s" "claim_ledger (settled cfg s) = claim_ledger s"
  "PalletAccountId (settled cfg s) = Some (pallet_account cfg)" "account_ok cfg (settled cfg s)"
  "settled cfg (settled cfg s) = settled cfg s" "pot_of cfg (settled cfg s) = pot_of cfg s"
  by (simp_all add: settled_def account_ok_def pot_of_def)

lemma account_id_eq:
  "account_ok cfg s \<Longrightarrow> account_id cfg s = (settled cfg s, Inr (pallet_account cfg))"
  by (cases s) (auto simp: account_id_def account_ok_def settled_def)

lemma pot_eq: "account_ok cfg s \<Longrightarrow> pot cfg s = (settled cfg s, Inr (pot_of cfg s))"
  by (simp add: pot_def act_bind_def account_id_eq) (simp add: pot_of_def)

lemma transfer_from_pot_eq:
  "account_ok cfg s \<Longrightarrow> transfer_from_pot cfg dest n s =
     (case cu_transfer (Currency cfg) (claim_ledger s) (pallet_account cfg) dest n of
        Inl e \<Rightarrow> (settled cfg s, Inl (TokenErr e))
      | Inr l \<Rightarrow> ((settled cfg s)\<lparr>claim_ledger := l\<rparr>, Inr ()))"
  by (simp add: transfer_from_pot_def act_bind_def account_id_eq)

lemma check_claim_status_eq:
  "check_claim_status b s =
     (s, if ClaimActive s = b then Inr ()
         else Inl (ModuleErr (if b then AlreadyEnded else AlreadyStarted)))"
  by (simp add: check_claim_status_def split: bool.splits)

lemma check_claim_status_Inr [simp]: "check_claim_status b s = (s', Inr u) \<longleftrightarrow> ClaimActive s = b \<and> s' = s"
  by (auto simp: check_claim_status_eq)

text \<open>The entries that the loop of \<open>do_add_beneficiaries\<close> lets through.\<close>

definition addable :: "entitlements \<Rightarrow> entitlements \<Rightarrow> nat \<Rightarrow> nat \<Rightarrow> bool" where
  "addable m es available required \<longleftrightarrow>
     distinct (map fst es) \<and> fst ` set es \<inter> fst ` set m = {} \<and> (\<forall>e\<in>set es. snd e \<noteq> 0) \<and>
     (es \<noteq> [] \<longrightarrow> required + amounts es \<le> available)"

lemma saturating_add_le:
  "available < u128_max \<Longrightarrow> saturating_add r n \<le> available \<longleftrightarrow> r + n \<le> available"
  by (auto simp: saturating_add_def)

lemma saturating_add_eq: "r + n \<le> available \<Longrightarrow> available < u128_max \<Longrightarrow> saturating_add r n = r + n"
  by (simp add: saturating_add_def)

lemma add_loop_Inr:
  assumes "available < u128_max"
  shows "add_loop available es required s = (s', Inr r) \<longleftrightarrow>
    addable (Beneficiaries s) es available required \<and>
    s' = s\<lparr>Beneficiaries := Beneficiaries s @ es\<rparr> \<and> r = required + amounts es"
proof (induction es arbitrary: required s)
  case Nil
  show ?case by (auto simp: addable_def)
next
  case (Cons e es)
  obtain b n where e: "e = (b, n)" by (cases e)
  let ?s = "s\<lparr>Beneficiaries := Beneficiaries s @ [(b, n)]\<rparr>"
  have "add_loop available (e # es) required s = (s', Inr r) \<longleftrightarrow>
      b \<notin> fst ` set (Beneficiaries s) \<and> n \<noteq> 0 \<and> required + n \<le> available \<and>
      add_loop available es (saturating_add required n) ?s = (s', Inr r)"
    using assms by (auto simp: e call_simps contains_key_def saturating_add_le)
  also have "\<dots> \<longleftrightarrow> b \<notin> fst ` set (Beneficiaries s) \<and> n \<noteq> 0 \<and> required + n \<le> available \<and>
      add_loop available es (required + n) ?s = (s', Inr r)"
    using saturating_add_eq [OF _ assms] by metis
  also have "\<dots> \<longleftrightarrow> addable (Beneficiaries s) (e # es) available required \<and>
      s' = s\<lparr>Beneficiaries := Beneficiaries s @ (e # es)\<rparr> \<and> r = required + amounts (e # es)"
    unfolding Cons.IH by (auto simp: addable_def e)
  finally show ?case .
qed

lemma do_add_beneficiaries_Inr:
  assumes "currency_laws (Currency cfg)" and "account_ok cfg s"
  shows "do_add_beneficiaries cfg es s = (s', Inr u) \<longleftrightarrow>
    addable (Beneficiaries s) es (pot_of cfg s) (TotalClaimable s) \<and>
    s' = (settled cfg s)\<lparr>Beneficiaries := Beneficiaries s @ es,
      TotalClaimable := TotalClaimable s + amounts es\<rparr>"
proof -
  have "pot_of cfg s < u128_max" unfolding pot_of_def by (rule reducible_below_max [OF assms(1)])
  then show ?thesis
    by (auto simp: do_add_beneficiaries_def call_Inr pot_eq [OF assms(2)] add_loop_Inr)
qed

text \<open>Paying out an entitlement, as \<open>process_claim\<close> followed by \<open>do_claim\<close>.\<close>

definition paid :: "'l claim_config \<Rightarrow> beneficiary_id \<Rightarrow> nat \<Rightarrow> 'l \<Rightarrow> 'l claim_storage \<Rightarrow> 'l claim_storage" where
  "paid cfg b n l s =
     (settled cfg s)\<lparr>Beneficiaries := remove_key b (Beneficiaries s),
       TotalClaimable := TotalClaimable s - n,
       claim_events := claim_events s @ [Claimed b n], claim_ledger := l\<rparr>"

lemma process_claim_eq:
  assumes "account_ok cfg s"
  shows "process_claim cfg b s =
    (case map_of (Beneficiaries s) b of
       None \<Rightarrow> (s, Inl (ModuleErr NotEligible))
     | Some n \<Rightarrow> if n \<le> pot_of cfg s
         then ((settled cfg s)\<lparr>claim_events := claim_events s @ [Claimed b n],
                 Beneficiaries := remove_key b (Beneficiaries s)\<rparr>, Inr n)
         else (settled cfg s, Inl (TokenErr FundsUnavailable)))"
  by (auto simp: process_claim_def call_simps pot_eq [OF assms] act_bind_def deposit_event_def
      split: option.splits)

lemma pay_eq:
  assumes "account_ok cfg s"
  shows "act_bind (process_claim cfg b) (do_claim cfg dest) s =
    (case map_of (Beneficiaries s) b of
       None \<Rightarrow> (s, Inl (ModuleErr NotEligible))
     | Some n \<Rightarrow> if n \<le> pot_of cfg s
         then (case cu_transfer (Currency cfg) (claim_ledger s) (pallet_account cfg) dest n of
                 Inl e \<Rightarrow> ((settled cfg s)\<lparr>claim_events := claim_events s @ [Claimed b n],
                            Beneficiaries := remove_key b (Beneficiaries s)\<rparr>, Inl (TokenErr e))
               | Inr l \<Rightarrow> (paid cfg b n l s, Inr ()))
         else (settled cfg s, Inl (TokenErr FundsUnavailable)))"
proof -
  have "account_ok cfg ((settled cfg s)\<lparr>claim_events := e, Beneficiaries := m\<rparr>)" for e m
    by (simp add: account_ok_def)
  then show ?thesis
    by (auto simp: act_bind_def process_claim_eq [OF assms] do_claim_def act_then_def
        transfer_from_pot_eq paid_def settled_def split: option.splits sum.splits)
qed

lemma pay_Inr:
  assumes "account_ok cfg s"
  shows "act_bind (process_claim cfg b) (do_claim cfg dest) s = (s', Inr u) \<longleftrightarrow>
    (\<exists>n l. map_of (Beneficiaries s) b = Some n \<and> n \<le> pot_of cfg s \<and>
       cu_transfer (Currency cfg) (claim_ledger s) (pallet_account cfg) dest n = Inr l \<and>
       s' = paid cfg b n l s)"
  by (auto simp: pay_eq [OF assms] split: option.splits sum.splits)

definition signed_by :: "'l claim_config \<Rightarrow> beneficiary_id \<Rightarrow> claim_signature \<Rightarrow> 'l claim_storage \<Rightarrow> bool" where
  "signed_by cfg b sig s \<longleftrightarrow> (\<exists>i msg. ClaimId s = Some (i, msg) \<and> verify cfg sig msg b)"

lemma check_claimant_eq:
  "check_claimant cfg b sig s =
     (s, if \<not> ClaimActive s then Inl (ModuleErr AlreadyEnded)
         else if b \<notin> fst ` set (Beneficiaries s) then Inl (ModuleErr NotEligible)
         else case ClaimId s of
           None \<Rightarrow> Inl (PanicErr ''unwrap'')
         | Some (_, msg) \<Rightarrow> if verify cfg sig msg b then Inr () else Inl (ModuleErr BadSignature))"
  by (auto simp: check_claimant_def call_simps contains_key_def check_claim_status_eq act_then_def
      act_bind_def split: option.splits)

lemma check_claimant_Inr:
  "check_claimant cfg b sig s = (s', Inr u) \<longleftrightarrow>
     ClaimActive s \<and> b \<in> fst ` set (Beneficiaries s) \<and> signed_by cfg b sig s \<and> s' = s"
  by (auto simp: check_claimant_eq signed_by_def split: option.splits if_splits)

lemma validate_claimant_eq:
  "validate_claimant cfg name b sig s =
     (if \<not> ClaimActive s then Some (Inl Stale)
      else if b \<notin> fst ` set (Beneficiaries s) then Some (Inl BadSigner)
      else case ClaimId s of
        None \<Rightarrow> None
      | Some (i, msg) \<Rightarrow> Some (if verify cfg sig msg b then Inr (name, (i, msg), b) else Inl BadProof))"
  by (auto simp: validate_claimant_def check_claimant_eq split: option.splits)

end
