(* ===== verification/ClaimChain.thy ===== *)
theory ClaimChain
  imports TokenClaim
begin

text \<open>
  The token claim pallet on a chain: what every call does when it succeeds, the invariant that keeps a
  campaign solvent, and what follows for the beneficiaries, the transaction pool and the end of a
  campaign.
\<close>


section \<open>Successful calls\<close>

definition next_claim_id :: "'l claim_storage \<Rightarrow> 64 word" where
  "next_claim_id s = (case ClaimId s of None \<Rightarrow> 0 | Some v \<Rightarrow> fst v + 1)"

definition started :: "string \<Rightarrow> 'l claim_storage \<Rightarrow> 'l claim_storage" where
  "started msg s =
     s\<lparr>ClaimActive := True, ClaimId := Some (next_claim_id s, msg),
       claim_events := claim_events s @ [ClaimStarted (next_claim_id s) msg]\<rparr>"

definition extended :: "'l claim_config \<Rightarrow> entitlements \<Rightarrow> 'l claim_storage \<Rightarrow> 'l claim_storage" where
  "extended cfg es s =
     (if es = [] then s
      else (settled cfg s)\<lparr>Beneficiaries := Beneficiaries s @ es,
             TotalClaimable := TotalClaimable s + amounts es\<rparr>)"

lemma extended_sel [simp]:
  "Beneficiaries (extended cfg es s) = Beneficiaries s @ es"
  "TotalClaimable (extended cfg es s) = TotalClaimable s + amounts es"
  "ClaimActive (extended cfg es s) = ClaimActive s" "ClaimId (extended cfg es s) = ClaimId s"
  "claim_ledger (extended cfg es s) = claim_ledger s"
  "claim_events (extended cfg es s) = claim_events s"
  "account_ok cfg s \<Longrightarrow> account_ok cfg (extended cfg es s)"
  "pot_of cfg (extended cfg es s) = pot_of cfg s"
  by (auto simp: extended_def account_ok_def pot_of_def)

lemma started_sel [simp]:
  "Beneficiaries (started msg s) = Beneficiaries s" "TotalClaimable (started msg s) = TotalClaimable s"
  "ClaimActive (started msg s)" "ClaimId (started msg s) = Some (next_claim_id s, msg)"
  "claim_ledger (started msg s) = claim_ledger s" "PalletAccountId (started msg s) = PalletAccountId s"
  "pot_of cfg (started msg s) = pot_of cfg s" "account_ok cfg (started msg s) = account_ok cfg s"
  by (simp_all add: started_def pot_of_def account_ok_def)

lemma begin_claim_Inr:
  assumes "currency_laws (Currency cfg)" and "account_ok cfg s"
  shows "begin_claim cfg og es msg s = (s', Inr u) \<longleftrightarrow>
    ManagerOrigin cfg og \<and> Beneficiaries s = [] \<and> msg \<noteq> [] \<and> \<not> ClaimActive s \<and>
    length es \<le> unat (MaxOpBeneficiaries cfg) \<and> addable [] es (pot_of cfg s) (TotalClaimable s) \<and>
    s' = started msg (extended cfg es s)"
proof -
  let ?s = "s\<lparr>ClaimActive := True\<rparr>"
  have ok: "account_ok cfg ?s" "pot_of cfg ?s = pot_of cfg s"
    using assms(2) by (simp_all add: account_ok_def pot_of_def)
  have "act_then (check_max_op_beneficiaries cfg (length es)) (do_add_beneficiaries cfg es) ?s = (t, Inr v) \<longleftrightarrow>
      length es \<le> unat (MaxOpBeneficiaries cfg) \<and>
      addable (Beneficiaries s) es (pot_of cfg s) (TotalClaimable s) \<and>
      t = (settled cfg ?s)\<lparr>Beneficiaries := Beneficiaries s @ es,
        TotalClaimable := TotalClaimable s + amounts es\<rparr>" for t v
    using do_add_beneficiaries_Inr [OF assms(1) ok(1)]
    by (auto simp: check_max_op_beneficiaries_def call_simps ok)
  then show ?thesis
    by (cases "es = []")
      (auto simp: begin_claim_def origin_simps call_simps call_Inr check_claim_status_eq deposit_event_def
        extended_def started_def next_claim_id_def settled_def addable_def Let_def)
qed

lemma add_beneficiaries_Inr:
  assumes "currency_laws (Currency cfg)" and "account_ok cfg s"
  shows "add_beneficiaries cfg og es s = (s', Inr u) \<longleftrightarrow>
    ClaimActive s \<and> ManagerOrigin cfg og \<and>
    (es \<noteq> [] \<longrightarrow> length es \<le> unat (MaxOpBeneficiaries cfg) \<and>
       of_nat (length (Beneficiaries s)) + of_nat (length es) \<le> MaxBeneficiaries cfg) \<and>
    addable (Beneficiaries s) es (pot_of cfg s) (TotalClaimable s) \<and> s' = extended cfg es s"
  using do_add_beneficiaries_Inr [OF assms]
  by (auto simp: add_beneficiaries_def origin_simps call_Inr check_beneficiaries_len_def
      check_max_op_beneficiaries_def check_max_beneficiaries_def extended_def addable_def)

lemma claim_Inr:
  assumes "account_ok cfg s"
  shows "claim cfg og signer sig s = (s', Inr u) \<longleftrightarrow>
    og = NoOrigin \<and> ClaimActive s \<and>
    signed_by cfg (Substrate (into_account cfg signer)) (SubstrateSig sig) s \<and>
    act_bind (process_claim cfg (Substrate (into_account cfg signer)))
      (do_claim cfg (into_account cfg signer)) s = (s', Inr ())"
proof -
  have "b \<in> fst ` set (Beneficiaries s)" if "map_of (Beneficiaries s) b = Some n" for b n
    using map_of_SomeD [OF that] by (metis fst_conv image_eqI)
  then show ?thesis
    by (auto simp: claim_def origin_simps act_then_eq_Inr check_claimant_Inr Let_def pay_Inr [OF assms])
qed

lemma claim_ethereum_Inr:
  assumes "account_ok cfg s"
  shows "claim_ethereum cfg og eth sig dest s = (s', Inr u) \<longleftrightarrow>
    og = NoOrigin \<and> ClaimActive s \<and> signed_by cfg (Ethereum eth) (EthereumSig sig dest) s \<and>
    act_bind (process_claim cfg (Ethereum eth)) (do_claim cfg dest) s = (s', Inr ())"
proof -
  have "b \<in> fst ` set (Beneficiaries s)" if "map_of (Beneficiaries s) b = Some n" for b n
    using map_of_SomeD [OF that] by (metis fst_conv image_eqI)
  then show ?thesis
    by (auto simp: claim_ethereum_def origin_simps act_then_eq_Inr check_claimant_Inr pay_Inr [OF assms])
qed

lemma claim_for_Inr:
  "claim_for cfg og dest s = (s', Inr u) \<longleftrightarrow>
     ManagerOrigin cfg og \<and> ClaimActive s \<and>
     act_bind (process_claim cfg (Substrate dest)) (do_claim cfg dest) s = (s', Inr ())"
  by (auto simp: claim_for_def origin_simps act_then_eq_Inr)

lemma claim_ethereum_for_Inr:
  "claim_ethereum_for cfg og eth dest s = (s', Inr u) \<longleftrightarrow>
     ManagerOrigin cfg og \<and> ClaimActive s \<and>
     act_bind (process_claim cfg (Ethereum eth)) (do_claim cfg dest) s = (s', Inr ())"
  by (auto simp: claim_ethereum_for_def origin_simps act_then_eq_Inr)

definition ended :: "'l claim_config \<Rightarrow> 'l \<Rightarrow> 64 word \<times> string \<Rightarrow> 'l claim_storage \<Rightarrow> 'l claim_storage" where
  "ended cfg l i s =
     (settled cfg s)\<lparr>ClaimActive := False, TotalClaimable := 0, claim_ledger := l,
       claim_events := claim_events s @ [ClaimEnded (fst i) (snd i)]\<rparr>"

lemma end_claim_Inr:
  assumes "account_ok cfg s"
  shows "end_claim cfg og s = (s', Inr u) \<longleftrightarrow>
    ManagerOrigin cfg og \<and> ClaimActive s \<and>
    (\<exists>l i. ClaimId s = Some i \<and>
       (if UnclaimedDestination cfg = pallet_account cfg then l = claim_ledger s
        else cu_transfer (Currency cfg) (claim_ledger s) (pallet_account cfg)
          (UnclaimedDestination cfg) (pot_of cfg s) = Inr l) \<and>
       s' = ended cfg l i s)"
proof -
  have ok: "account_ok cfg (s\<lparr>ClaimActive := False\<rparr>)"
    using assms by (simp add: account_ok_def)
  show ?thesis
    by (auto simp: end_claim_def origin_simps call_Inr account_id_eq [OF ok] pot_eq transfer_from_pot_eq
        pot_of_def ended_def settled_def account_ok_def deposit_event_def
        split: if_splits sum.splits option.splits)
qed

lemma do_remove_beneficiaries_eq:
  "do_remove_beneficiaries cfg n s =
     (if Beneficiaries s = [] then (s, Inr ())
      else case clear_prefix cfg n (Beneficiaries s) of (left, unique, cursor) \<Rightarrow>
        (s\<lparr>Beneficiaries := left, claim_events := claim_events s @
            [if cursor then BeneficiariesRemoved (length (Beneficiaries s) - unique)
             else NoMoreBeneficiaries]\<rparr>, Inr ()))"
  by (auto simp: do_remove_beneficiaries_def deposit_event_def split: prod.splits)

lemma remove_beneficiaries_Inr:
  "remove_beneficiaries cfg og limit s = (s', Inr u) \<longleftrightarrow>
     (\<exists>a. og = Signed a) \<and> \<not> ClaimActive s \<and>
     do_remove_beneficiaries cfg
       (case limit of Some n \<Rightarrow> n | None \<Rightarrow> unat (MaxOpBeneficiaries cfg)) s = (s', Inr ())"
  by (auto simp: remove_beneficiaries_def call_Inr)


section \<open>The invariant of a campaign\<close>

definition claim_inv :: "'l claim_config \<Rightarrow> 'l claim_storage \<Rightarrow> bool" where
  "claim_inv cfg s \<longleftrightarrow>
     account_ok cfg s \<and> distinct (map fst (Beneficiaries s)) \<and>
     (\<forall>e\<in>set (Beneficiaries s). 0 < snd e) \<and>
     length (Beneficiaries s) \<le> unat (MaxBeneficiaries cfg) \<and>
     (if ClaimActive s
      then TotalClaimable s = amounts (Beneficiaries s) \<and> TotalClaimable s \<le> pot_of cfg s \<and>
           ClaimId s \<noteq> None
      else TotalClaimable s = 0)"

lemma claim_inv_account: "claim_inv cfg s \<Longrightarrow> account_ok cfg s"
  by (simp add: claim_inv_def)

lemma claim_inv_started:
  assumes "claim_inv cfg s" and "Beneficiaries s = []" and "\<not> ClaimActive s"
    and "addable [] es (pot_of cfg s) (TotalClaimable s)" and "length es \<le> unat (MaxBeneficiaries cfg)"
  shows "claim_inv cfg (started msg (extended cfg es s))"
  using assms
  by (cases "es = []") (auto simp: claim_inv_def addable_def)

lemma word_sum_le:
  assumes "of_nat m + of_nat n \<le> (k :: 32 word)" and "m \<le> unat k" and "n \<le> unat k" and "unat k < 2 ^ 31"
  shows "m + n \<le> unat k"
proof -
  have "m + n < 2 ^ LENGTH(32)" using assms(2-4) by simp
  then have "unat (of_nat (m + n) :: 32 word) = m + n"
    by (simp add: unsigned_of_nat take_bit_nat_eq_self del: of_nat_add)
  then show ?thesis using assms(1) by (simp add: word_le_nat_alt)
qed

lemma claim_inv_extended:
  assumes "claim_inv cfg s" and "ClaimActive s"
    and "addable (Beneficiaries s) es (pot_of cfg s) (TotalClaimable s)"
    and "length (Beneficiaries s) + length es \<le> unat (MaxBeneficiaries cfg)"
  shows "claim_inv cfg (extended cfg es s)"
  using assms by (cases "es = []") (auto simp: claim_inv_def addable_def)

lemma claim_inv_paid:
  assumes "currency_laws (Currency cfg)" and "claim_inv cfg s" and "ClaimActive s"
    and "map_of (Beneficiaries s) b = Some n"
    and "cu_transfer (Currency cfg) (claim_ledger s) (pallet_account cfg) dest n = Inr l"
  shows "claim_inv cfg (paid cfg b n l s)"
proof -
  have sum: "amounts (Beneficiaries s) = n + amounts (remove_key b (Beneficiaries s))"
    using assms(2,4) by (simp add: claim_inv_def amounts_remove_key)
  have "amounts (Beneficiaries s) - n \<le> cu_reducible (Currency cfg) l (pallet_account cfg)"
    using transfer_spent(2) [OF assms(1,5)] assms(2,3)
    by (auto simp: claim_inv_def pot_of_def split: if_splits)
  then have "pot_of cfg (paid cfg b n l s) \<ge> amounts (remove_key b (Beneficiaries s))"
    by (simp add: sum pot_of_def paid_def)
  then show ?thesis
    using assms(2,3) sum remove_key_subset [of b "Beneficiaries s"]
    by (auto simp: claim_inv_def paid_def account_ok_def remove_key_distinct)
qed

lemma claim_inv_ended:
  assumes "claim_inv cfg s"
  shows "claim_inv cfg (ended cfg l i s)"
  using assms by (auto simp: claim_inv_def ended_def account_ok_def)

lemma clear_prefix_laws:
  assumes "clear_laws clear" and "clear n m = (left, unique, cursor)"
  obtains removed where "mset (left @ removed) = mset m" and "length left + unique = length m"
    and "min n (length m) \<le> unique" and "\<not> cursor \<Longrightarrow> left = []"
proof -
  obtain removed where r: "mset (left @ removed) = mset m" "length removed = unique"
    "min n (length m) \<le> unique" "\<not> cursor \<Longrightarrow> left = []"
    using assms unfolding clear_laws_def by blast
  then have "length left + unique = length m" by (metis length_append mset_eq_length)
  then show thesis using that r by blast
qed

lemma claim_inv_removed:
  assumes "clear_laws (clear_prefix cfg)" and "claim_inv cfg s" and "\<not> ClaimActive s"
  shows "claim_inv cfg (fst (do_remove_beneficiaries cfg n s))"
proof -
  obtain left unique cursor where c: "clear_prefix cfg n (Beneficiaries s) = (left, unique, cursor)"
    by (metis prod_cases3)
  from clear_prefix_laws [OF assms(1) c] obtain removed where
    r: "mset (left @ removed) = mset (Beneficiaries s)" and "length left \<le> length (Beneficiaries s)"
    by (metis le_add1)
  moreover have "set left \<subseteq> set (Beneficiaries s)" using mset_eq_setD [OF r] by auto
  moreover have "mset (map fst (left @ removed)) = mset (map fst (Beneficiaries s))"
    using r by (simp only: mset_map)
  then have "distinct (map fst left)"
    using assms(2) mset_eq_imp_distinct_iff by (fastforce simp: claim_inv_def)
  ultimately show ?thesis
    using assms(2,3) by (auto simp: do_remove_beneficiaries_eq c claim_inv_def account_ok_def)
qed

lemma claim_body_inv:
  assumes cfg: "claim_config_ok cfg" and inv: "claim_inv cfg s"
    and run: "claim_call_body cfg og c s = (s', Inr ())"
  shows "claim_inv cfg s'"
proof -
  have laws: "currency_laws (Currency cfg)" "clear_laws (clear_prefix cfg)"
    and sizes: "unat (MaxOpBeneficiaries cfg) \<le> unat (MaxBeneficiaries cfg)"
      "unat (MaxBeneficiaries cfg) < 2 ^ 31"
    using cfg by (simp_all add: claim_config_ok_def word_le_nat_alt)
  note ok = claim_inv_account [OF inv]
  have pay: "claim_inv cfg s'" if "ClaimActive s"
    "act_bind (process_claim cfg b) (do_claim cfg dest) s = (s', Inr ())" for b dest
    using that claim_inv_paid [OF laws(1) inv] by (auto simp: pay_Inr [OF ok])
  show ?thesis
  proof (cases c)
    case (BeginClaim es msg)
    then show ?thesis
      using run sizes by (auto simp: begin_claim_Inr [OF laws(1) ok] intro!: claim_inv_started inv)
  next
    case (AddBeneficiaries es)
    then have r: "add_beneficiaries cfg og es s = (s', Inr ())" using run by simp
    have "length (Beneficiaries s) \<le> unat (MaxBeneficiaries cfg)" using inv by (simp add: claim_inv_def)
    then have "length (Beneficiaries s) + length es \<le> unat (MaxBeneficiaries cfg)"
      using r sizes word_sum_le [of "length (Beneficiaries s)" "length es"]
      by (cases "es = []") (auto simp: add_beneficiaries_Inr [OF laws(1) ok])
    then show ?thesis
      using r by (auto simp: add_beneficiaries_Inr [OF laws(1) ok] intro!: claim_inv_extended inv)
  next
    case EndClaim
    then show ?thesis using run by (auto simp: end_claim_Inr [OF ok] intro!: claim_inv_ended inv)
  next
    case (RemoveBeneficiaries limit)
    then show ?thesis
      using run claim_inv_removed [OF laws(2) inv]
      by (auto simp: remove_beneficiaries_Inr split: option.splits) (metis fst_conv)+
  qed (use run pay in \<open>auto simp: claim_Inr [OF ok] claim_for_Inr claim_ethereum_Inr [OF ok]
      claim_ethereum_for_Inr\<close>)
qed

interpretation claims: pallet "claim_dispatch cfg"
  "\<lambda>s. claim_config_ok cfg \<longrightarrow> claim_inv cfg s" for cfg :: "'l claim_config"
  by unfold_locales (auto simp: claim_dispatch_def transactional_eq_Inl dest: claim_body_inv)

lemma claim_dispatch_inv:
  "claim_config_ok cfg \<Longrightarrow> claim_inv cfg s \<Longrightarrow> claim_inv cfg (fst (claim_dispatch cfg c s))"
  using claims.dispatch_inv by blast


section \<open>The states of the chain\<close>

text \<open>
  The chain starts from the genesis configuration; then calls of anybody, the hook at the start of a
  block, and changes of the ledger by the rest of the runtime follow in any order. Nobody but the
  pallet spends from its account, which has no key.
\<close>

inductive claim_chain :: "'l claim_config \<Rightarrow> 'l claim_storage \<Rightarrow> bool" for cfg where
  genesis: "claim_genesis_build cfg es msg (claim_genesis l) = (s, Inr ()) \<Longrightarrow> length es < 2 ^ 32 \<Longrightarrow>
    claim_chain cfg s"
| call: "claim_chain cfg s \<Longrightarrow> claim_chain cfg (fst (claim_dispatch cfg c s))"
| hook: "claim_chain cfg s \<Longrightarrow> claim_chain cfg (claim_on_initialize cfg s)"
| others: "claim_chain cfg s \<Longrightarrow> pot_of cfg s \<le> pot_of cfg (s\<lparr>claim_ledger := l\<rparr>) \<Longrightarrow>
    claim_chain cfg (s\<lparr>claim_ledger := l\<rparr>)"

lemma length_btree_collect_aux:
  "length (fold (\<lambda>(k, v). btree_insert k v) es m) \<le> length es + length m"
proof (induction es arbitrary: m)
  case (Cons e es)
  obtain k v where e: "e = (k, v)" by (cases e)
  show ?case
    using Cons [of "btree_insert k v m"] length_btree_insert [of k v m] by (simp add: e)
qed simp

lemma length_btree_collect: "length (btree_collect es) \<le> length es"
  using length_btree_collect_aux [of es "[]"] by (simp add: btree_collect_def)

lemma genesis_inv:
  assumes cfg: "claim_config_ok cfg" and len: "length es < 2 ^ 32"
    and run: "claim_genesis_build cfg es msg (claim_genesis l) = (s, Inr ())"
  shows "claim_inv cfg s"
proof -
  let ?g = "claim_genesis l"
  have ok: "account_ok cfg ?g" by (simp add: claim_genesis_def account_ok_def)
  have laws: "currency_laws (Currency cfg)" using cfg by (simp add: claim_config_ok_def)
  have g: "?g\<lparr>TotalClaimable := 0\<rparr> = ?g" by (simp add: claim_genesis_def)
  show ?thesis
  proof (cases "es = []")
    case True
    then show ?thesis
      using run ok by (auto simp: claim_genesis_build_def act_then_eq_Inr g)
        (simp add: claim_inv_def claim_genesis_def)
  next
    case False
    let ?m = "btree_collect es"
    from False run have w: "of_nat (length es) \<le> MaxBeneficiaries cfg"
      and a: "addable [] ?m (pot_of cfg ?g) 0"
      and s: "s = (settled cfg ?g)\<lparr>Beneficiaries := ?m, TotalClaimable := amounts ?m,
        ClaimActive := True, ClaimId := Some (0, msg)\<rparr>"
      by (auto simp: claim_genesis_build_def call_Inr g check_max_beneficiaries_def
          do_add_beneficiaries_Inr [OF laws ok]) (auto simp: claim_genesis_def)
    have "length ?m \<le> unat (MaxBeneficiaries cfg)"
      using w len length_btree_collect [of es]
      by (simp add: word_le_nat_alt unsigned_of_nat take_bit_nat_eq_self)
    then show ?thesis
      using a ok by (cases "?m = []") (auto simp: s claim_inv_def addable_def account_ok_def pot_of_def)
  qed
qed

lemma on_initialize_inv:
  assumes cfg: "claim_config_ok cfg" and inv: "claim_inv cfg s"
  shows "claim_inv cfg (claim_on_initialize cfg s)"
proof -
  have laws: "currency_laws (Currency cfg)" using cfg by (simp add: claim_config_ok_def)
  have mono: "pot_of cfg s \<le> cu_reducible (Currency cfg) l (pallet_account cfg)"
    if "cu_mint_into (Currency cfg) (claim_ledger s) a n = Inr l" for a n l
    unfolding pot_of_def by (rule mint_keeps [OF laws that])
  have "claim_inv cfg (settled cfg s)" using inv by (cases "ClaimActive s") (simp_all add: claim_inv_def)
  moreover have "claim_inv cfg ((settled cfg s)\<lparr>claim_ledger := l\<rparr>)"
    if "cu_mint_into (Currency cfg) (claim_ledger s) a n = Inr l" for a n l
    using inv mono [OF that] by (auto simp: claim_inv_def account_ok_def pot_of_def)
  ultimately show ?thesis
    by (auto simp: claim_on_initialize_def account_id_eq [OF claim_inv_account [OF inv]]
        split: sum.splits)
qed

lemma claim_chain_inv:
  assumes "claim_config_ok cfg" and "claim_chain cfg s"
  shows "claim_inv cfg s"
  using assms(2)
proof induction
  case (genesis es msg l s)
  then show ?case using genesis_inv [OF assms(1)] by blast
next
  case (call s c)
  then show ?case by (simp add: claim_dispatch_inv [OF assms(1)])
next
  case (hook s)
  then show ?case using on_initialize_inv [OF assms(1)] by blast
next
  case (others s l)
  then show ?case by (auto simp: claim_inv_def account_ok_def)
qed



section \<open>No call panics\<close>

lemma panic_free_account_id [panic_intros]: "panic_free (account_id cfg) s"
  by (auto simp: panic_free_def account_id_def split: option.splits)

lemma panic_free_pot [panic_intros]: "panic_free (pot cfg) s"
  unfolding pot_def by (intro panic_intros)

lemma panic_free_transfer [panic_intros]: "panic_free (transfer_from_pot cfg dest n) s"
  unfolding transfer_from_pot_def
  by (intro panic_intros) (auto simp: panic_free_def split: sum.splits)

lemma panic_free_deposit_event [panic_intros]: "panic_free (deposit_event e) s"
  unfolding deposit_event_def by (intro panic_intros)

lemma panic_free_status [panic_intros]: "panic_free (check_claim_status b) s"
  by (simp add: panic_free_def check_claim_status_eq)

lemma panic_free_pay [panic_intros]:
  "panic_free (process_claim cfg b) s" "panic_free (do_claim cfg dest n) s"
  unfolding process_claim_def do_claim_def
  by (auto intro!: panic_intros split: option.splits)

lemma panic_free_add_loop [panic_intros]: "panic_free (add_loop available es required) s"
  by (induction available es required arbitrary: s rule: add_loop.induct)
    (simp_all, (intro panic_intros; simp)+)

lemma panic_free_add [panic_intros]: "panic_free (do_add_beneficiaries cfg es) s"
  unfolding do_add_beneficiaries_def by (intro panic_intros)

lemma panic_free_checks [panic_intros]:
  "panic_free (check_max_op_beneficiaries cfg n) s" "panic_free (check_max_beneficiaries cfg n) s"
  "panic_free (check_beneficiaries_len cfg n) s"
  unfolding check_beneficiaries_len_def check_max_op_beneficiaries_def check_max_beneficiaries_def
  by (intro panic_intros; simp)+







section \<open>Payment\<close>


lemma signed_by_paid [simp]: "signed_by cfg b sig (paid cfg b' n l s) = signed_by cfg b sig s"
  by (simp add: signed_by_def paid_def)

lemma map_of_mem: "map_of m b = Some n \<Longrightarrow> b \<in> fst ` set m"
  by (metis domI dom_map_of_conv_image_fst)





section \<open>Accounting\<close>

definition owed :: "beneficiary_id \<Rightarrow> entitlements \<Rightarrow> nat" where
  "owed b m = sum_list (map snd (filter (\<lambda>e. fst e = b) m))"

fun claimed_by :: "beneficiary_id \<Rightarrow> claim_event list \<Rightarrow> nat" where
  "claimed_by b [] = 0"
| "claimed_by b (Claimed b' n # es) = (if b' = b then n else 0) + claimed_by b es"
| "claimed_by b (_ # es) = claimed_by b es"

fun grants :: "beneficiary_id \<Rightarrow> claim_call \<Rightarrow> nat" where
  "grants b (BeginClaim es _) = owed b es"
| "grants b (AddBeneficiaries es) = owed b es"
| "grants b _ = 0"

text \<open>What the successful calls of a sequence grant to a beneficiary.\<close>

fun granted :: "'l claim_config \<Rightarrow> beneficiary_id \<Rightarrow> (origin \<times> claim_call) list \<Rightarrow> 'l claim_storage \<Rightarrow> nat" where
  "granted cfg b [] s = 0"
| "granted cfg b (c # cs) s =
     (case claim_dispatch cfg c s of
        (s', Inr _) \<Rightarrow> grants b (snd c) + granted cfg b cs s'
      | (s', Inl _) \<Rightarrow> granted cfg b cs s')"

lemma owed_append [simp]: "owed b (m @ m') = owed b m + owed b m'"
  by (simp add: owed_def)

lemma claimed_by_append [simp]: "claimed_by b (es @ es') = claimed_by b es + claimed_by b es'"
  by (induction b es rule: claimed_by.induct) simp_all

lemma owed_remove_key:
  "distinct (map fst m) \<Longrightarrow> map_of m b' = Some n \<Longrightarrow>
     owed b m = (if b' = b then n else 0) + owed b (remove_key b' m)"
proof (induction m)
  case (Cons e m)
  show ?case
  proof (cases "fst e = b'")
    case True
    then have "remove_key b' m = m" using Cons.prems(1) by (auto intro: remove_key_absent)
    then show ?thesis using True Cons.prems(2) by (cases e) (simp add: remove_key_def owed_def)
  next
    case False
    then show ?thesis using Cons by (cases e) (auto simp: remove_key_def owed_def)
  qed
qed simp

lemma owed_step:
  assumes cfg: "claim_config_ok cfg" and inv: "claim_inv cfg s" and act: "ClaimActive s"
    and run: "claim_dispatch cfg c s = (s', Inr ())" and "snd c \<noteq> EndClaim"
  shows "ClaimActive s' \<and> owed b (Beneficiaries s') + claimed_by b (claim_events s') =
    owed b (Beneficiaries s) + claimed_by b (claim_events s) + grants b (snd c)"
proof -
  note ok = claim_inv_account [OF inv]
  have laws: "currency_laws (Currency cfg)" using cfg by (simp add: claim_config_ok_def)
  have pay: ?thesis if "act_bind (process_claim cfg b') (do_claim cfg dest) s = (s', Inr ())"
    "grants b (snd c) = 0" for b' dest
    using that act inv owed_remove_key [of "Beneficiaries s" b' _ b]
    by (auto simp: pay_Inr [OF ok] paid_def claim_inv_def)
  show ?thesis
    using run act assms(5) pay
    by (cases "snd c")
      (auto simp: claim_dispatch_def claim_Inr [OF ok] claim_for_Inr claim_ethereum_Inr [OF ok]
        claim_ethereum_for_Inr begin_claim_Inr [OF laws ok] add_beneficiaries_Inr [OF laws ok]
        remove_beneficiaries_Inr)
qed

lemma accounting_aux:
  assumes cfg: "claim_config_ok cfg"
  shows "claim_inv cfg s \<Longrightarrow> ClaimActive s \<Longrightarrow> EndClaim \<notin> snd ` set cs \<Longrightarrow>
    (let s' = fold (\<lambda>c s. fst (claim_dispatch cfg c s)) cs s in
     owed b (Beneficiaries s') + claimed_by b (claim_events s') =
       owed b (Beneficiaries s) + claimed_by b (claim_events s) + granted cfg b cs s)"
proof (induction cs arbitrary: s)
  case Nil
  then show ?case by simp
next
  case (Cons c cs)
  obtain s' r where run: "claim_dispatch cfg c s = (s', r)" by (cases "claim_dispatch cfg c s")
  show ?case
  proof (cases r)
    case (Inl e)
    then have "s' = s" using run claims.rolled_back by blast
    then show ?thesis using Cons Inl run by simp
  next
    case (Inr u)
    then have run': "claim_dispatch cfg c s = (s', Inr ())" using run by simp
    have "claim_inv cfg s'" using claims.inv_ok [of cfg s c s'] cfg Cons.prems(1) run' by blast
    moreover have "snd c \<noteq> EndClaim" using Cons.prems(3) by auto
    note step = owed_step [OF cfg Cons.prems(1,2) run' this, of b]
    ultimately show ?thesis
      using Cons.IH [of s'] Cons.prems(3) step run' by (simp add: Let_def)
  qed
qed

text \<open>
  C12: As long as a campaign is not ended, no sequence of calls loses or creates entitlements: for every
  beneficiary, what is still owed and what has been claimed add up to what was owed and
  claimed before plus what the successful calls of the manager have granted.
\<close>
theorem claim_accounting:
  assumes "claim_config_ok cfg" and "claim_chain cfg s" and "ClaimActive s"
    and "EndClaim \<notin> snd ` set cs"
    and "s' = fold (\<lambda>c s. fst (claim_dispatch cfg c s)) cs s"
  shows "owed b (Beneficiaries s') + claimed_by b (claim_events s') =
    owed b (Beneficiaries s) + claimed_by b (claim_events s) + granted cfg b cs s"
  using accounting_aux [OF assms(1) claim_chain_inv [OF assms(1,2)] assms(3,4)] assms(5)
  by (simp add: Let_def)


section \<open>The transaction pool\<close>

fun unsigned_call :: "claim_call \<Rightarrow> bool" where
  "unsigned_call (Claim _ _) = True"
| "unsigned_call (ClaimEthereum _ _ _) = True"
| "unsigned_call _ = False"

fun claimant :: "'l claim_config \<Rightarrow> claim_call \<Rightarrow> beneficiary_id \<times> claim_signature \<times> account" where
  "claimant cfg (Claim signer sig) =
     (Substrate (into_account cfg signer), SubstrateSig sig, into_account cfg signer)"
| "claimant cfg (ClaimEthereum e sig dest) = (Ethereum e, EthereumSig sig dest, dest)"
| "claimant cfg _ = (Substrate [], SubstrateSig [], [])"

lemma unsigned_dispatch:
  assumes "unsigned_call c" and "claimant cfg c = (b, sig, dest)" and "account_ok cfg s"
  shows "snd (claim_dispatch cfg (NoOrigin, c) s) =
    (case snd (check_claimant cfg b sig s) of
       Inl e \<Rightarrow> Inl e
     | Inr _ \<Rightarrow> snd (act_bind (process_claim cfg b) (do_claim cfg dest) s))"
  using assms(1,2)
  by (cases c) (auto simp: claim_dispatch_def claim_def claim_ethereum_def origin_simps then_ensure Let_def
      act_then_def act_bind_def [of "check_claimant _ _ _"] act_bind_def [of "ensure _ _"] ensure_apply
      check_claimant_eq split: option.splits)

fun call_name :: "claim_call \<Rightarrow> string" where
  "call_name (Claim _ _) = ''claim''"
| "call_name _ = ''claim_ethereum''"

lemma validate_unsigned_eq:
  assumes "unsigned_call c" and "claimant cfg c = (b, sig, dest)"
  shows "validate_unsigned cfg c s = validate_claimant cfg (call_name c) b sig s"
  using assms by (cases c) auto

lemma pay_verdict:
  assumes "account_ok cfg s" and "b \<in> fst ` set (Beneficiaries s)"
  shows "\<exists>e. snd (act_bind (process_claim cfg b) (do_claim cfg dest) s) \<in> {Inr (), Inl (TokenErr e)}"
proof -
  have "map_of (Beneficiaries s) b \<noteq> None" using assms(2) by (simp add: map_of_eq_None_iff)
  then obtain n where "map_of (Beneficiaries s) b = Some n" by blast
  then show ?thesis
    by (cases "n \<le> pot_of cfg s") (auto simp: pay_eq [OF assms(1)] split: sum.splits)
qed

lemma unsigned_verdicts:
  assumes inv: "claim_inv cfg s" and c: "unsigned_call c"
  shows "(\<exists>tag. validate_unsigned cfg c s = Some (Inr tag)) \<longleftrightarrow>
      (\<exists>e. snd (claim_dispatch cfg (NoOrigin, c) s) \<in> {Inr (), Inl (TokenErr e)})" (is ?valid)
    and "validate_unsigned cfg c s = Some (Inl why) \<longleftrightarrow>
      (\<exists>e. snd (claim_dispatch cfg (NoOrigin, c) s) = Inl (ModuleErr e) \<and> why = validity_error e \<and>
         e \<in> {AlreadyEnded, NotEligible, BadSignature})" (is ?refused)
proof -
  obtain b sig dest where b: "claimant cfg c = (b, sig, dest)" by (metis prod_cases3)
  note v = validate_unsigned_eq [OF c b]
  note d = unsigned_dispatch [OF c b claim_inv_account [OF inv]]
  show ?valid and ?refused
  proof (atomize (full), cases "ClaimActive s \<and> b \<in> fst ` set (Beneficiaries s)")
    case False
    then show "?valid \<and> ?refused" unfolding v d
      by (auto simp: validate_claimant_eq check_claimant_eq)
  next
    case True
    then obtain i msg where "ClaimId s = Some (i, msg)" using inv by (auto simp: claim_inv_def)
    moreover obtain e where
      "snd (act_bind (process_claim cfg b) (do_claim cfg dest) s) \<in> {Inr (), Inl (TokenErr e)}"
      using pay_verdict [OF claim_inv_account [OF inv]] True by blast
    ultimately show "?valid \<and> ?refused" using True unfolding v d
      by (cases "verify cfg sig msg b") (auto simp: validate_claimant_eq check_claimant_eq)
  qed
qed

lemma same_tag_excluded:
  assumes inv: "claim_inv cfg s"
    and v: "validate_unsigned cfg c s = Some (Inr tag)" "validate_unsigned cfg c' s = Some (Inr tag)"
    and run: "claim_dispatch cfg (NoOrigin, c) s = (s', Inr ())"
  shows "validate_unsigned cfg c' s' = Some (Inl BadSigner)"
proof -
  have u: "unsigned_call c" "unsigned_call c'" using v by (cases c; cases c'; simp)+
  obtain b sig dest b' sig' dest' where
    b: "claimant cfg c = (b, sig, dest)" "claimant cfg c' = (b', sig', dest')" by (metis prod_cases3)
  note n = validate_unsigned_eq [OF u(1) b(1)] validate_unsigned_eq [OF u(2) b(2)]
  have "b' = b" and act: "ClaimActive s"
    using v unfolding n by (auto simp: validate_claimant_eq split: if_splits option.splits)
  moreover have "\<exists>m l. s' = paid cfg b m l s"
    using run u(1) b(1)
    by (cases c) (auto simp: claim_dispatch_def claim_Inr [OF claim_inv_account [OF inv]]
        claim_ethereum_Inr [OF claim_inv_account [OF inv]] pay_Inr [OF claim_inv_account [OF inv]])
  ultimately show ?thesis
    by (auto simp: n validate_claimant_eq paid_def remove_key_def)
qed

text \<open>
  The transaction pool judges unsigned claims as the chain does. A claim is valid in the pool
  exactly when its dispatch in the same state gets as far as the payment; what the pool
  refuses fails on the chain with the error that the pool's answer stands for. Calls that are not
  claims are never valid unsigned. Two valid claims carry the same tag only for the same
  beneficiary, and once one of them is paid the other is no longer valid.
\<close>
theorem pool_agrees_with_chain:
  assumes "claim_config_ok cfg" and "claim_chain cfg s"
  shows "(unsigned_call c \<longrightarrow>
      ((\<exists>tag. validate_unsigned cfg c s = Some (Inr tag)) \<longleftrightarrow>
        (\<exists>e. snd (claim_dispatch cfg (NoOrigin, c) s) \<in> {Inr (), Inl (TokenErr e)})) \<and>
      (\<forall>why. validate_unsigned cfg c s = Some (Inl why) \<longleftrightarrow>
        (\<exists>e. snd (claim_dispatch cfg (NoOrigin, c) s) = Inl (ModuleErr e) \<and> why = validity_error e \<and>
             e \<in> {AlreadyEnded, NotEligible, BadSignature}))) \<and>
    (\<not> unsigned_call c \<longrightarrow> validate_unsigned cfg c s = Some (Inl CallInvalid)) \<and>
    (validate_unsigned cfg c s = Some (Inr tag) \<longrightarrow> validate_unsigned cfg c' s = Some (Inr tag) \<longrightarrow>
      claim_dispatch cfg (NoOrigin, c) s = (s', Inr ()) \<longrightarrow>
      validate_unsigned cfg c' s' = Some (Inl BadSigner))"
proof (intro conjI impI allI)
  note inv = claim_chain_inv [OF assms]
  show "(\<exists>tag. validate_unsigned cfg c s = Some (Inr tag)) \<longleftrightarrow>
      (\<exists>e. snd (claim_dispatch cfg (NoOrigin, c) s) \<in> {Inr (), Inl (TokenErr e)})" if "unsigned_call c"
    by (rule unsigned_verdicts(1) [OF inv that])
  show "validate_unsigned cfg c s = Some (Inl why) \<longleftrightarrow>
      (\<exists>e. snd (claim_dispatch cfg (NoOrigin, c) s) = Inl (ModuleErr e) \<and> why = validity_error e \<and>
         e \<in> {AlreadyEnded, NotEligible, BadSignature})" if "unsigned_call c" for why
    by (rule unsigned_verdicts(2) [OF inv that])
  show "validate_unsigned cfg c s = Some (Inl CallInvalid)" if "\<not> unsigned_call c"
    using that by (cases c) simp_all
qed (rule same_tag_excluded [OF claim_chain_inv [OF assms]])


section \<open>The end of a campaign\<close>

lemma end_claim_dispatch:
  assumes "account_ok cfg s" and "claim_dispatch cfg (og, EndClaim) s = (s', Inr ())"
  shows "Beneficiaries s' = Beneficiaries s" and "\<not> ClaimActive s'" and "TotalClaimable s' = 0"
  using assms(2) by (auto simp: claim_dispatch_def end_claim_Inr [OF assms(1)] ended_def)

text \<open>
  \<open>end_claim\<close> removes no beneficiary. If there are any left, the manager cannot begin another claim:
  \<open>begin_claim\<close> fails with \<open>NonEmptyBeneficiaries\<close>, and so does every attempt until \<open>remove_beneficiaries\<close>
  has been called.
\<close>
theorem end_claim_removes_nobody:
  assumes "claim_config_ok cfg" and "claim_chain cfg s"
    and "claim_dispatch cfg (og, EndClaim) s = (s', Inr ())"
  shows "Beneficiaries s' = Beneficiaries s \<and>
    (Beneficiaries s \<noteq> [] \<longrightarrow> ManagerOrigin cfg og' \<longrightarrow>
       claim_dispatch cfg (og', BeginClaim es msg) s' = (s', Inl (ModuleErr NonEmptyBeneficiaries)))"
  using end_claim_dispatch(1) [OF claim_inv_account [OF claim_chain_inv [OF assms(1,2)]] assms(3)]
  by (auto simp: claim_dispatch_def transactional_eq_Inl begin_claim_def origin_simps call_simps)

definition remove_call :: "account \<Rightarrow> nat \<Rightarrow> origin \<times> claim_call" where
  "remove_call a n = (Signed a, RemoveBeneficiaries (Some n))"

lemma remove_call_step:
  assumes "claim_config_ok cfg" and "\<not> ClaimActive s" and "s' = fst (claim_dispatch cfg (remove_call a n) s)"
  shows "length (Beneficiaries s') \<le> length (Beneficiaries s) - n \<and> \<not> ClaimActive s' \<and>
    TotalClaimable s' = TotalClaimable s \<and> claim_ledger s' = claim_ledger s"
proof -
  obtain left unique cursor where c: "clear_prefix cfg n (Beneficiaries s) = (left, unique, cursor)"
    by (metis prod_cases3)
  have "clear_laws (clear_prefix cfg)" using assms(1) by (simp add: claim_config_ok_def)
  from clear_prefix_laws [OF this c] have "length left + unique = length (Beneficiaries s)"
    "min n (length (Beneficiaries s)) \<le> unique" by blast+
  then have "length left \<le> length (Beneficiaries s) - n" by linarith
  moreover have "claim_call_body cfg (Signed a) (RemoveBeneficiaries (Some n)) s = do_remove_beneficiaries cfg n s"
    using assms(2) by (simp add: remove_beneficiaries_def ensure_signed_def act_then_def
        act_bind_def check_claim_status_eq)
  ultimately show ?thesis
    using assms(2,3)
    by (auto simp: claim_dispatch_def remove_call_def transactional_def do_remove_beneficiaries_eq c)
qed

lemma remove_calls:
  assumes cfg: "claim_config_ok cfg"
  shows "\<not> ClaimActive s \<Longrightarrow>
    (let s' = ((\<lambda>s. fst (claim_dispatch cfg (remove_call a n) s)) ^^ k) s in
     length (Beneficiaries s') \<le> length (Beneficiaries s) - k * n \<and> \<not> ClaimActive s' \<and>
     TotalClaimable s' = TotalClaimable s \<and> claim_ledger s' = claim_ledger s)"
proof (induction k)
  case 0
  then show ?case by simp
next
  case (Suc k)
  define t where "t = ((\<lambda>s. fst (claim_dispatch cfg (remove_call a n) s)) ^^ k) s"
  have "\<not> ClaimActive t" using Suc by (simp add: t_def Let_def)
  from remove_call_step [OF cfg this refl, of a n] Suc show ?case
    by (simp add: Let_def flip: t_def) linarith
qed

text \<open>
  After a campaign anybody can clear the way for the next one: \<open>k\<close> calls of \<open>remove_beneficiaries\<close> with the
  limit \<open>n\<close> leave no beneficiary when there were at most \<open>k * n\<close>, and then \<open>begin_claim\<close> succeeds for every
  admissible list that the pot covers, with the next claim id.
\<close>
theorem campaign_can_restart:
  assumes "claim_config_ok cfg" and "claim_chain cfg s" and "\<not> ClaimActive s"
    and "length (Beneficiaries s) \<le> k * n"
    and "s' = ((\<lambda>s. fst (claim_dispatch cfg (remove_call a n) s)) ^^ k) s"
    and "ManagerOrigin cfg og" and "msg \<noteq> []" and "length es \<le> unat (MaxOpBeneficiaries cfg)"
    and "distinct (map fst es)" and "\<forall>e\<in>set es. snd e \<noteq> 0" and "amounts es \<le> pot_of cfg s"
  shows "Beneficiaries s' = [] \<and>
    (\<exists>s''. claim_dispatch cfg (og, BeginClaim es msg) s' = (s'', Inr ()) \<and> Beneficiaries s'' = es \<and>
       ClaimActive s'' \<and> TotalClaimable s'' = amounts es \<and>
       ClaimId s'' = Some (next_claim_id s', msg))"
proof -
  have len: "length (Beneficiaries s') \<le> length (Beneficiaries s) - k * n" and act: "\<not> ClaimActive s'"
    and tot: "TotalClaimable s' = TotalClaimable s" and led: "claim_ledger s' = claim_ledger s"
    using remove_calls [OF assms(1,3), where a = a and n = n and k = k] by (simp_all add: Let_def assms(5))
  have b: "Beneficiaries s' = []" using len assms(4) by simp
  have "claim_inv cfg s'"
    unfolding assms(5) using claim_chain_inv [OF assms(1,2)]
    by (induction k) (simp_all add: claim_dispatch_inv [OF assms(1)])
  then have ok: "account_ok cfg s'" and t0: "TotalClaimable s' = 0"
    using act by (simp_all add: claim_inv_def)
  have laws: "currency_laws (Currency cfg)" using assms(1) by (simp add: claim_config_ok_def)
  have "pot_of cfg s' = pot_of cfg s" by (simp add: pot_of_def led)
  then have "claim_dispatch cfg (og, BeginClaim es msg) s' = (started msg (extended cfg es s'), Inr ())"
    using assms(6-11) b act t0
    by (auto simp: claim_dispatch_def begin_claim_Inr [OF laws ok] addable_def)
  moreover have "next_claim_id (extended cfg es s') = next_claim_id s'"
    by (simp add: next_claim_id_def)
  ultimately show ?thesis using b t0 by simp
qed


section \<open>Ethereum signatures\<close>





section \<open>A campaign\<close>

text \<open>
  A campaign from the genesis configuration with an account of the chain and an Ethereum address, on
  a ledger whose minimum balance is one.
\<close>

definition sample_claim_config :: "ledger claim_config" where
  "sample_claim_config =
     \<lparr>pallet_account = ''pallet'', ManagerOrigin = (\<lambda>og. og = Root), Currency = ledger_currency 1,
      UnclaimedDestination = ''treasury'', into_account = (\<lambda>signer. signer),
      signature_verify = (\<lambda>sig msg a. sig = msg @ a), to_bytes_literal = (\<lambda>a. a),
      keccak_256 = (\<lambda>t. []), ecdsa_recover = (\<lambda>d sig. Some sig),
      MaxBeneficiaries = 10, MaxOpBeneficiaries = 5, EthMsgSeparator = ''@'',
      clear_prefix = (\<lambda>n m. (drop n m, min n (length m), n < length m))\<rparr>"

definition sample_entitlements :: entitlements where
  "sample_entitlements = [(Substrate ''A'', 40), (Ethereum ''E'', 60)]"

definition sample_campaign :: "ledger claim_storage" where
  "sample_campaign =
     \<lparr>Beneficiaries = sample_entitlements, TotalClaimable = 100, ClaimActive = True,
      ClaimId = Some (0, ''m''), PalletAccountId = Some ''pallet'', claim_events = [],
      claim_ledger = [(''pallet'', 101)]\<rparr>"

lemma sample_config_ok: "claim_config_ok sample_claim_config"
proof -
  have "mset (drop n m @ take n m) = mset m" for n and m :: entitlements
    by (metis add.commute append_take_drop_id mset_append)
  moreover have "currency_laws (ledger_currency 1)"
    by (rule ledger_currency_laws) (simp_all add: u128_max_def)
  ultimately show ?thesis
    by (auto simp: claim_config_ok_def sample_claim_config_def clear_laws_def min.commute
        intro!: exI [of _ "take _ _"])
qed

lemma sample_genesis:
  "claim_genesis_build sample_claim_config sample_entitlements ''m'' (claim_genesis [(''pallet'', 101)]) =
     (sample_campaign, Inr ())"
  by (simp add: claim_genesis_build_def sample_claim_config_def sample_entitlements_def
      sample_campaign_def claim_genesis_def call_simps check_max_beneficiaries_def
      do_add_beneficiaries_def pot_def account_id_def act_bind_def act_then_def btree_collect_def
      ledger_currency_def free_balance_def u128_max_def saturating_add_def contains_key_def)

lemma sample_chain: "claim_chain sample_claim_config sample_campaign"
  by (rule claim_chain.genesis [OF sample_genesis]) (simp add: sample_entitlements_def)


definition sample_ended :: "ledger claim_storage" where
  "sample_ended =
     sample_campaign\<lparr>ClaimActive := False, TotalClaimable := 0,
       claim_ledger := [(''pallet'', 1), (''treasury'', 100), (''pallet'', 101)],
       claim_events := [ClaimEnded 0 ''m'']\<rparr>"

lemma sample_sel [simp]:
  "Beneficiaries sample_campaign = sample_entitlements" "TotalClaimable sample_campaign = 100"
  "ClaimActive sample_campaign" "ClaimId sample_campaign = Some (0, ''m'')"
  "claim_events sample_campaign = []" "claim_ledger sample_campaign = [(''pallet'', 101)]"
  "ManagerOrigin sample_claim_config og \<longleftrightarrow> og = Root"
  "pallet_account sample_claim_config = ''pallet''"
  "Currency sample_claim_config = ledger_currency 1" "into_account sample_claim_config a = a"
  "UnclaimedDestination sample_claim_config = ''treasury''"
  by (simp_all add: sample_campaign_def sample_claim_config_def)

lemma sample_account: "account_ok sample_claim_config sample_campaign"
  by (simp add: account_ok_def sample_campaign_def)

lemma sample_pot: "pot_of sample_claim_config sample_campaign = 100"
  by (simp add: pot_of_def ledger_currency_def free_balance_def u128_max_def)

lemma sample_end: "claim_dispatch sample_claim_config (Root, EndClaim) sample_campaign = (sample_ended, Inr ())"
proof -
  have "cu_transfer (ledger_currency 1) [(''pallet'', 101)] ''pallet'' ''treasury'' 100 =
      Inr [(''pallet'', 1), (''treasury'', 100), (''pallet'', 101)]"
    by (simp add: ledger_currency_def ledger_transfer_def ledger_can_deposit_def free_balance_def
        u128_max_def)
  moreover have "ended sample_claim_config [(''pallet'', 1), (''treasury'', 100), (''pallet'', 101)]
      (0, ''m'') sample_campaign = sample_ended"
    by (simp add: ended_def sample_ended_def settled_def) (simp add: sample_campaign_def)
  ultimately show ?thesis
    by (simp add: claim_dispatch_def end_claim_Inr [OF sample_account] sample_pot)
qed

lemma sample_ended_chain: "claim_chain sample_claim_config sample_ended"
  using claim_chain.call [OF sample_chain, of "(Root, EndClaim)"] by (simp add: sample_end)

lemma sample_valid: "verify sample_claim_config (SubstrateSig ''mA'') ''m'' (Substrate ''A'')"
  by (simp add: sample_claim_config_def)




theorem claim_accounting_witness:
  "owed (Ethereum ''E'') (Beneficiaries (fst (claim_dispatch sample_claim_config (Root, ClaimFor ''A'') sample_campaign))) +
   claimed_by (Ethereum ''E'')
     (claim_events (fst (claim_dispatch sample_claim_config (Root, ClaimFor ''A'') sample_campaign))) =
   60 + granted sample_claim_config (Ethereum ''E'') [(Root, ClaimFor ''A'')] sample_campaign"
proof -
  have "EndClaim \<notin> snd ` set [(Root, ClaimFor ''A'')]" by simp
  from claim_accounting [OF sample_config_ok sample_chain sample_sel(3) this refl, of "Ethereum ''E''"]
  show ?thesis by (simp add: owed_def sample_entitlements_def del: granted.simps)
qed

theorem pool_agrees_with_chain_witness:
  "\<exists>e. snd (claim_dispatch sample_claim_config (NoOrigin, Claim ''A'' ''mA'') sample_campaign) \<in>
     {Inr (), Inl (TokenErr e)}"
proof -
  have "\<exists>tag. validate_unsigned sample_claim_config (Claim ''A'' ''mA'') sample_campaign = Some (Inr tag)"
    using sample_valid by (simp add: validate_claimant_eq sample_entitlements_def)
  then show ?thesis
    using pool_agrees_with_chain [OF sample_config_ok sample_chain, of "Claim ''A'' ''mA''"] by simp
qed

theorem end_claim_removes_nobody_witness:
  "Beneficiaries sample_ended = sample_entitlements \<and>
   claim_dispatch sample_claim_config (Root, BeginClaim [] ''next'') sample_ended =
     (sample_ended, Inl (ModuleErr NonEmptyBeneficiaries))"
  using end_claim_removes_nobody [OF sample_config_ok sample_chain sample_end, of Root "[]" "''next''"]
  by (simp add: sample_entitlements_def)

theorem campaign_can_restart_witness:
  "\<exists>s. claim_dispatch sample_claim_config (Root, BeginClaim [] ''next'')
     (((\<lambda>s. fst (claim_dispatch sample_claim_config (remove_call ''A'' 1) s)) ^^ 2) sample_ended) =
       (s, Inr ()) \<and> ClaimActive s"
proof -
  have "\<not> ClaimActive sample_ended" "length (Beneficiaries sample_ended) \<le> 2 * 1"
    by (simp_all add: sample_ended_def sample_entitlements_def)
  from campaign_can_restart [OF sample_config_ok sample_ended_chain this refl, of Root "''next''" "[]" "''A''"]
  show ?thesis by auto
qed


end
