(* ===== verification/ClaimCampaign.thy ===== *)
theory ClaimCampaign
  imports ClaimInit ClaimChain
begin

text \<open>
  The claim script and the claim pallet together: the batches that \<open>claim_init.js\<close> reads from the file,
  checks and submits, executed one after the other by \<open>begin_claim\<close> and \<open>add_beneficiaries\<close> of the pallet. An
  extrinsic reaches the pallet encoded and decoded again: addresses as accounts, by the functions
  \<open>dec_account\<close> and \<open>dec_eth\<close>, amounts as numbers, a JavaScript \<open>Map\<close> as a \<open>BTreeMap\<close>.
\<close>


section \<open>What the pallet receives\<close>









section \<open>Adding batches\<close>




section \<open>The batches of a file\<close>










section \<open>A campaign of two rows\<close>










end
