(* ===== verification/Verifiers.thy ===== *)
theory Verifiers
  imports Frame
begin

text \<open>
  The pallet that every proof verifier of the chain instantiates (\<open>pallets/verifiers\<close>): registered
  verification keys with their deposits, submission of proofs, and the hash of the statement that a verified
  proof stands for. The verifier is a value of the record that renders the trait \<open>Verifier\<close> (theory
  \<open>ProofVerifiers\<close> has those of the repository). What a verifier reads of the other pallets, the ledger of
  the deposits and the pallet that is told of verified proofs are one component of the state, of the
  type \<open>'x\<close>.
\<close>


section \<open>Weights\<close>

record dispatch_weight =
  ref_time :: nat
  proof_size :: nat

definition no_weight :: dispatch_weight where
  "no_weight = \<lparr>ref_time = 0, proof_size = 0\<rparr>"

text \<open>\<open>Compose\<close> of \<open>hp-on-proof-verified\<close>: times add up and saturate, the proof size is the larger one.\<close>

definition compose :: "dispatch_weight \<Rightarrow> dispatch_weight \<Rightarrow> dispatch_weight" where
  "compose a b =
     \<lparr>ref_time = min (ref_time a + ref_time b) u64_max, proof_size = max (proof_size a) (proof_size b)\<rparr>"

definition weight_le :: "dispatch_weight \<Rightarrow> dispatch_weight \<Rightarrow> bool" where
  "weight_le a b \<longleftrightarrow> ref_time a \<le> ref_time b \<and> proof_size a \<le> proof_size b"

lemma weight_le_refl [simp]: "weight_le a a"
  by (simp add: weight_le_def)

lemma compose_mono: "weight_le a a' \<Longrightarrow> weight_le b b' \<Longrightarrow> weight_le (compose a b) (compose a' b')"
  by (auto simp: weight_le_def compose_def)


section \<open>The trait of the verifiers\<close>

datatype verify_error =
    InvalidInput
  | InvalidProofData
  | VerifyError
  | InvalidVerificationKey
  | UnsupportedVersion

text \<open>What verifier code returns; a panic of the code is an outcome of its own.\<close>

datatype 'a verdict = Accepted 'a | Rejected verify_error | Aborted string

fun vd_bind :: "'a verdict \<Rightarrow> ('a \<Rightarrow> 'b verdict) \<Rightarrow> 'b verdict" where
  "vd_bind (Accepted x) f = f x"
| "vd_bind (Rejected e) f = Rejected e"
| "vd_bind (Aborted m) f = Aborted m"

definition vd_ensure :: "bool \<Rightarrow> verify_error \<Rightarrow> 'a verdict \<Rightarrow> 'a verdict" where
  "vd_ensure b e k = (if b then k else Rejected e)"

text \<open>An option of a library as a verdict: \<open>map_err\<close> with a constant error.\<close>

definition vd_option :: "verify_error \<Rightarrow> 'a option \<Rightarrow> 'a verdict" where
  "vd_option e r = (case r of None \<Rightarrow> Rejected e | Some x \<Rightarrow> Accepted x)"

lemma vd_bind_eq_Accepted: "vd_bind m f = Accepted y \<longleftrightarrow> (\<exists>x. m = Accepted x \<and> f x = Accepted y)"
  by (cases m) auto

lemma vd_bind_eq_Aborted:
  "vd_bind m f = Aborted msg \<longleftrightarrow> m = Aborted msg \<or> (\<exists>x. m = Accepted x \<and> f x = Aborted msg)"
  by (cases m) auto

lemma vd_ensure_eq:
  "vd_ensure b e k = Accepted x \<longleftrightarrow> b \<and> k = Accepted x"
  "vd_ensure b e k = Aborted msg \<longleftrightarrow> b \<and> k = Aborted msg"
  by (simp_all add: vd_ensure_def)

lemma vd_option_eq:
  "vd_option e r = Accepted x \<longleftrightarrow> r = Some x" "vd_option e r \<noteq> Aborted msg"
  by (auto simp: vd_option_def split: option.splits)

lemmas verdict_simps = vd_bind_eq_Accepted vd_bind_eq_Aborted vd_ensure_eq vd_option_eq

record ('x, 'vk, 'proof, 'pubs) proof_verifier =
  hash_context_data :: string
  verify_proof :: "'x \<Rightarrow> 'vk \<Rightarrow> 'proof \<Rightarrow> 'pubs \<Rightarrow> dispatch_weight option verdict"
  validate_vk :: "'x \<Rightarrow> 'vk \<Rightarrow> unit verdict"
  vk_hash :: "'vk \<Rightarrow> h256"
  pubs_bytes :: "'pubs \<Rightarrow> string"
  verifier_version_hash :: "'proof \<Rightarrow> h256"

text \<open>A hash written as a number, its most significant byte first.\<close>

definition h256_of :: "nat \<Rightarrow> h256" where
  "h256_of n = map (\<lambda>i. char_of (n div 256 ^ (31 - i))) [0..<32]"

definition NO_VERSION_HASH :: h256 where
  "NO_VERSION_HASH = h256_of 0xe3b0c44298fc1c149afbf4c8996fb92427ae41e4649b934ca495991b7852b855"

lemma length_h256_of [simp]: "length (h256_of n) = 32"
  by (simp add: h256_of_def)

text \<open>The methods with a default: accept every key, hash its bytes, no version.\<close>

definition default_validate_vk :: "'x \<Rightarrow> 'vk \<Rightarrow> unit verdict" where
  "default_validate_vk x vk = Accepted ()"

definition default_vk_hash :: "(string \<Rightarrow> h256) \<Rightarrow> ('vk \<Rightarrow> string) \<Rightarrow> 'vk \<Rightarrow> h256" where
  "default_vk_hash keccak vk_bytes vk = keccak (vk_bytes vk)"

definition default_version_hash :: "'proof \<Rightarrow> h256" where
  "default_version_hash proof = NO_VERSION_HASH"

text \<open>The verifier \<open>()\<close>, which rejects every proof.\<close>

definition unit_verifier :: "(string \<Rightarrow> h256) \<Rightarrow> ('x, unit, unit, unit) proof_verifier" where
  "unit_verifier keccak =
     \<lparr>hash_context_data = ''()'',
      verify_proof = (\<lambda>x vk proof pubs. Rejected VerifyError),
      validate_vk = (\<lambda>x vk. Accepted ()),
      vk_hash = default_vk_hash keccak (\<lambda>_. []),
      pubs_bytes = (\<lambda>pubs. []),
      verifier_version_hash = default_version_hash\<rparr>"

record ('vk, 'proof, 'pubs) weight_info =
  wi_verify_proof :: "'proof \<Rightarrow> 'pubs \<Rightarrow> dispatch_weight"
  wi_register_vk :: "'vk \<Rightarrow> dispatch_weight"
  wi_unregister_vk :: dispatch_weight
  wi_get_vk :: dispatch_weight
  wi_validate_vk :: "'vk \<Rightarrow> dispatch_weight"
  wi_compute_statement_hash :: "'proof \<Rightarrow> 'pubs \<Rightarrow> dispatch_weight"


section \<open>The callback for verified proofs\<close>

text \<open>
  \<open>OnProofVerified\<close>: what is told of a verified proof changes its own state and may panic. A tuple
  tells its components one after the other.
\<close>

record 'x proof_callback =
  cb_on_proof_verified :: "account option \<Rightarrow> nat option \<Rightarrow> h256 \<Rightarrow> 'x \<Rightarrow> 'x \<times> string option"
  cb_weight :: "nat option \<Rightarrow> dispatch_weight"

fun call_all ::
  "'x proof_callback list \<Rightarrow> account option \<Rightarrow> nat option \<Rightarrow> h256 \<Rightarrow> 'x \<Rightarrow> 'x \<times> string option"
where
  "call_all [] account domain_id statement x = (x, None)"
| "call_all (c # cs) account domain_id statement x =
     (case cb_on_proof_verified c account domain_id statement x of
        (x', None) \<Rightarrow> call_all cs account domain_id statement x'
      | (x', Some msg) \<Rightarrow> (x', Some msg))"

definition callback_tuple :: "'x proof_callback list \<Rightarrow> 'x proof_callback" where
  "callback_tuple cs =
     \<lparr>cb_on_proof_verified = call_all cs,
      cb_weight = (\<lambda>domain_id. fold (\<lambda>c acc. compose acc (cb_weight c domain_id)) cs no_weight)\<rparr>"


section \<open>Configuration and storage\<close>

datatype 'vk VkOrHash = Hash h256 | Vk 'vk

record 'vk VkEntry =
  ve_vk :: 'vk
  ve_ref_count :: nat

definition VkEntry_new :: "'vk \<Rightarrow> 'vk VkEntry" where
  "VkEntry_new vk = \<lparr>ve_vk = vk, ve_ref_count = 1\<rparr>"

text \<open>The deposits of \<open>vf_ticket\<close> are for one item of the size \<open>vf_encoded_size\<close>.\<close>

record ('x, 't, 'vk, 'proof, 'pubs) vf_config =
  vf_verifier :: "('x, 'vk, 'proof, 'pubs) proof_verifier"
  vf_keccak :: "string \<Rightarrow> h256"
  vf_callback :: "'x proof_callback"
  vf_ticket :: "('x, 't) consideration"
  vf_encoded_size :: "'vk \<Rightarrow> nat"
  vf_weights :: "('vk, 'proof, 'pubs) weight_info"
  vf_db_reads :: "nat \<Rightarrow> dispatch_weight"

datatype vf_event = VkRegistered h256 | VkUnregistered h256 | ProofWasVerified h256

text \<open>Every \<open>VerifyError\<close> is an error of the pallet of the same name.\<close>

datatype vf_error =
    FromVerifyError verify_error
  | VerificationKeyNotFound
  | DisabledVerifier
  | VerificationKeyAlreadyRegistered

record ('t, 'vk) vf_storage =
  Disabled :: "bool option"
  Vks :: "h256 \<Rightarrow> 'vk VkEntry option"
  Tickets :: "account \<times> h256 \<Rightarrow> 't option"
  vf_events :: "vf_event list"

type_synonym ('x, 't, 'vk, 'a) vf_act = "(('t, 'vk) vf_storage \<times> 'x, vf_error, 'a) storage_act"

definition vf_deposit :: "vf_event \<Rightarrow> ('x, 't, 'vk, unit) vf_act" where
  "vf_deposit e = modify (\<lambda>(p, x). (p\<lparr>vf_events := vf_events p @ [e]\<rparr>, x))"

definition vf_disabled :: "('x, 't, 'vk, bool) vf_act" where
  "vf_disabled = gets (\<lambda>(p, x). case Disabled p of Some b \<Rightarrow> b | None \<Rightarrow> False)"

definition ask :: "('x \<Rightarrow> 'a verdict) \<Rightarrow> ('x, 't, 'vk, 'a) vf_act" where
  "ask f = (\<lambda>(p, x). ((p, x), case f x of
     Accepted a \<Rightarrow> Inr a | Rejected e \<Rightarrow> Inl (ModuleErr (FromVerifyError e)) | Aborted msg \<Rightarrow> Inl (PanicErr msg)))"

text \<open>A change of the ledger that may fail.\<close>

definition vf_ledger :: "('x \<Rightarrow> token_error + 'a \<times> 'x) \<Rightarrow> ('x, 't, 'vk, 'a) vf_act" where
  "vf_ledger f = (\<lambda>(p, x). case f x of
     Inl e \<Rightarrow> ((p, x), Inl (TokenErr e)) | Inr (a, x') \<Rightarrow> ((p, x'), Inr a))"


section \<open>Statements\<close>

definition compute_statement_hash ::
  "('x, 't, 'vk, 'proof, 'pubs) vf_config \<Rightarrow> 'vk VkOrHash \<Rightarrow> 'proof \<Rightarrow> 'pubs \<Rightarrow> h256"
where
  "compute_statement_hash cfg vk_or_hash proof pubs =
     (let V = vf_verifier cfg;
          hash = (case vk_or_hash of Hash h \<Rightarrow> h | Vk vk \<Rightarrow> vk_hash V vk) in
      vf_keccak cfg (vf_keccak cfg (hash_context_data V) @ hash @ verifier_version_hash V proof @
        vf_keccak cfg (pubs_bytes V pubs)))"

definition submit_proof_weight ::
  "('x, 't, 'vk, 'proof, 'pubs) vf_config \<Rightarrow> 'vk VkOrHash \<Rightarrow> 'proof \<Rightarrow> 'pubs \<Rightarrow> nat option \<Rightarrow>
   dispatch_weight option \<Rightarrow> dispatch_weight"
where
  "submit_proof_weight cfg vk_or_hash proof pubs domain_id override_verify_proof =
     (let W = vf_weights cfg;
          vk_weight = (case vk_or_hash of Hash _ \<Rightarrow> wi_get_vk W | Vk vk \<Rightarrow> wi_validate_vk W vk);
          verify = (case override_verify_proof of Some w \<Rightarrow> w | None \<Rightarrow> wi_verify_proof W proof pubs) in
      compose (compose (compose (compose (vf_db_reads cfg 1) vk_weight) verify)
        (wi_compute_statement_hash W proof pubs)) (cb_weight (vf_callback cfg) domain_id))"


section \<open>Calls\<close>

definition obtain_vk ::
  "('x, 't, 'vk, 'proof, 'pubs) vf_config \<Rightarrow> 'vk VkOrHash \<Rightarrow> ('x, 't, 'vk, 'vk) vf_act"
where
  "obtain_vk cfg vk_or_hash =
     (case vk_or_hash of
        Hash h \<Rightarrow>
          act_bind (gets (\<lambda>(p, x). Vks p h)) (\<lambda>entry.
            case entry of
              None \<Rightarrow> act_fail (ModuleErr VerificationKeyNotFound)
            | Some e \<Rightarrow> act_return (ve_vk e))
      | Vk vk \<Rightarrow> act_then (ask (\<lambda>x. validate_vk (vf_verifier cfg) x vk)) (act_return vk))"

definition tell ::
  "('x, 't, 'vk, 'proof, 'pubs) vf_config \<Rightarrow> account option \<Rightarrow> nat option \<Rightarrow> h256 \<Rightarrow> ('x, 't, 'vk, unit) vf_act"
where
  "tell cfg account domain_id statement = (\<lambda>(p, x).
     case cb_on_proof_verified (vf_callback cfg) account domain_id statement x of
       (x', None) \<Rightarrow> ((p, x'), Inr ())
     | (x', Some msg) \<Rightarrow> ((p, x'), Inl (PanicErr msg)))"

definition submit_proof ::
  "('x, 't, 'vk, 'proof, 'pubs) vf_config \<Rightarrow> origin \<Rightarrow> 'vk VkOrHash \<Rightarrow> 'proof \<Rightarrow> 'pubs \<Rightarrow> nat option \<Rightarrow>
   ('x, 't, 'vk, dispatch_weight option) vf_act"
where
  "submit_proof cfg origin vk_or_hash proof pubs domain_id =
     act_bind vf_disabled (\<lambda>disabled.
     act_then (ensure (\<not> disabled) (ModuleErr DisabledVerifier))
     (act_bind (obtain_vk cfg vk_or_hash) (\<lambda>vk.
     act_bind (ensure_signed_or_root origin) (\<lambda>account.
     act_bind (ask (\<lambda>x. verify_proof (vf_verifier cfg) x vk proof pubs)) (\<lambda>verify_proof_weight.
     let statement = compute_statement_hash cfg vk_or_hash proof pubs in
     act_then (vf_deposit (ProofWasVerified statement))
     (act_then (tell cfg account domain_id statement)
     (act_return (map_option (\<lambda>w. submit_proof_weight cfg vk_or_hash proof pubs domain_id (Some w))
        verify_proof_weight))))))))"

definition add_reference :: "h256 \<Rightarrow> 'vk \<Rightarrow> ('x, 't, 'vk, unit) vf_act" where
  "add_reference h vk = (\<lambda>(p, x).
     case Vks p h of
       Some e \<Rightarrow>
         (if ve_ref_count e < u64_max
          then ((p\<lparr>Vks := (Vks p)(h \<mapsto> e\<lparr>ve_ref_count := ve_ref_count e + 1\<rparr>)\<rparr>, x), Inr ())
          else ((p, x), Inl ArithmeticOverflow))
     | None \<Rightarrow> ((p\<lparr>Vks := (Vks p)(h \<mapsto> VkEntry_new vk)\<rparr>, x), Inr ()))"

definition register_vk ::
  "('x, 't, 'vk, 'proof, 'pubs) vf_config \<Rightarrow> origin \<Rightarrow> 'vk \<Rightarrow> ('x, 't, 'vk, unit) vf_act"
where
  "register_vk cfg origin vk =
     act_bind vf_disabled (\<lambda>disabled.
     act_then (ensure (\<not> disabled) (ModuleErr DisabledVerifier))
     (act_bind (ensure_signed origin) (\<lambda>account_id.
     let h = vk_hash (vf_verifier cfg) vk in
     act_bind (gets (\<lambda>(p, x). Tickets p (account_id, h))) (\<lambda>ticket.
     act_then (ensure (ticket = None) (ModuleErr VerificationKeyAlreadyRegistered))
     (act_then (ask (\<lambda>x. validate_vk (vf_verifier cfg) x vk))
     (act_bind (vf_ledger (\<lambda>x. co_new (vf_ticket cfg) x account_id 1 (vf_encoded_size cfg vk))) (\<lambda>ticket.
     act_then (modify (\<lambda>(p, x). (p\<lparr>Tickets := (Tickets p)((account_id, h) \<mapsto> ticket)\<rparr>, x)))
     (act_then (add_reference h vk)
     (vf_deposit (VkRegistered h))))))))))"

definition disable :: "origin \<Rightarrow> bool \<Rightarrow> ('x, 't, 'vk, unit) vf_act" where
  "disable origin disabled =
     act_then (ensure_root origin) (modify (\<lambda>(p, x). (p\<lparr>Disabled := Some disabled\<rparr>, x)))"

definition drop_reference :: "h256 \<Rightarrow> ('x, 't, 'vk, unit) vf_act" where
  "drop_reference h =
     act_bind (gets (\<lambda>(p, x). Vks p h)) (\<lambda>entry.
       case entry of
         None \<Rightarrow> act_fail (PanicErr ''internal error: entered unreachable code'')
       | Some e \<Rightarrow>
           (if ve_ref_count e - 1 = 0
            then act_then (modify (\<lambda>(p, x). (p\<lparr>Vks := (Vks p)(h := None)\<rparr>, x))) (vf_deposit (VkUnregistered h))
            else modify (\<lambda>(p, x). (p\<lparr>Vks := (Vks p)(h \<mapsto> e\<lparr>ve_ref_count := ve_ref_count e - 1\<rparr>)\<rparr>, x))))"

definition unregister_vk ::
  "('x, 't, 'vk, 'proof, 'pubs) vf_config \<Rightarrow> origin \<Rightarrow> h256 \<Rightarrow> ('x, 't, 'vk, unit) vf_act"
where
  "unregister_vk cfg origin h =
     act_bind (ensure_signed origin) (\<lambda>account_id.
     act_bind (gets (\<lambda>(p, x). (Tickets p (account_id, h), Vks p h))) (\<lambda>(ticket, entry).
     act_then
       (case ticket of
          Some t \<Rightarrow>
            act_then (modify (\<lambda>(p, x). (p\<lparr>Tickets := (Tickets p)((account_id, h) := None)\<rparr>, x)))
              (vf_ledger (\<lambda>x. case co_drop (vf_ticket cfg) x t account_id of Inl e \<Rightarrow> Inl e | Inr x' \<Rightarrow> Inr ((), x')))
        | None \<Rightarrow>
            (if entry \<noteq> None then act_fail BadOrigin else act_fail (ModuleErr VerificationKeyNotFound)))
       (drop_reference h)))"

datatype ('vk, 'proof, 'pubs) vf_call =
    SubmitProof origin "'vk VkOrHash" 'proof 'pubs "nat option"
  | RegisterVk origin 'vk
  | Disable origin bool
  | UnregisterVk origin h256

fun vf_call_body ::
  "('x, 't, 'vk, 'proof, 'pubs) vf_config \<Rightarrow> ('vk, 'proof, 'pubs) vf_call \<Rightarrow> ('x, 't, 'vk, unit) vf_act"
where
  "vf_call_body cfg (SubmitProof og voh proof pubs i) =
     act_bind (submit_proof cfg og voh proof pubs i) (\<lambda>_. act_return ())"
| "vf_call_body cfg (RegisterVk og vk) = register_vk cfg og vk"
| "vf_call_body cfg (Disable og b) = disable og b"
| "vf_call_body cfg (UnregisterVk og h) = unregister_vk cfg og h"

definition vf_dispatch ::
  "('x, 't, 'vk, 'proof, 'pubs) vf_config \<Rightarrow> ('vk, 'proof, 'pubs) vf_call \<Rightarrow> ('x, 't, 'vk, unit) vf_act"
where
  "vf_dispatch cfg c = transactional (vf_call_body cfg c)"

definition vf_start :: "('t, 'vk) vf_storage" where
  "vf_start = \<lparr>Disabled = None, Vks = (\<lambda>_. None), Tickets = (\<lambda>_. None), vf_events = []\<rparr>"

end
