(* ===== verification/CrlPallet.thy ===== *)
theory CrlPallet
  imports Frame
begin

text \<open>
  The pallet of the certificate revocation lists (\<open>pallets/crl\<close>): certificate authorities with their root
  certificates, and for each the revoked certificates that the lists of its issuers name. Parsing
  and checking a list is the work of a library outside the repository, a parameter that is given the root
  certificate and the time.
\<close>


section \<open>Configuration and storage\<close>

definition MAX_CRL_PEM_LENGTH :: nat where
  "MAX_CRL_PEM_LENGTH = 65536"

definition MAX_CERT_CHAIN_PEM_LENGTH :: nat where
  "MAX_CERT_CHAIN_PEM_LENGTH = 16384"

definition MAX_ROOT_CERT_LENGTH :: nat where
  "MAX_ROOT_CERT_LENGTH = 2048"

definition MAX_CRL_DER_LENGTH :: nat where
  "MAX_CRL_DER_LENGTH = 65536"

definition MAX_CERT_CHAIN_DER_LENGTH :: nat where
  "MAX_CERT_CHAIN_DER_LENGTH = 16384"

definition MAX_REVOKED_CERTS_PER_CA :: nat where
  "MAX_REVOKED_CERTS_PER_CA = 10000"

definition MAX_ISSUERS_PER_CA :: nat where
  "MAX_ISSUERS_PER_CA = 10"

definition MAX_CERT_ISSUER_LENGTH :: nat where
  "MAX_CERT_ISSUER_LENGTH = 256"

definition MAX_CERT_SERIAL_LENGTH :: nat where
  "MAX_CERT_SERIAL_LENGTH = 32"


lemmas crl_limits = MAX_CRL_PEM_LENGTH_def MAX_CERT_CHAIN_PEM_LENGTH_def MAX_ROOT_CERT_LENGTH_def
  MAX_CRL_DER_LENGTH_def MAX_CERT_CHAIN_DER_LENGTH_def MAX_REVOKED_CERTS_PER_CA_def MAX_ISSUERS_PER_CA_def
  MAX_CERT_ISSUER_LENGTH_def MAX_CERT_SERIAL_LENGTH_def

text \<open>An entry as the library returns it, and as it is stored.\<close>

record RevokedCertId =
  rc_issuer :: string
  rc_serial_number :: string

type_synonym Crl = "RevokedCertId list"

record RevokedInfo =
  ri_issuer :: string
  ri_serial :: string

definition revoked_cert_id :: "RevokedInfo \<Rightarrow> RevokedCertId" where
  "revoked_cert_id info = \<lparr>rc_issuer = ri_issuer info, rc_serial_number = ri_serial info\<rparr>"

datatype CrlInput = Pem string string | Der string string

record CaInfo =
  root_cert :: string
  revoked_count :: nat
  crl_versions :: "(h256 \<times> nat) list"

text \<open>
  The parsers take the list, the chain of certificates, the root certificate and the time; they return the
  time of the list and its entries, or nothing.
\<close>

record crl_config =
  crl_manager :: "origin \<Rightarrow> bool"
  MaxCaNameLength :: nat
  parse_crl_pem :: "string \<Rightarrow> string \<Rightarrow> string option \<Rightarrow> nat \<Rightarrow> (nat \<times> Crl) option"
  parse_crl_der :: "string \<Rightarrow> string \<Rightarrow> string option \<Rightarrow> nat \<Rightarrow> (nat \<times> Crl) option"
  crl_blake2 :: "string \<Rightarrow> h256"

datatype crl_error =
    CaNameTooLong
  | CaNameEmpty
  | RootCertEmpty
  | CaAlreadyRegistered
  | CaNotFound
  | MaxCasReached
  | RootCertTooLarge
  | CrlPemTooLarge
  | CertChainPemTooLarge
  | CrlValidationError
  | TooManyRevokedCerts
  | IssuerTooLarge
  | SerialNumberTooLarge
  | CrlTooLarge
  | NotNewerCrl
  | TooManyIssuers
  | EmptyCrl
  | CrlDerTooLarge
  | CertChainDerTooLarge

datatype crl_event =
    CaRegistered string
  | CaUnregistered string
  | CrlUpdated string string nat nat

record crl_storage =
  CertificateAuthorities :: "string \<Rightarrow> CaInfo option"
  Revoked :: "string \<Rightarrow> RevokedInfo list option"
  crl_events :: "crl_event list"

type_synonym 'a crl_act = "(crl_storage, crl_error, 'a) storage_act"

definition crl_deposit :: "crl_event \<Rightarrow> unit crl_act" where
  "crl_deposit e = modify (\<lambda>s. s\<lparr>crl_events := crl_events s @ [e]\<rparr>)"

definition put_ca :: "string \<Rightarrow> CaInfo option \<Rightarrow> unit crl_act" where
  "put_ca name info = modify (\<lambda>s. s\<lparr>CertificateAuthorities := (CertificateAuthorities s)(name := info)\<rparr>)"

definition put_revoked :: "string \<Rightarrow> RevokedInfo list option \<Rightarrow> unit crl_act" where
  "put_revoked name rs = modify (\<lambda>s. s\<lparr>Revoked := (Revoked s)(name := rs)\<rparr>)"

definition bounded_name :: "crl_config \<Rightarrow> string \<Rightarrow> unit crl_act" where
  "bounded_name cfg name = ensure (length name \<le> MaxCaNameLength cfg) (ModuleErr CaNameTooLong)"


section \<open>Merging a list\<close>

text \<open>\<open>try_push\<close> of every new entry: the two identifiers are checked before the number of entries.\<close>

fun push_entries :: "Crl \<Rightarrow> RevokedInfo list \<Rightarrow> crl_error + RevokedInfo list" where
  "push_entries [] store = Inr store"
| "push_entries (r # rs) store =
     (if MAX_CERT_ISSUER_LENGTH < length (rc_issuer r) then Inl IssuerTooLarge
      else if MAX_CERT_SERIAL_LENGTH < length (rc_serial_number r) then Inl SerialNumberTooLarge
      else if MAX_REVOKED_CERTS_PER_CA \<le> length store then Inl TooManyRevokedCerts
      else push_entries rs (store @ [\<lparr>ri_issuer = rc_issuer r, ri_serial = rc_serial_number r\<rparr>]))"

definition merge_revoked_certs_for_ca :: "string \<Rightarrow> Crl \<Rightarrow> string \<Rightarrow> nat crl_act" where
  "merge_revoked_certs_for_ca ca_name new_entries issuer_bytes =
     act_bind (gets (\<lambda>s. case Revoked s ca_name of Some rs \<Rightarrow> rs | None \<Rightarrow> [])) (\<lambda>store.
       case push_entries new_entries (filter (\<lambda>r. ri_issuer r \<noteq> issuer_bytes) store) of
         Inl e \<Rightarrow> act_fail (ModuleErr e)
       | Inr store \<Rightarrow> act_then (put_revoked ca_name (Some store)) (act_return (length store)))"

definition get_crl_for_ca :: "crl_storage \<Rightarrow> string \<Rightarrow> Crl option" where
  "get_crl_for_ca s ca_name = map_option (map revoked_cert_id) (Revoked s ca_name)"

definition get_crl :: "crl_config \<Rightarrow> crl_storage \<Rightarrow> string \<Rightarrow> Crl option" where
  "get_crl cfg s ca_name = (if length ca_name \<le> MaxCaNameLength cfg then get_crl_for_ca s ca_name else None)"


section \<open>Calls\<close>

definition register_ca :: "crl_config \<Rightarrow> origin \<Rightarrow> string \<Rightarrow> string \<Rightarrow> unit crl_act" where
  "register_ca cfg origin name cert =
     act_then (ensure_origin (crl_manager cfg) origin)
     (act_then (ensure (name \<noteq> []) (ModuleErr CaNameEmpty))
     (act_then (ensure (cert \<noteq> []) (ModuleErr RootCertEmpty))
     (act_then (bounded_name cfg name)
     (act_bind (gets (\<lambda>s. CertificateAuthorities s name)) (\<lambda>known.
     act_then (ensure (known = None) (ModuleErr CaAlreadyRegistered))
     (act_then (ensure (length cert \<le> MAX_ROOT_CERT_LENGTH) (ModuleErr RootCertTooLarge))
     (act_then (put_ca name (Some \<lparr>root_cert = cert, revoked_count = 0, crl_versions = []\<rparr>))
     (act_then (put_revoked name (Some []))
     (crl_deposit (CaRegistered name))))))))))"

definition unregister_ca :: "crl_config \<Rightarrow> origin \<Rightarrow> string \<Rightarrow> unit crl_act" where
  "unregister_ca cfg origin name =
     act_then (ensure_origin (crl_manager cfg) origin)
     (act_then (bounded_name cfg name)
     (act_then (put_revoked name None)
     (act_bind (gets (\<lambda>s. CertificateAuthorities s name)) (\<lambda>known.
     act_then (put_ca name None)
     (act_then (ensure (known \<noteq> None) (ModuleErr CaNotFound))
     (crl_deposit (CaUnregistered name)))))))"

definition parse_input :: "crl_config \<Rightarrow> nat \<Rightarrow> string \<Rightarrow> CrlInput \<Rightarrow> (nat \<times> Crl) crl_act" where
  "parse_input cfg now cert input =
     act_bind
       (case input of
          Pem crl cert_chain \<Rightarrow>
            act_then (ensure (length crl \<le> MAX_CRL_PEM_LENGTH) (ModuleErr CrlPemTooLarge))
            (act_then (ensure (length cert_chain \<le> MAX_CERT_CHAIN_PEM_LENGTH) (ModuleErr CertChainPemTooLarge))
            (act_return (parse_crl_pem cfg crl cert_chain (Some cert) now)))
        | Der crl cert_chain \<Rightarrow>
            act_then (ensure (length crl \<le> MAX_CRL_DER_LENGTH) (ModuleErr CrlDerTooLarge))
            (act_then (ensure (length cert_chain \<le> MAX_CERT_CHAIN_DER_LENGTH) (ModuleErr CertChainDerTooLarge))
            (act_return (parse_crl_der cfg crl cert_chain (Some cert) now))))
       (\<lambda>parsed. case parsed of
          None \<Rightarrow> act_fail (ModuleErr CrlValidationError)
        | Some r \<Rightarrow> act_return r)"

definition update_crl :: "crl_config \<Rightarrow> nat \<Rightarrow> origin \<Rightarrow> string \<Rightarrow> CrlInput \<Rightarrow> unit crl_act" where
  "update_crl cfg now origin ca_name crl_input =
     act_bind (ensure_signed origin) (\<lambda>who.
     act_then (bounded_name cfg ca_name)
     (act_bind (gets (\<lambda>s. CertificateAuthorities s ca_name)) (\<lambda>known.
     case known of
       None \<Rightarrow> act_fail (ModuleErr CaNotFound)
     | Some ca_info \<Rightarrow>
         act_bind (parse_input cfg now (root_cert ca_info) crl_input) (\<lambda>(this_update, parsed_crl).
         case parsed_crl of
           [] \<Rightarrow> act_fail (ModuleErr EmptyCrl)
         | r # rs \<Rightarrow>
             (let issuer_bytes = rc_issuer r;
                  issuer_hash = crl_blake2 cfg issuer_bytes;
                  versions = crl_versions ca_info in
              act_then (ensure (case map_of versions issuer_hash of
                    Some existing \<Rightarrow> existing < this_update | None \<Rightarrow> True) (ModuleErr NotNewerCrl))
              (act_bind (merge_revoked_certs_for_ca ca_name parsed_crl issuer_bytes) (\<lambda>count.
              act_then (ensure (issuer_hash \<in> fst ` set versions \<or> length versions < MAX_ISSUERS_PER_CA)
                (ModuleErr TooManyIssuers))
              (act_then (put_ca ca_name (Some (ca_info\<lparr>crl_versions := btree_insert issuer_hash this_update versions,
                  revoked_count := count\<rparr>)))
              (crl_deposit (CrlUpdated ca_name issuer_bytes this_update count))))))))))"

datatype crl_call =
    RegisterCa origin string string
  | UnregisterCa origin string
  | UpdateCrl origin string CrlInput

fun crl_call_body :: "crl_config \<Rightarrow> nat \<Rightarrow> crl_call \<Rightarrow> unit crl_act" where
  "crl_call_body cfg now (RegisterCa og name cert) = register_ca cfg og name cert"
| "crl_call_body cfg now (UnregisterCa og name) = unregister_ca cfg og name"
| "crl_call_body cfg now (UpdateCrl og name input) = update_crl cfg now og name input"

text \<open>A call and the time at which it is executed.\<close>

definition crl_dispatch :: "crl_config \<Rightarrow> nat \<times> crl_call \<Rightarrow> unit crl_act" where
  "crl_dispatch cfg tc = transactional (crl_call_body cfg (fst tc) (snd tc))"

definition crl_start :: crl_storage where
  "crl_start = \<lparr>CertificateAuthorities = (\<lambda>_. None), Revoked = (\<lambda>_. None), crl_events = []\<rparr>"


section \<open>Effects of the calls\<close>

lemma put_apply [simp]:
  "put_ca n i s = (s\<lparr>CertificateAuthorities := (CertificateAuthorities s)(n := i)\<rparr>, Inr ())"
  "put_revoked n rs s = (s\<lparr>Revoked := (Revoked s)(n := rs)\<rparr>, Inr ())"
  "crl_deposit e s = (s\<lparr>crl_events := crl_events s @ [e]\<rparr>, Inr ())"
  by (simp_all add: put_ca_def put_revoked_def crl_deposit_def)

lemma register_ca_Inr:
  assumes "register_ca cfg og name cert s = (s', Inr ())"
  shows "crl_manager cfg og" "name \<noteq> []" "length name \<le> MaxCaNameLength cfg" "CertificateAuthorities s name = None"
    "cert \<noteq> []" "length cert \<le> MAX_ROOT_CERT_LENGTH"
    "s' = s\<lparr>CertificateAuthorities := (CertificateAuthorities s)(name \<mapsto>
         \<lparr>root_cert = cert, revoked_count = 0, crl_versions = []\<rparr>),
       Revoked := (Revoked s)(name \<mapsto> []), crl_events := crl_events s @ [CaRegistered name]\<rparr>"
  using assms by (auto simp: register_ca_def bounded_name_def origin_simps then_ensure call_Inr split: if_splits)

lemma unregister_ca_Inr:
  assumes "unregister_ca cfg og name s = (s', Inr ())"
  shows "crl_manager cfg og" "CertificateAuthorities s name \<noteq> None"
    "s' = s\<lparr>CertificateAuthorities := (CertificateAuthorities s)(name := None),
       Revoked := (Revoked s)(name := None), crl_events := crl_events s @ [CaUnregistered name]\<rparr>"
  using assms by (auto simp: unregister_ca_def bounded_name_def origin_simps then_ensure call_Inr split: if_splits)

definition stored_entry :: "RevokedCertId \<Rightarrow> RevokedInfo" where
  "stored_entry r = \<lparr>ri_issuer = rc_issuer r, ri_serial = rc_serial_number r\<rparr>"

definition bounded_entry :: "RevokedInfo \<Rightarrow> bool" where
  "bounded_entry r \<longleftrightarrow> length (ri_issuer r) \<le> MAX_CERT_ISSUER_LENGTH \<and> length (ri_serial r) \<le> MAX_CERT_SERIAL_LENGTH"

lemma push_entries_Inr:
  "push_entries rs store = Inr store' \<Longrightarrow> length store \<le> MAX_REVOKED_CERTS_PER_CA \<Longrightarrow>
     store' = store @ map stored_entry rs \<and> length store' \<le> MAX_REVOKED_CERTS_PER_CA \<and>
     (\<forall>r\<in>set rs. bounded_entry (stored_entry r))"
proof (induction rs arbitrary: store)
  case (Cons r rs)
  have "push_entries rs (store @ [stored_entry r]) = Inr store'" "bounded_entry (stored_entry r)"
    "length store < MAX_REVOKED_CERTS_PER_CA"
    using Cons.prems(1) by (auto simp: stored_entry_def bounded_entry_def split: if_splits)
  then show ?case using Cons.IH [of "store @ [stored_entry r]"] by auto
qed simp

text \<open>What an input parses to at a time.\<close>

definition parsed :: "crl_config \<Rightarrow> nat \<Rightarrow> string \<Rightarrow> CrlInput \<Rightarrow> (nat \<times> Crl) option" where
  "parsed cfg now cert input =
     (case input of
        Pem crl chain \<Rightarrow> parse_crl_pem cfg crl chain (Some cert) now
      | Der crl chain \<Rightarrow> parse_crl_der cfg crl chain (Some cert) now)"

lemma parse_input_Inr:
  "parse_input cfg now cert input s = (s', Inr r) \<Longrightarrow> s' = s \<and> parsed cfg now cert input = Some r"
  by (auto simp: parse_input_def parsed_def then_ensure call_Inr split: CrlInput.splits if_splits option.splits)

definition revoked_in :: "crl_storage \<Rightarrow> string \<Rightarrow> RevokedInfo list" where
  "revoked_in s name = (case Revoked s name of Some rs \<Rightarrow> rs | None \<Rightarrow> [])"

lemma merge_Inr:
  assumes "merge_revoked_certs_for_ca name new issuer s = (s', Inr n)"
    and "length (revoked_in s name) \<le> MAX_REVOKED_CERTS_PER_CA"
  shows "let store = filter (\<lambda>r. ri_issuer r \<noteq> issuer) (revoked_in s name) @ map stored_entry new in
    n = length store \<and> n \<le> MAX_REVOKED_CERTS_PER_CA \<and> (\<forall>r\<in>set new. bounded_entry (stored_entry r)) \<and>
    s' = s\<lparr>Revoked := (Revoked s)(name \<mapsto> store)\<rparr>"
proof -
  let ?kept = "filter (\<lambda>r. ri_issuer r \<noteq> issuer) (revoked_in s name)"
  obtain store where push: "push_entries new ?kept = Inr store" and s': "s' = s\<lparr>Revoked := (Revoked s)(name \<mapsto> store)\<rparr>"
    and n: "n = length store"
    using assms(1)
    by (auto simp: merge_revoked_certs_for_ca_def revoked_in_def act_then_def act_bind_def split: sum.splits)
  have "length ?kept \<le> MAX_REVOKED_CERTS_PER_CA" using assms(2) by (meson length_filter_le order_trans)
  from push_entries_Inr [OF push this] show ?thesis using s' n by (auto simp: Let_def)
qed

lemma update_crl_Inr:
  assumes "update_crl cfg now og name input s = (s', Inr ())"
    and "length (revoked_in s name) \<le> MAX_REVOKED_CERTS_PER_CA"
  obtains info t r rs store where "CertificateAuthorities s name = Some info"
    "parsed cfg now (root_cert info) input = Some (t, r # rs)"
    "\<And>old. map_of (crl_versions info) (crl_blake2 cfg (rc_issuer r)) = Some old \<Longrightarrow> old < t"
    "crl_blake2 cfg (rc_issuer r) \<in> fst ` set (crl_versions info) \<or> length (crl_versions info) < MAX_ISSUERS_PER_CA"
    "store = filter (\<lambda>e. ri_issuer e \<noteq> rc_issuer r) (revoked_in s name) @ map stored_entry (r # rs)"
    "length store \<le> MAX_REVOKED_CERTS_PER_CA" "\<And>e. e \<in> set (r # rs) \<Longrightarrow> bounded_entry (stored_entry e)"
    "s' = s\<lparr>CertificateAuthorities := (CertificateAuthorities s)(name \<mapsto>
         info\<lparr>crl_versions := btree_insert (crl_blake2 cfg (rc_issuer r)) t (crl_versions info),
           revoked_count := length store\<rparr>),
       Revoked := (Revoked s)(name \<mapsto> store),
       crl_events := crl_events s @ [CrlUpdated name (rc_issuer r) t (length store)]\<rparr>"
proof -
  from assms(1) obtain info where info: "CertificateAuthorities s name = Some info"
    by (auto simp: update_crl_def bounded_name_def then_ensure call_Inr split: if_splits option.splits)
  from assms(1) info obtain t l where parse: "parse_input cfg now (root_cert info) input s = (s, Inr (t, l))"
    by (auto simp: update_crl_def bounded_name_def then_ensure call_Inr split: if_splits dest: parse_input_Inr)
  have "l \<noteq> []"
    using assms(1) info parse by (auto simp: update_crl_def bounded_name_def then_ensure call_Inr split: if_splits)
  then obtain r rs where l: "l = r # rs" by (cases l) auto
  have p: "parsed cfg now (root_cert info) input = Some (t, r # rs)" using parse_input_Inr [OF parse] l by simp
  obtain s1 n where newer: "case map_of (crl_versions info) (crl_blake2 cfg (rc_issuer r)) of
        Some existing \<Rightarrow> existing < t | None \<Rightarrow> True"
    and merge: "merge_revoked_certs_for_ca name (r # rs) (rc_issuer r) s = (s1, Inr n)"
    and space: "crl_blake2 cfg (rc_issuer r) \<in> fst ` set (crl_versions info) \<or> length (crl_versions info) < MAX_ISSUERS_PER_CA"
    and s': "s' = s1\<lparr>CertificateAuthorities := (CertificateAuthorities s1)(name \<mapsto>
         info\<lparr>crl_versions := btree_insert (crl_blake2 cfg (rc_issuer r)) t (crl_versions info), revoked_count := n\<rparr>),
       crl_events := crl_events s1 @ [CrlUpdated name (rc_issuer r) t n]\<rparr>"
    using assms(1) info parse l
    by (auto simp: update_crl_def bounded_name_def then_ensure call_Inr Let_def split: if_splits)
  have new: "old < t" if "map_of (crl_versions info) (crl_blake2 cfg (rc_issuer r)) = Some old" for old
    using newer that by simp
  from merge_Inr [OF merge assms(2)] show thesis
    using that [OF info p new space refl] s' by (auto simp: Let_def)
qed


section \<open>The invariant of the storage\<close>

definition ca_ok :: "crl_config \<Rightarrow> string \<Rightarrow> CaInfo \<Rightarrow> RevokedInfo list \<Rightarrow> bool" where
  "ca_ok cfg name info rs \<longleftrightarrow>
     name \<noteq> [] \<and> length name \<le> MaxCaNameLength cfg \<and>
     root_cert info \<noteq> [] \<and> length (root_cert info) \<le> MAX_ROOT_CERT_LENGTH \<and>
     revoked_count info = length rs \<and> length rs \<le> MAX_REVOKED_CERTS_PER_CA \<and> list_all bounded_entry rs \<and>
     btree (crl_versions info) \<and> length (crl_versions info) \<le> MAX_ISSUERS_PER_CA"

fun crl_slot_ok :: "crl_config \<Rightarrow> string \<Rightarrow> CaInfo option \<Rightarrow> RevokedInfo list option \<Rightarrow> bool" where
  "crl_slot_ok cfg name (Some info) (Some rs) = ca_ok cfg name info rs"
| "crl_slot_ok cfg name None None = True"
| "crl_slot_ok cfg name _ _ = False"

definition crl_inv :: "crl_config \<Rightarrow> crl_storage \<Rightarrow> bool" where
  "crl_inv cfg s \<longleftrightarrow> (\<forall>name. crl_slot_ok cfg name (CertificateAuthorities s name) (Revoked s name))"

lemma crl_inv_ca:
  assumes "crl_inv cfg s" and "CertificateAuthorities s name = Some info"
  shows "Revoked s name = Some (revoked_in s name)" and "ca_ok cfg name info (revoked_in s name)"
proof -
  have "crl_slot_ok cfg name (Some info) (Revoked s name)" using assms by (metis crl_inv_def)
  then show "Revoked s name = Some (revoked_in s name)" "ca_ok cfg name info (revoked_in s name)"
    by (cases "Revoked s name"; simp add: revoked_in_def)+
qed

lemma crl_inv_bound: "crl_inv cfg s \<Longrightarrow> length (revoked_in s name) \<le> MAX_REVOKED_CERTS_PER_CA"
proof (cases "CertificateAuthorities s name")
  case None
  assume "crl_inv cfg s"
  with None have "crl_slot_ok cfg name None (Revoked s name)" by (metis crl_inv_def)
  then show ?thesis by (cases "Revoked s name") (simp_all add: revoked_in_def)
next
  case (Some info)
  assume "crl_inv cfg s"
  from crl_inv_ca(2) [OF this Some] show ?thesis by (simp add: ca_ok_def)
qed

lemma length_btree_insert_known: "k \<in> fst ` set m \<Longrightarrow> btree m \<Longrightarrow> length (btree_insert k v m) = length m"
proof (induction m)
  case (Cons e m)
  have tl: "btree m" "\<forall>k'\<in>fst ` set m. fst e < k'" using Cons.prems(2) by (auto simp: btree_def)
  show ?case
  proof (cases "k = fst e")
    case False
    then have "k \<in> fst ` set m" using Cons.prems(1) by auto
    moreover from this tl(2) have "fst e < k" by blast
    ultimately show ?thesis using Cons.IH tl(1) by auto
  qed simp
qed simp

lemma update_crl_inv:
  assumes inv: "crl_inv cfg s" and run: "update_crl cfg now og name input s = (s', Inr ())"
  shows "crl_inv cfg s'"
proof -
  obtain info t r rs store where info: "CertificateAuthorities s name = Some info"
    and p: "parsed cfg now (root_cert info) input = Some (t, r # rs)"
    and new: "\<And>old. map_of (crl_versions info) (crl_blake2 cfg (rc_issuer r)) = Some old \<Longrightarrow> old < t"
    and space: "crl_blake2 cfg (rc_issuer r) \<in> fst ` set (crl_versions info) \<or> length (crl_versions info) < MAX_ISSUERS_PER_CA"
    and store: "store = filter (\<lambda>e. ri_issuer e \<noteq> rc_issuer r) (revoked_in s name) @ map stored_entry (r # rs)"
    and len: "length store \<le> MAX_REVOKED_CERTS_PER_CA"
    and bounded: "\<And>e. e \<in> set (r # rs) \<Longrightarrow> bounded_entry (stored_entry e)"
    and s': "s' = s\<lparr>CertificateAuthorities := (CertificateAuthorities s)(name \<mapsto>
         info\<lparr>crl_versions := btree_insert (crl_blake2 cfg (rc_issuer r)) t (crl_versions info),
           revoked_count := length store\<rparr>),
       Revoked := (Revoked s)(name \<mapsto> store),
       crl_events := crl_events s @ [CrlUpdated name (rc_issuer r) t (length store)]\<rparr>"
    by (rule update_crl_Inr [OF run crl_inv_bound [OF inv]]) (rule that)
  let ?k = "crl_blake2 cfg (rc_issuer r)"
  have ok: "ca_ok cfg name info (revoked_in s name)" using crl_inv_ca(2) [OF inv info] .
  have tree: "btree (crl_versions info)" and few: "length (crl_versions info) \<le> MAX_ISSUERS_PER_CA"
    using ok by (simp_all add: ca_ok_def)
  have "length (btree_insert ?k t (crl_versions info)) \<le> MAX_ISSUERS_PER_CA"
    using space few length_btree_insert_known [OF _ tree, of ?k t] length_btree_insert [of ?k t "crl_versions info"] by linarith
  moreover have "list_all bounded_entry store"
    using ok bounded by (auto simp: store ca_ok_def list_all_iff)
  ultimately have "ca_ok cfg name (info\<lparr>crl_versions := btree_insert ?k t (crl_versions info),
      revoked_count := length store\<rparr>) store"
    using ok len tree by (simp add: ca_ok_def btree_insert_btree)
  then show ?thesis using inv by (simp add: crl_inv_def s')
qed

lemma crl_call_inv:
  assumes inv: "crl_inv cfg s" and run: "crl_call_body cfg now c s = (s', Inr ())"
  shows "crl_inv cfg s'"
proof (cases c)
  case (RegisterCa og name cert)
  then have reg: "register_ca cfg og name cert s = (s', Inr ())" using run by simp
  have "ca_ok cfg name \<lparr>root_cert = cert, revoked_count = 0, crl_versions = []\<rparr> []"
    using register_ca_Inr(2,3,5,6) [OF reg] by (simp add: ca_ok_def btree_def)
  then show ?thesis using inv by (simp add: register_ca_Inr(7) [OF reg] crl_inv_def)
next
  case (UnregisterCa og name)
  then have unreg: "unregister_ca cfg og name s = (s', Inr ())" using run by simp
  show ?thesis using inv by (simp add: unregister_ca_Inr(3) [OF unreg] crl_inv_def)
next
  case (UpdateCrl og name input)
  then show ?thesis using run update_crl_inv [OF inv, of now og name input s'] by simp
qed

interpretation crls: pallet "crl_dispatch cfg" "crl_inv cfg" for cfg
  by unfold_locales (auto simp: crl_dispatch_def transactional_eq_Inl dest: crl_call_inv)

inductive crl_chain :: "crl_config \<Rightarrow> crl_storage \<Rightarrow> bool" for cfg where
  start: "crl_chain cfg crl_start"
| call: "crl_chain cfg s \<Longrightarrow> crl_chain cfg (fst (crl_dispatch cfg tc s))"

lemma crl_chain_inv: "crl_chain cfg s \<Longrightarrow> crl_inv cfg s"
proof (induction rule: crl_chain.induct)
  case start
  show ?case by (simp add: crl_inv_def crl_start_def)
next
  case (call s tc)
  then show ?case using crls.dispatch_inv [of cfg s tc] by simp
qed

definition run_crl :: "crl_config \<Rightarrow> (nat \<times> crl_call) list \<Rightarrow> crl_storage \<Rightarrow> crl_storage" where
  "run_crl cfg tcs s = fold (\<lambda>tc s. fst (crl_dispatch cfg tc s)) tcs s"

lemma run_crl_simps [simp]:
  "run_crl cfg [] s = s" "run_crl cfg (tc # tcs) s = run_crl cfg tcs (fst (crl_dispatch cfg tc s))"
  by (simp_all add: run_crl_def)

lemma crl_chain_run: "crl_chain cfg s \<Longrightarrow> crl_chain cfg (run_crl cfg tcs s)"
  by (induction tcs arbitrary: s) (auto intro: crl_chain.call)


section \<open>Lists are replaced by newer lists only\<close>

definition entries_of :: "crl_storage \<Rightarrow> string \<Rightarrow> string \<Rightarrow> RevokedInfo list" where
  "entries_of s name issuer = filter (\<lambda>e. ri_issuer e = issuer) (revoked_in s name)"

definition version_of :: "crl_config \<Rightarrow> crl_storage \<Rightarrow> string \<Rightarrow> string \<Rightarrow> nat option" where
  "version_of cfg s name issuer =
     (case CertificateAuthorities s name of
        None \<Rightarrow> None
      | Some info \<Rightarrow> map_of (crl_versions info) (crl_blake2 cfg issuer))"

lemma update_crl_effect:
  assumes inv: "crl_inv cfg s" and run: "update_crl cfg now og name input s = (s', Inr ())"
  obtains info t r rs where "CertificateAuthorities s name = Some info"
    "parsed cfg now (root_cert info) input = Some (t, r # rs)"
    "\<And>old. version_of cfg s name (rc_issuer r) = Some old \<Longrightarrow> old < t"
    "\<And>j. version_of cfg s' name j =
       (if crl_blake2 cfg j = crl_blake2 cfg (rc_issuer r) then Some t else version_of cfg s name j)"
    "\<And>j. entries_of s' name j = (if j = rc_issuer r then [] else entries_of s name j) @
       filter (\<lambda>e. ri_issuer e = j) (map stored_entry (r # rs))"
    "\<And>name' j. name' \<noteq> name \<Longrightarrow>
       version_of cfg s' name' j = version_of cfg s name' j \<and> entries_of s' name' j = entries_of s name' j"
proof -
  obtain info t r rs store where info: "CertificateAuthorities s name = Some info"
    and p: "parsed cfg now (root_cert info) input = Some (t, r # rs)"
    and new: "\<And>old. map_of (crl_versions info) (crl_blake2 cfg (rc_issuer r)) = Some old \<Longrightarrow> old < t"
    and space: "crl_blake2 cfg (rc_issuer r) \<in> fst ` set (crl_versions info) \<or> length (crl_versions info) < MAX_ISSUERS_PER_CA"
    and store: "store = filter (\<lambda>e. ri_issuer e \<noteq> rc_issuer r) (revoked_in s name) @ map stored_entry (r # rs)"
    and len: "length store \<le> MAX_REVOKED_CERTS_PER_CA"
    and bounded: "\<And>e. e \<in> set (r # rs) \<Longrightarrow> bounded_entry (stored_entry e)"
    and s': "s' = s\<lparr>CertificateAuthorities := (CertificateAuthorities s)(name \<mapsto>
         info\<lparr>crl_versions := btree_insert (crl_blake2 cfg (rc_issuer r)) t (crl_versions info),
           revoked_count := length store\<rparr>),
       Revoked := (Revoked s)(name \<mapsto> store),
       crl_events := crl_events s @ [CrlUpdated name (rc_issuer r) t (length store)]\<rparr>"
    by (rule update_crl_Inr [OF run crl_inv_bound [OF inv]]) (rule that)
  have "btree (crl_versions info)" using crl_inv_ca(2) [OF inv info] by (simp add: ca_ok_def)
  then have versions: "map_of (btree_insert (crl_blake2 cfg (rc_issuer r)) t (crl_versions info)) =
      (map_of (crl_versions info))(crl_blake2 cfg (rc_issuer r) \<mapsto> t)"
    by (rule map_of_btree_insert)
  have "filter (\<lambda>e. ri_issuer e = j) (filter (\<lambda>e. ri_issuer e \<noteq> i) es) =
      (if j = i then [] else filter (\<lambda>e. ri_issuer e = j) es)" for i j and es :: "RevokedInfo list"
    by (induction es) auto
  then have "entries_of s' name j = (if j = rc_issuer r then [] else entries_of s name j) @
       filter (\<lambda>e. ri_issuer e = j) (map stored_entry (r # rs))" for j
    by (simp add: entries_of_def revoked_in_def s' store)
  then show thesis
    using that [OF info p] new info versions by (simp add: s' version_of_def entries_of_def revoked_in_def)
qed

lemma crl_step_newer:
  assumes inv: "crl_inv cfg s" and run: "crl_call_body cfg now c s = (s', Inr ())"
    and kept: "\<And>og. c \<noteq> UnregisterCa og name" and t: "version_of cfg s name j = Some t"
  shows "\<exists>t'\<ge>t. version_of cfg s' name j = Some t' \<and>
    (t' = t \<longrightarrow> set (entries_of s name j) \<subseteq> set (entries_of s' name j))"
proof (cases c)
  case (RegisterCa og n cert)
  then have reg: "register_ca cfg og n cert s = (s', Inr ())" using run by simp
  have "n \<noteq> name" using register_ca_Inr(4) [OF reg] t by (auto simp: version_of_def)
  then show ?thesis
    using t by (simp add: register_ca_Inr(7) [OF reg] version_of_def entries_of_def revoked_in_def)
next
  case (UnregisterCa og n)
  then have unreg: "unregister_ca cfg og n s = (s', Inr ())" and "n \<noteq> name" using run kept by auto
  then show ?thesis
    using t by (simp add: unregister_ca_Inr(3) [OF unreg] version_of_def entries_of_def revoked_in_def)
next
  case (UpdateCrl og n input)
  then have "update_crl cfg now og n input s = (s', Inr ())" using run by simp
  from inv this show ?thesis
  proof (rule update_crl_effect)
    fix info t' r rs
    assume newer: "\<And>old. version_of cfg s n (rc_issuer r) = Some old \<Longrightarrow> old < t'"
      and v: "\<And>j. version_of cfg s' n j =
        (if crl_blake2 cfg j = crl_blake2 cfg (rc_issuer r) then Some t' else version_of cfg s n j)"
      and e: "\<And>j. entries_of s' n j = (if j = rc_issuer r then [] else entries_of s n j) @
        filter (\<lambda>e. ri_issuer e = j) (map stored_entry (r # rs))"
      and other: "\<And>name' j. name' \<noteq> n \<Longrightarrow>
        version_of cfg s' name' j = version_of cfg s name' j \<and> entries_of s' name' j = entries_of s name' j"
    consider "name \<noteq> n" | "name = n" "crl_blake2 cfg j = crl_blake2 cfg (rc_issuer r)"
      | "name = n" "crl_blake2 cfg j \<noteq> crl_blake2 cfg (rc_issuer r)" by blast
    then show ?thesis
    proof cases
      case 2
      then have "version_of cfg s n (rc_issuer r) = version_of cfg s n j"
        by (simp add: version_of_def split: option.split)
      then have "t < t'" using newer t 2 by simp
      then show ?thesis using v [of j] 2 by auto
    next
      case 3
      then have "j \<noteq> rc_issuer r" by auto
      then show ?thesis using v [of j] e [of j] 3 t by auto
    qed (use other t in auto)
  qed
qed

lemma crl_run_newer:
  assumes "crl_inv cfg s" and "\<And>tc og. tc \<in> set tcs \<Longrightarrow> snd tc \<noteq> UnregisterCa og name"
    and "version_of cfg s name j = Some t"
  shows "\<exists>t'\<ge>t. version_of cfg (run_crl cfg tcs s) name j = Some t' \<and>
    (t' = t \<longrightarrow> set (entries_of s name j) \<subseteq> set (entries_of (run_crl cfg tcs s) name j))"
  using assms
proof (induction tcs arbitrary: s t)
  case (Cons tc tcs)
  obtain s1 r where d: "crl_dispatch cfg tc s = (s1, r)" by (cases "crl_dispatch cfg tc s")
  have "\<exists>t1\<ge>t. version_of cfg s1 name j = Some t1 \<and>
      (t1 = t \<longrightarrow> set (entries_of s name j) \<subseteq> set (entries_of s1 name j))"
  proof (cases r)
    case (Inl e)
    then show ?thesis using d Cons.prems(3) by (auto simp: crl_dispatch_def transactional_eq_Inl)
  next
    case (Inr u)
    then have "crl_call_body cfg (fst tc) (snd tc) s = (s1, Inr ())" using d by (simp add: crl_dispatch_def)
    then show ?thesis using crl_step_newer [OF Cons.prems(1) _ _ Cons.prems(3)] Cons.prems(2) by simp
  qed
  then obtain t1 where t1: "t \<le> t1" "version_of cfg s1 name j = Some t1"
    "t1 = t \<longrightarrow> set (entries_of s name j) \<subseteq> set (entries_of s1 name j)" by blast
  have "crl_inv cfg s1" using crls.dispatch_inv [OF Cons.prems(1), of tc] d by simp
  from Cons.IH [OF this _ t1(2)] Cons.prems(2) obtain t' where "t1 \<le> t'"
    "version_of cfg (run_crl cfg tcs s1) name j = Some t'"
    "t' = t1 \<longrightarrow> set (entries_of s1 name j) \<subseteq> set (entries_of (run_crl cfg tcs s1) name j)" by auto
  then show ?case using t1 d by auto
qed auto


section \<open>A concrete configuration\<close>

text \<open>A parser for lists with one entry: the chain gives the time, the root certificate has to be the known one.\<close>

definition sample_parse :: "string \<Rightarrow> string \<Rightarrow> string option \<Rightarrow> nat \<Rightarrow> (nat \<times> Crl) option" where
  "sample_parse crl chain cert now =
     (if cert = Some ''R'' then Some (length chain, [\<lparr>rc_issuer = ''I'', rc_serial_number = crl\<rparr>]) else None)"

definition sample_crl_config :: crl_config where
  "sample_crl_config =
     \<lparr>crl_manager = (\<lambda>og. og = Root), MaxCaNameLength = 64, parse_crl_pem = sample_parse,
      parse_crl_der = sample_parse, crl_blake2 = (\<lambda>s. s)\<rparr>"

definition sample_crl :: crl_storage where
  "sample_crl = run_crl sample_crl_config
     [(5, RegisterCa Root ''CA'' ''R''), (6, UpdateCrl (Signed ''a'') ''CA'' (Pem ''s1'' ''xx''))] crl_start"

lemmas crl_eval = crl_dispatch_def transactional_def register_ca_def unregister_ca_def update_crl_def parse_input_def
  merge_revoked_certs_for_ca_def bounded_name_def origin_simps ensure_signed_def ensure_apply act_then_def
  act_bind_def Let_def crl_limits

lemmas sample_crl_defs = sample_crl_config_def sample_parse_def

lemma sample_crl_chain: "crl_chain sample_crl_config sample_crl"
  unfolding sample_crl_def by (intro crl_chain_run crl_chain.start)

lemma sample_crl_eq:
  "sample_crl = \<lparr>CertificateAuthorities = (\<lambda>_. None)(''CA'' \<mapsto>
       \<lparr>root_cert = ''R'', revoked_count = 1, crl_versions = [(''I'', 2)]\<rparr>),
     Revoked = (\<lambda>_. None)(''CA'' \<mapsto> [\<lparr>ri_issuer = ''I'', ri_serial = ''s1''\<rparr>]),
     crl_events = [CaRegistered ''CA'', CrlUpdated ''CA'' ''I'' 2 1]\<rparr>"
  by (simp add: sample_crl_def crl_eval sample_crl_defs crl_start_def numeral_2_eq_2)


section \<open>The properties of the pallet\<close>

text \<open>
  In every reachable storage exactly the registered authorities have a list of revoked certificates, and
  names, certificates, lists and versions are within their bounds; the recorded count is the length of
  the list.
\<close>

theorem crl_storage_bounded:
  assumes "crl_chain cfg s"
  shows "case CertificateAuthorities s name of
      None \<Rightarrow> Revoked s name = None
    | Some info \<Rightarrow> \<exists>rs. Revoked s name = Some rs \<and> revoked_count info = length rs \<and> length rs \<le> 10000 \<and>
        length (crl_versions info) \<le> 10 \<and> distinct (map fst (crl_versions info)) \<and>
        (\<forall>r\<in>set rs. length (ri_issuer r) \<le> 256 \<and> length (ri_serial r) \<le> 32) \<and>
        0 < length (root_cert info) \<and> length (root_cert info) \<le> 2048 \<and>
        0 < length name \<and> length name \<le> MaxCaNameLength cfg"
proof (cases "CertificateAuthorities s name")
  case None
  have "crl_slot_ok cfg name None (Revoked s name)" using crl_chain_inv [OF assms] None by (metis crl_inv_def)
  then show ?thesis using None by (cases "Revoked s name") simp_all
next
  case (Some info)
  from crl_inv_ca [OF crl_chain_inv [OF assms] Some] show ?thesis
    using Some by (auto simp: ca_ok_def crl_limits bounded_entry_def list_all_iff btree_distinct)
qed

theorem crl_storage_bounded_witness:
  "\<exists>rs. Revoked sample_crl ''CA'' = Some rs \<and> length rs = 1 \<and> list_all (\<lambda>r. length (ri_serial r) \<le> 32) rs"
  using crl_storage_bounded [OF sample_crl_chain, of "''CA''"] by (simp add: sample_crl_eq)

text \<open>
  C36: an accepted list takes the place of the list of its issuer and touches nothing else. Afterwards the
  entries of the issuer are those that the library read from the input with the root certificate of the
  authority, the entries of the other issuers are the former ones, and the list is newer than the one it
  replaces. All entries of a list have the same issuer (\<open>one_issuer\<close>), as the code says.
\<close>

definition one_issuer :: "crl_config \<Rightarrow> bool" where
  "one_issuer cfg \<longleftrightarrow> (\<forall>now cert input t l. parsed cfg now cert input = Some (t, l) \<longrightarrow>
     (\<forall>e\<in>set l. rc_issuer e = rc_issuer (hd l)))"

theorem update_crl_exact:
  assumes "crl_chain cfg s" and "one_issuer cfg" and "crl_dispatch cfg (now, UpdateCrl og name input) s = (s', Inr ())"
  shows "\<exists>info t l. CertificateAuthorities s name = Some info \<and>
    parsed cfg now (root_cert info) input = Some (t, l) \<and> l \<noteq> [] \<and>
    entries_of s' name (rc_issuer (hd l)) = map stored_entry l \<and>
    (\<forall>j. j \<noteq> rc_issuer (hd l) \<longrightarrow> entries_of s' name j = entries_of s name j) \<and>
    (\<forall>other j. other \<noteq> name \<longrightarrow> entries_of s' other j = entries_of s other j) \<and>
    (\<forall>old. version_of cfg s name (rc_issuer (hd l)) = Some old \<longrightarrow> old < t) \<and>
    version_of cfg s' name (rc_issuer (hd l)) = Some t"
proof -
  have "update_crl cfg now og name input s = (s', Inr ())" using assms(3) by (simp add: crl_dispatch_def)
  from crl_chain_inv [OF assms(1)] this show ?thesis
  proof (rule update_crl_effect)
    fix info t r rs
    assume info: "CertificateAuthorities s name = Some info"
      and p: "parsed cfg now (root_cert info) input = Some (t, r # rs)"
      and newer: "\<And>old. version_of cfg s name (rc_issuer r) = Some old \<Longrightarrow> old < t"
      and v: "\<And>j. version_of cfg s' name j =
        (if crl_blake2 cfg j = crl_blake2 cfg (rc_issuer r) then Some t else version_of cfg s name j)"
      and e: "\<And>j. entries_of s' name j = (if j = rc_issuer r then [] else entries_of s name j) @
        filter (\<lambda>e. ri_issuer e = j) (map stored_entry (r # rs))"
      and other: "\<And>name' j. name' \<noteq> name \<Longrightarrow>
        version_of cfg s' name' j = version_of cfg s name' j \<and> entries_of s' name' j = entries_of s name' j"
    have one: "\<forall>e\<in>set (r # rs). rc_issuer e = rc_issuer r"
      using assms(2) p unfolding one_issuer_def by (metis list.sel(1))
    then have "filter (\<lambda>e. ri_issuer e = j) (map stored_entry (r # rs)) =
        (if j = rc_issuer r then map stored_entry (r # rs) else [])" for j
      by (auto simp: filter_id_conv filter_empty_conv stored_entry_def)
    then show ?thesis
      using info p newer v e other by (intro exI [of _ info] exI [of _ t] exI [of _ "r # rs"]) auto
  qed
qed

theorem update_crl_exact_witness:
  "entries_of (run_crl sample_crl_config [(7, UpdateCrl (Signed ''b'') ''CA'' (Der ''s2'' ''xxx''))] sample_crl) ''CA'' ''I'' =
     [\<lparr>ri_issuer = ''I'', ri_serial = ''s2''\<rparr>]"
proof -
  let ?c = "(7, UpdateCrl (Signed ''b'') ''CA'' (Der ''s2'' ''xxx''))"
  have "one_issuer sample_crl_config"
    by (auto simp: one_issuer_def parsed_def sample_crl_defs split: CrlInput.splits if_splits)
  moreover obtain s' where "crl_dispatch sample_crl_config ?c sample_crl = (s', Inr ())"
    by (simp add: sample_crl_eq crl_eval sample_crl_defs)
  ultimately show ?thesis
    using update_crl_exact [OF sample_crl_chain, of 7 "Signed ''b''" "''CA''" "Der ''s2'' ''xxx''" s']
    by (auto simp: sample_crl_eq parsed_def sample_crl_defs stored_entry_def)
qed

text \<open>
  C40: no revocation is lost by an older list. Whatever calls follow, as long as the authority is not
  unregistered, the version of an issuer never goes back; and while it stays the same, every entry of the
  issuer stays revoked.
\<close>

theorem crl_no_rollback:
  assumes "crl_chain cfg s" and "\<forall>tc\<in>set tcs. \<forall>og. snd tc \<noteq> UnregisterCa og name"
    and "version_of cfg s name j = Some t"
  shows "\<exists>t'\<ge>t. version_of cfg (run_crl cfg tcs s) name j = Some t' \<and>
    (t' = t \<longrightarrow> set (entries_of s name j) \<subseteq> set (entries_of (run_crl cfg tcs s) name j))"
  using crl_run_newer [OF crl_chain_inv [OF assms(1)]] assms(2,3) by blast

theorem crl_no_rollback_witness:
  "let s' = run_crl sample_crl_config [(7, UpdateCrl (Signed ''b'') ''CA'' (Pem ''s0'' ''x''))] sample_crl in
   version_of sample_crl_config s' ''CA'' ''I'' = Some 2 \<and>
   \<lparr>ri_issuer = ''I'', ri_serial = ''s1''\<rparr> \<in> set (entries_of s' ''CA'' ''I'')"
proof -
  let ?cs = "[(7, UpdateCrl (Signed ''b'') ''CA'' (Pem ''s0'' ''x''))]"
  have "version_of sample_crl_config (run_crl sample_crl_config ?cs sample_crl) ''CA'' ''I'' = Some 2"
    by (simp add: sample_crl_eq crl_eval sample_crl_defs version_of_def)
  then show ?thesis
    using crl_no_rollback [OF sample_crl_chain, of ?cs "''CA''" "''I''" 2]
    by (auto simp: Let_def sample_crl_eq version_of_def entries_of_def revoked_in_def sample_crl_config_def)
qed

end
