(* ===== verification/ProofVerifiers.thy ===== *)
theory ProofVerifiers
  imports Verifiers CrlPallet
begin

text \<open>
  The nine verifiers of the chain (\<open>verifiers/*/src\<close>), each as a value of the record \<open>proof_verifier\<close> with the
  weights it declares. The code of the repository around the cryptographic libraries is written out: size
  checks, versions, conversions, error codes, hashes of keys and the weight that is given back. The
  libraries themselves (arkworks, plonky2, risc0, sp1, barretenberg ports, TEE attestation) and the codec
  are parameters, collected in one record per verifier.
\<close>


section \<open>What the verifiers share\<close>

text \<open>The errors of the verifier libraries of the \<open>no_std\<close> family and their translation.\<close>

datatype lib_error = VerificationError | PublicInputError | KeyError | InvalidProofError | OtherError

fun into_verify_error :: "lib_error \<Rightarrow> verify_error" where
  "into_verify_error VerificationError = VerifyError"
| "into_verify_error PublicInputError = InvalidInput"
| "into_verify_error KeyError = InvalidVerificationKey"
| "into_verify_error InvalidProofError = InvalidProofData"
| "into_verify_error OtherError = VerifyError"

definition lib_verdict :: "lib_error option \<Rightarrow> 'a \<Rightarrow> 'a verdict" where
  "lib_verdict r x = (case r of None \<Rightarrow> Accepted x | Some e \<Rightarrow> Rejected (into_verify_error e))"

lemma lib_verdict_eq: "lib_verdict r x = Accepted y \<longleftrightarrow> r = None \<and> y = x" "lib_verdict r x \<noteq> Aborted msg"
  by (auto simp: lib_verdict_def split: option.splits)

text \<open>The weights of a verifier whose benchmarks do not depend on the arguments.\<close>

record flat_weights =
  fw_verify_proof :: dispatch_weight
  fw_register_vk :: dispatch_weight
  fw_unregister_vk :: dispatch_weight
  fw_get_vk :: dispatch_weight
  fw_validate_vk :: dispatch_weight
  fw_compute_statement_hash :: dispatch_weight

definition flat_info :: "('proof \<Rightarrow> 'pubs \<Rightarrow> dispatch_weight) \<Rightarrow> flat_weights \<Rightarrow> ('vk, 'proof, 'pubs) weight_info" where
  "flat_info verify W =
     \<lparr>wi_verify_proof = verify,
      wi_register_vk = (\<lambda>vk. fw_register_vk W),
      wi_unregister_vk = fw_unregister_vk W,
      wi_get_vk = fw_get_vk W,
      wi_validate_vk = (\<lambda>vk. fw_validate_vk W),
      wi_compute_statement_hash = (\<lambda>pf pubs. fw_compute_statement_hash W)\<rparr>"


section \<open>TEE attestations\<close>

definition TEE_MAX_VK_LENGTH :: nat where
  "TEE_MAX_VK_LENGTH = 65536"

definition TEE_MAX_PROOF_LENGTH :: nat where
  "TEE_MAX_PROOF_LENGTH = 65536"

definition TEE_MAX_PUBS_LENGTH :: nat where
  "TEE_MAX_PUBS_LENGTH = 0"

datatype tee_vk = Intel string string | Nitro

text \<open>The attestation library: parsers, and checks against a revocation list at a time.\<close>

record ('q, 'tcb, 'att) tee_library =
  intel_parse_quote :: "string \<Rightarrow> 'q option"
  intel_parse_tcb_response :: "string \<Rightarrow> 'tcb option"
  tcb_from_json :: "string \<Rightarrow> 'tcb option"
  tcb_info_verify :: "'tcb \<Rightarrow> nat \<Rightarrow> bool"
  tcb_response_verify :: "'tcb \<Rightarrow> string \<Rightarrow> Crl \<Rightarrow> nat \<Rightarrow> bool"
  quote_verify :: "'q \<Rightarrow> 'tcb \<Rightarrow> Crl \<Rightarrow> nat \<Rightarrow> bool"
  nitro_parse_attestation :: "string \<Rightarrow> 'att option"
  attestation_verify :: "'att \<Rightarrow> Crl option \<Rightarrow> nat \<Rightarrow> bool"

record ('x, 'q, 'tcb, 'att) tee_config =
  tee_lib :: "('q, 'tcb, 'att) tee_library"
  tee_now :: "'x \<Rightarrow> nat"
  tee_get_crl :: "'x \<Rightarrow> string \<Rightarrow> Crl option"
  ca_name_for :: "tee_vk \<Rightarrow> string"
  tee_encode :: "tee_vk \<Rightarrow> string"
  tee_keccak :: "string \<Rightarrow> h256"
  intel_verify_weight :: dispatch_weight
  nitro_verify_weight :: dispatch_weight

definition tee_vk_sized :: "string \<Rightarrow> string \<Rightarrow> bool" where
  "tee_vk_sized tcb_response certificates \<longleftrightarrow>
     length tcb_response \<le> TEE_MAX_VK_LENGTH \<and> length certificates \<le> TEE_MAX_VK_LENGTH \<and>
     tcb_response \<noteq> [] \<and> certificates \<noteq> []"

definition tee_verify_proof ::
  "('x, 'q, 'tcb, 'att) tee_config \<Rightarrow> 'x \<Rightarrow> tee_vk \<Rightarrow> string \<Rightarrow> string \<Rightarrow> dispatch_weight option verdict"
where
  "tee_verify_proof cfg x vk pf pubs =
     vd_ensure (length pf \<le> TEE_MAX_PROOF_LENGTH) InvalidProofData
     (vd_ensure (length pubs \<le> TEE_MAX_PUBS_LENGTH) InvalidInput
     (let now = tee_now cfg x; L = tee_lib cfg in
      vd_bind (vd_option VerifyError (tee_get_crl cfg x (ca_name_for cfg vk))) (\<lambda>crl.
      case vk of
        Intel tcb_response certificates \<Rightarrow>
          vd_ensure (tee_vk_sized tcb_response certificates) InvalidVerificationKey
          (vd_bind (vd_option InvalidProofData (intel_parse_quote L pf)) (\<lambda>quote.
          vd_bind (vd_option InvalidInput (intel_parse_tcb_response L tcb_response)) (\<lambda>tcb.
          vd_ensure (tcb_info_verify L tcb now) VerifyError
          (vd_ensure (quote_verify L quote tcb crl now) VerifyError
          (Accepted (Some (intel_verify_weight cfg)))))))
      | Nitro \<Rightarrow>
          vd_bind (vd_option InvalidProofData (nitro_parse_attestation L pf)) (\<lambda>attestation.
          vd_ensure (attestation_verify L attestation (Some crl) now) VerifyError
          (Accepted (Some (nitro_verify_weight cfg)))))))"

definition tee_validate_vk :: "('x, 'q, 'tcb, 'att) tee_config \<Rightarrow> 'x \<Rightarrow> tee_vk \<Rightarrow> unit verdict" where
  "tee_validate_vk cfg x vk =
     (case vk of
        Intel tcb_response certificates \<Rightarrow>
          vd_ensure (tee_vk_sized tcb_response certificates) InvalidVerificationKey
          (vd_bind (vd_option InvalidVerificationKey (tcb_from_json (tee_lib cfg) tcb_response)) (\<lambda>tcb.
          vd_bind (vd_option VerifyError (tee_get_crl cfg x (ca_name_for cfg vk))) (\<lambda>crl.
          vd_ensure (tcb_response_verify (tee_lib cfg) tcb certificates crl (tee_now cfg x)) VerifyError
          (Accepted ()))))
      | Nitro \<Rightarrow> Rejected InvalidVerificationKey)"

definition tee_verifier :: "('x, 'q, 'tcb, 'att) tee_config \<Rightarrow> ('x, tee_vk, string, string) proof_verifier" where
  "tee_verifier cfg =
     \<lparr>hash_context_data = ''tee'',
      verify_proof = tee_verify_proof cfg,
      validate_vk = tee_validate_vk cfg,
      vk_hash = default_vk_hash (tee_keccak cfg) (tee_encode cfg),
      pubs_bytes = (\<lambda>pubs. pubs),
      verifier_version_hash = default_version_hash\<rparr>"

definition weight_max :: "dispatch_weight \<Rightarrow> dispatch_weight \<Rightarrow> dispatch_weight" where
  "weight_max a b = \<lparr>ref_time = max (ref_time a) (ref_time b), proof_size = max (proof_size a) (proof_size b)\<rparr>"

definition tee_weights :: "('x, 'q, 'tcb, 'att) tee_config \<Rightarrow> flat_weights \<Rightarrow> (tee_vk, string, string) weight_info" where
  "tee_weights cfg W = flat_info (\<lambda>pf pubs. weight_max (intel_verify_weight cfg) (nitro_verify_weight cfg)) W"


section \<open>Risc0\<close>

datatype risc0_proof =
    R0_V1_0 string
  | R0_V1_1 string
  | R0_V1_2 string
  | R0_V2_0 string
  | R0_V2_1 string
  | R0_V2_2 string
  | R0_V2_3 string
  | R0_V3_0 string

datatype r0_version = V2_1 | V2_2 | V2_3 | V3_0

fun r0_bytes :: "risc0_proof \<Rightarrow> string" where
  "r0_bytes (R0_V1_0 b) = b"
| "r0_bytes (R0_V1_1 b) = b"
| "r0_bytes (R0_V1_2 b) = b"
| "r0_bytes (R0_V2_0 b) = b"
| "r0_bytes (R0_V2_1 b) = b"
| "r0_bytes (R0_V2_2 b) = b"
| "r0_bytes (R0_V2_3 b) = b"
| "r0_bytes (R0_V3_0 b) = b"

text \<open>The versions that are not marked as unsupported.\<close>

fun r0_supported :: "risc0_proof \<Rightarrow> r0_version option" where
  "r0_supported (R0_V2_1 b) = Some V2_1"
| "r0_supported (R0_V2_2 b) = Some V2_2"
| "r0_supported (R0_V2_3 b) = Some V2_3"
| "r0_supported (R0_V3_0 b) = Some V3_0"
| "r0_supported _ = None"

record ('r, 'c) risc0_library =
  r0_deserialize :: "string \<Rightarrow> 'r option"
  r0_composite :: "'r \<Rightarrow> 'c option"
  extract_composite_segments_info :: "r0_version \<Rightarrow> 'c \<Rightarrow> (string \<times> nat) list option"
  r0_verify :: "r0_version \<Rightarrow> h256 \<Rightarrow> 'r \<Rightarrow> string \<Rightarrow> bool"

record risc0_weights =
  w_succinct :: dispatch_weight
  w_poseidon2_16 :: dispatch_weight
  w_poseidon2_17 :: dispatch_weight
  w_poseidon2_18 :: dispatch_weight
  w_poseidon2_19 :: dispatch_weight
  w_poseidon2_20 :: dispatch_weight
  w_poseidon2_21 :: dispatch_weight

record ('r, 'c) risc0_config =
  r0_lib :: "('r, 'c) risc0_library"
  r0_MaxNSegment :: nat
  r0_Segment20MaxSize :: nat
  r0_MaxPubsSize :: nat
  r0_weights :: risc0_weights

text \<open>The two products are plain multiplications of 32 and 64 bits.\<close>

definition r0_max_proof_size :: "('r, 'c) risc0_config \<Rightarrow> nat" where
  "r0_max_proof_size cfg = (r0_MaxNSegment cfg * r0_Segment20MaxSize cfg) mod 2 ^ 32"

definition r0_max_verify_proof_weight :: "('r, 'c) risc0_config \<Rightarrow> dispatch_weight" where
  "r0_max_verify_proof_weight cfg =
     (let w = w_poseidon2_20 (r0_weights cfg) in
      \<lparr>ref_time = (ref_time w * r0_MaxNSegment cfg) mod 2 ^ 64, proof_size = (proof_size w * r0_MaxNSegment cfg) mod 2 ^ 64\<rparr>)"

text \<open>The conversion that the derive macro generates: the bytes are decoded before the version is looked at.\<close>

definition r0_try_from :: "('r, 'c) risc0_config \<Rightarrow> risc0_proof \<Rightarrow> (r0_version \<times> 'r) verdict" where
  "r0_try_from cfg pf =
     vd_bind (vd_option InvalidProofData (r0_deserialize (r0_lib cfg) (r0_bytes pf))) (\<lambda>r.
     case r0_supported pf of
       None \<Rightarrow> Rejected UnsupportedVersion
     | Some v \<Rightarrow> Accepted (v, r))"

definition segment_weight :: "risc0_weights \<Rightarrow> string \<times> nat \<Rightarrow> dispatch_weight option" where
  "segment_weight W info =
     (case info of (hash, po2) \<Rightarrow>
        if hash \<noteq> ''poseidon2'' then None
        else if po2 \<le> 16 then Some (w_poseidon2_16 W)
        else if po2 = 17 then Some (w_poseidon2_17 W)
        else if po2 = 18 then Some (w_poseidon2_18 W)
        else if po2 = 19 then Some (w_poseidon2_19 W)
        else if po2 = 20 then Some (w_poseidon2_20 W)
        else if po2 = 21 then Some (w_poseidon2_21 W)
        else None)"

fun segment_weights :: "risc0_weights \<Rightarrow> (string \<times> nat) list \<Rightarrow> dispatch_weight list option" where
  "segment_weights W [] = Some []"
| "segment_weights W (s # ss) =
     (case segment_weight W s of
        None \<Rightarrow> None
      | Some w \<Rightarrow> map_option (Cons w) (segment_weights W ss))"

definition add_ref_time :: "dispatch_weight \<Rightarrow> nat \<Rightarrow> dispatch_weight" where
  "add_ref_time w n = w\<lparr>ref_time := (ref_time w + n) mod 2 ^ 64\<rparr>"

text \<open>\<open>proof_structure\<close> followed by \<open>verify_weight\<close>.\<close>

definition r0_verify_weight :: "('r, 'c) risc0_config \<Rightarrow> r0_version \<Rightarrow> 'r \<Rightarrow> dispatch_weight option" where
  "r0_verify_weight cfg v r =
     (case r0_composite (r0_lib cfg) r of
        None \<Rightarrow> Some (w_succinct (r0_weights cfg))
      | Some c \<Rightarrow>
          (case extract_composite_segments_info (r0_lib cfg) v c of
             None \<Rightarrow> None
           | Some powers \<Rightarrow>
               map_option (\<lambda>ws. fold (\<lambda>w acc. add_ref_time acc (ref_time w)) ws no_weight)
                 (segment_weights (r0_weights cfg) powers)))"

definition r0_verify_proof ::
  "('r, 'c) risc0_config \<Rightarrow> h256 \<Rightarrow> risc0_proof \<Rightarrow> string \<Rightarrow> dispatch_weight option verdict"
where
  "r0_verify_proof cfg vk pf pubs =
     vd_ensure (length (r0_bytes pf) \<le> r0_max_proof_size cfg) InvalidProofData
     (vd_ensure (length pubs \<le> r0_MaxPubsSize cfg) InvalidInput
     (vd_bind (r0_try_from cfg pf) (\<lambda>(v, r).
     vd_bind (vd_option InvalidProofData (r0_verify_weight cfg v r)) (\<lambda>w.
     vd_ensure (ref_time w \<le> ref_time (r0_max_verify_proof_weight cfg)) InvalidProofData
     (vd_ensure (r0_verify (r0_lib cfg) v vk r pubs) VerifyError
     (Accepted (Some w)))))))"

fun r0_version_hash :: "risc0_proof \<Rightarrow> h256" where
  "r0_version_hash (R0_V1_0 b) = h256_of 0xdf801e3397d2a8fbb77c2fa30c7f7806ee8a60de44cb536108e7ef272618e2da"
| "r0_version_hash (R0_V1_1 b) = h256_of 0x2a06d398245e645477a795d1b707344669459840d154e17fde4df2b40eea5558"
| "r0_version_hash (R0_V1_2 b) = h256_of 0x5f39e7751602fc8dbc1055078b61e2704565e3271312744119505ab26605a942"
| "r0_version_hash (R0_V2_0 b) = h256_of 0x4b591002da5e767a89a636535a1758bd5f5e2677c42811f11b0a6429d2429a1b"
| "r0_version_hash (R0_V2_1 b) = h256_of 0x545aa3fbe4f28bf5be6831341c3d5ba87b16f10089f8efbcc140060e06fb508b"
| "r0_version_hash (R0_V2_2 b) = h256_of 0xb3321f8b04ee9a754860a415c691f00756990e2054e5023f1a68c260a7042efe"
| "r0_version_hash (R0_V2_3 b) = h256_of 0x09c82225a1a8d085090e5169383d874fcca7a340517654659c4eb6fd105e79ec"
| "r0_version_hash (R0_V3_0 b) = h256_of 0xaa24368f9ce9025f58596d966209fc3f322c8cac37dae753bb9b0367d273700d"

definition risc0_verifier :: "('r, 'c) risc0_config \<Rightarrow> ('x, h256, risc0_proof, string) proof_verifier" where
  "risc0_verifier cfg =
     \<lparr>hash_context_data = ''risc0'',
      verify_proof = (\<lambda>x. r0_verify_proof cfg),
      validate_vk = default_validate_vk,
      vk_hash = (\<lambda>vk. vk),
      pubs_bytes = (\<lambda>pubs. pubs),
      verifier_version_hash = r0_version_hash\<rparr>"

definition risc0_info :: "('r, 'c) risc0_config \<Rightarrow> flat_weights \<Rightarrow> (h256, risc0_proof, string) weight_info" where
  "risc0_info cfg W = flat_info (\<lambda>pf pubs. r0_max_verify_proof_weight cfg) W"


section \<open>UltraHonk\<close>

datatype uh_proof = ZK string | Plain string

datatype VersionedProof = Pf_V0_84 uh_proof | Pf_V3_0 uh_proof | Pf_Legacy uh_proof

datatype VersionedVk = Vk_V0_84 string | Vk_V3_0 string | Vk_Legacy string

datatype ProtocolVersion = Protocol_V0_84 | Protocol_V3_0 | Protocol_Legacy

fun protocol_of :: "VersionedProof \<Rightarrow> ProtocolVersion" where
  "protocol_of (Pf_V0_84 p) = Protocol_V0_84"
| "protocol_of (Pf_V3_0 p) = Protocol_V3_0"
| "protocol_of (Pf_Legacy p) = Protocol_Legacy"

definition MIN_BENCHMARKED_LOG_CIRCUIT_SIZE :: nat where
  "MIN_BENCHMARKED_LOG_CIRCUIT_SIZE = 7"

definition MAX_BENCHMARKED_LOG_CIRCUIT_SIZE :: nat where
  "MAX_BENCHMARKED_LOG_CIRCUIT_SIZE = 25"

text \<open>\<open>uh84_proof\<close> is the conversion into a proof of the fixed size of version 0.84.\<close>

record 'p uh_library =
  uh84_proof :: "uh_proof \<Rightarrow> 'p option"
  uh84_verify :: "string \<Rightarrow> 'p \<Rightarrow> string list \<Rightarrow> lib_error option"
  uh84_key :: "string \<Rightarrow> bool"
  uh30_verify :: "string \<Rightarrow> uh_proof \<Rightarrow> string list \<Rightarrow> lib_error option"
  uh30_key :: "string \<Rightarrow> bool"
  extract_log_circuit_size :: "string \<Rightarrow> nat option"

record uh_weights =
  verify_zk_proof_v3_0 :: "nat \<Rightarrow> dispatch_weight"
  verify_plain_proof_v3_0 :: "nat \<Rightarrow> dispatch_weight"
  verify_zk_proof_v0_84 :: dispatch_weight
  verify_plain_proof_v0_84 :: dispatch_weight

record 'p uh_config =
  uh_lib :: "'p uh_library"
  uh_MaxPubs :: nat
  uh_encode :: "VersionedVk \<Rightarrow> string"
  uh_keccak :: "string \<Rightarrow> h256"
  uh_sha2 :: "string \<Rightarrow> h256"
  uh_weights_of :: uh_weights

definition valid_log_circuit_size :: "'p uh_config \<Rightarrow> string \<Rightarrow> nat verdict" where
  "valid_log_circuit_size cfg vk_bytes =
     vd_bind (vd_option InvalidVerificationKey (extract_log_circuit_size (uh_lib cfg) vk_bytes)) (\<lambda>n.
     vd_ensure (n \<le> MAX_BENCHMARKED_LOG_CIRCUIT_SIZE) InvalidVerificationKey (Accepted n))"

definition uh_compute_weight :: "uh_weights \<Rightarrow> ProtocolVersion \<Rightarrow> uh_proof \<Rightarrow> nat \<Rightarrow> dispatch_weight verdict" where
  "uh_compute_weight W version pf log_circuit_size =
     (let n = max log_circuit_size MIN_BENCHMARKED_LOG_CIRCUIT_SIZE in
      case version of
        Protocol_V3_0 \<Rightarrow>
          (case pf of
             ZK b \<Rightarrow> Accepted (verify_zk_proof_v3_0 W n)
           | Plain b \<Rightarrow> Accepted (verify_plain_proof_v3_0 W n))
      | _ \<Rightarrow> Aborted ''Invalid value given for log_circuit_size.'')"

definition uh84_check :: "'p uh_config \<Rightarrow> uh_proof \<Rightarrow> string \<Rightarrow> string list \<Rightarrow> dispatch_weight option verdict" where
  "uh84_check cfg pf vk_bytes pubs =
     vd_bind (vd_option InvalidProofData (uh84_proof (uh_lib cfg) pf)) (\<lambda>prepared.
     lib_verdict (uh84_verify (uh_lib cfg) vk_bytes prepared pubs) None)"

fun uh_check_version ::
  "'p uh_config \<Rightarrow> VersionedVk \<Rightarrow> VersionedProof \<Rightarrow> string list \<Rightarrow> dispatch_weight option verdict"
where
  "uh_check_version cfg (Vk_V0_84 vk_bytes) (Pf_V0_84 inner) pubs = uh84_check cfg inner vk_bytes pubs"
| "uh_check_version cfg (Vk_Legacy vk_bytes) (Pf_Legacy inner) pubs = uh84_check cfg inner vk_bytes pubs"
| "uh_check_version cfg (Vk_V3_0 vk_bytes) (Pf_V3_0 inner) pubs =
     vd_bind (valid_log_circuit_size cfg vk_bytes) (\<lambda>n.
     vd_bind (lib_verdict (uh30_verify (uh_lib cfg) vk_bytes inner pubs) ()) (\<lambda>_.
     vd_bind (uh_compute_weight (uh_weights_of cfg) (protocol_of (Pf_V3_0 inner)) inner n) (\<lambda>w.
     Accepted (Some w))))"
| "uh_check_version cfg _ _ pubs = Rejected VerifyError"

definition uh_verify_proof ::
  "'p uh_config \<Rightarrow> VersionedVk \<Rightarrow> VersionedProof \<Rightarrow> string list \<Rightarrow> dispatch_weight option verdict"
where
  "uh_verify_proof cfg vk pf pubs =
     vd_ensure (length pubs \<le> uh_MaxPubs cfg) InvalidInput (uh_check_version cfg vk pf pubs)"

fun uh_validate_vk :: "'p uh_config \<Rightarrow> VersionedVk \<Rightarrow> unit verdict" where
  "uh_validate_vk cfg (Vk_V0_84 b) = vd_ensure (uh84_key (uh_lib cfg) b) InvalidVerificationKey (Accepted ())"
| "uh_validate_vk cfg (Vk_Legacy b) = vd_ensure (uh84_key (uh_lib cfg) b) InvalidVerificationKey (Accepted ())"
| "uh_validate_vk cfg (Vk_V3_0 b) = vd_ensure (uh30_key (uh_lib cfg) b) InvalidVerificationKey (Accepted ())"

fun uh_vk_bytes :: "'p uh_config \<Rightarrow> VersionedVk \<Rightarrow> string" where
  "uh_vk_bytes cfg (Vk_Legacy b) = b"
| "uh_vk_bytes cfg vk = uh_encode cfg vk"

fun uh_vk_hash :: "'p uh_config \<Rightarrow> VersionedVk \<Rightarrow> h256" where
  "uh_vk_hash cfg (Vk_Legacy b) = uh_sha2 cfg (uh_vk_bytes cfg (Vk_Legacy b))"
| "uh_vk_hash cfg vk = uh_keccak cfg (uh_vk_bytes cfg vk)"

fun uh_version_hash :: "VersionedProof \<Rightarrow> h256" where
  "uh_version_hash (Pf_V0_84 p) = h256_of 0x4966cd7801ae9ef9d7afb52ec3de92f0693e720f58c5c8ecfb23d85b0934f018"
| "uh_version_hash (Pf_V3_0 p) = h256_of 0x55b52ad2b4153c872e27d688f567c1406f0d93b5528dd2b0bf2a9a40df97f1f9"
| "uh_version_hash (Pf_Legacy p) = NO_VERSION_HASH"

definition ultrahonk_verifier :: "'p uh_config \<Rightarrow> ('x, VersionedVk, VersionedProof, string list) proof_verifier" where
  "ultrahonk_verifier cfg =
     \<lparr>hash_context_data = ''ultrahonk'',
      verify_proof = (\<lambda>x. uh_verify_proof cfg),
      validate_vk = (\<lambda>x. uh_validate_vk cfg),
      vk_hash = uh_vk_hash cfg,
      pubs_bytes = concat,
      verifier_version_hash = uh_version_hash\<rparr>"

fun uh_charge :: "uh_weights \<Rightarrow> VersionedProof \<Rightarrow> dispatch_weight" where
  "uh_charge W (Pf_V0_84 (ZK b)) = verify_zk_proof_v0_84 W"
| "uh_charge W (Pf_V0_84 (Plain b)) = verify_plain_proof_v0_84 W"
| "uh_charge W (Pf_Legacy (ZK b)) = verify_zk_proof_v0_84 W"
| "uh_charge W (Pf_Legacy (Plain b)) = verify_plain_proof_v0_84 W"
| "uh_charge W (Pf_V3_0 (ZK b)) = verify_zk_proof_v3_0 W MAX_BENCHMARKED_LOG_CIRCUIT_SIZE"
| "uh_charge W (Pf_V3_0 (Plain b)) = verify_plain_proof_v3_0 W MAX_BENCHMARKED_LOG_CIRCUIT_SIZE"

definition ultrahonk_info ::
  "'p uh_config \<Rightarrow> flat_weights \<Rightarrow> (VersionedVk, VersionedProof, string list) weight_info"
where
  "ultrahonk_info cfg W = flat_info (\<lambda>pf pubs. uh_charge (uh_weights_of cfg) pf) W"


section \<open>Plonky2\<close>

definition MAX_DEGREE_BITS :: nat where
  "MAX_DEGREE_BITS = 19"

datatype Plonky2Config = Keccak | Poseidon

record VkWithConfig =
  p2_config :: Plonky2Config
  p2_bytes :: string

record 'v p2_library =
  deserialize_vk :: "Plonky2Config \<Rightarrow> string \<Rightarrow> 'v option"
  degree_bits :: "'v \<Rightarrow> nat"
  standard_recursion_config :: "'v \<Rightarrow> bool"
  p2_verify :: "Plonky2Config \<Rightarrow> string \<Rightarrow> string \<Rightarrow> string \<Rightarrow> bool"

text \<open>The benchmarks for the degrees from 2 to 19.\<close>

record p2_weights =
  poseidon_uncompressed :: "nat \<Rightarrow> dispatch_weight"
  keccak_uncompressed :: "nat \<Rightarrow> dispatch_weight"

record 'v p2_settings =
  p2_lib :: "'v p2_library"
  p2_MaxProofSize :: nat
  p2_MaxPubsSize :: nat
  p2_MaxVkSize :: nat
  p2_encode :: "VkWithConfig \<Rightarrow> string"
  p2_keccak :: "string \<Rightarrow> h256"
  p2_weights_of :: p2_weights

definition p2_compute_weight :: "p2_weights \<Rightarrow> nat \<Rightarrow> Plonky2Config \<Rightarrow> dispatch_weight verdict" where
  "p2_compute_weight W d config =
     (if 1 \<le> d \<and> d \<le> 19
      then Accepted (case config of
          Poseidon \<Rightarrow> poseidon_uncompressed W (if d = 1 then 2 else d)
        | Keccak \<Rightarrow> keccak_uncompressed W (if d = 1 then 2 else d))
      else Aborted ''Invalid value given for degree_bits.'')"

definition p2_verify_proof ::
  "'v p2_settings \<Rightarrow> VkWithConfig \<Rightarrow> string \<Rightarrow> string \<Rightarrow> dispatch_weight option verdict"
where
  "p2_verify_proof cfg vk raw_proof raw_pubs =
     vd_ensure (length (p2_bytes vk) \<le> p2_MaxVkSize cfg) InvalidVerificationKey
     (vd_ensure (length raw_proof \<le> p2_MaxProofSize cfg) InvalidProofData
     (vd_ensure (length raw_pubs \<le> p2_MaxPubsSize cfg) InvalidInput
     (vd_bind (vd_option InvalidVerificationKey (deserialize_vk (p2_lib cfg) (p2_config vk) (p2_bytes vk))) (\<lambda>v.
     vd_bind (p2_compute_weight (p2_weights_of cfg) (degree_bits (p2_lib cfg) v) (p2_config vk)) (\<lambda>w.
     vd_ensure (p2_verify (p2_lib cfg) (p2_config vk) (p2_bytes vk) raw_proof raw_pubs) VerifyError
     (Accepted (Some w)))))))"

definition p2_validate_vk :: "'v p2_settings \<Rightarrow> VkWithConfig \<Rightarrow> unit verdict" where
  "p2_validate_vk cfg vk =
     vd_ensure (length (p2_bytes vk) \<le> p2_MaxVkSize cfg) InvalidVerificationKey
     (vd_bind (vd_option InvalidVerificationKey (deserialize_vk (p2_lib cfg) (p2_config vk) (p2_bytes vk))) (\<lambda>v.
     vd_ensure (degree_bits (p2_lib cfg) v \<le> MAX_DEGREE_BITS \<and> standard_recursion_config (p2_lib cfg) v)
       InvalidVerificationKey (Accepted ())))"

definition plonky2_verifier :: "'v p2_settings \<Rightarrow> ('x, VkWithConfig, string, string) proof_verifier" where
  "plonky2_verifier cfg =
     \<lparr>hash_context_data = ''plonky2'',
      verify_proof = (\<lambda>x. p2_verify_proof cfg),
      validate_vk = (\<lambda>x. p2_validate_vk cfg),
      vk_hash = default_vk_hash (p2_keccak cfg) (p2_encode cfg),
      pubs_bytes = (\<lambda>pubs. pubs),
      verifier_version_hash = default_version_hash\<rparr>"

definition plonky2_info :: "'v p2_settings \<Rightarrow> flat_weights \<Rightarrow> (VkWithConfig, string, string) weight_info" where
  "plonky2_info cfg W = flat_info (\<lambda>pf pubs. poseidon_uncompressed (p2_weights_of cfg) 19) W"

end
