(* ===== verification/CurveVerifiers.thy ===== *)
theory CurveVerifiers
  imports ProofVerifiers
begin

text \<open>
  The second half of the verifiers: Groth16 with the conversions of \<open>primitives/hp-groth16\<close>, fflonk with those
  of \<open>verifiers/fflonk/src/vk.rs\<close>, sp1, ezkl and ultraplonk.
\<close>


section \<open>Groth16\<close>

definition MAX_NUM_INPUTS :: nat where
  "MAX_NUM_INPUTS = 64"

datatype Curve = Bn254 | Bls12_381

record g16_key =
  alpha_g1 :: string
  beta_g2 :: string
  gamma_g2 :: string
  delta_g2 :: string
  gamma_abc_g1 :: "string list"

record VerificationKeyWithCurve = g16_key +
  vk_curve :: Curve

record g16_proof =
  pf_a :: string
  pf_b :: string
  pf_c :: string

record ProofWithCurve =
  pf_curve :: Curve
  pf_points :: g16_proof

definition vk_of :: "VerificationKeyWithCurve \<Rightarrow> g16_key" where
  "vk_of vk = \<lparr>alpha_g1 = alpha_g1 vk, beta_g2 = beta_g2 vk, gamma_g2 = gamma_g2 vk, delta_g2 = delta_g2 vk,
     gamma_abc_g1 = gamma_abc_g1 vk\<rparr>"

text \<open>
  The keys and proofs of the library, over its points, and its operations on a curve: points are read with or
  without a check that they are on the curve.
\<close>

record ('g1, 'g2) ark_key =
  ark_alpha_g1 :: 'g1
  ark_beta_g2 :: 'g2
  ark_gamma_g2 :: 'g2
  ark_delta_g2 :: 'g2
  ark_gamma_abc_g1 :: "'g1 list"

record ('g1, 'g2) ark_proof =
  ark_a :: 'g1
  ark_b :: 'g2
  ark_c :: 'g1

record ('g1, 'g2, 'f) ark_library =
  ark_g1 :: "Curve \<Rightarrow> string \<Rightarrow> 'g1 option"
  ark_g2 :: "Curve \<Rightarrow> string \<Rightarrow> 'g2 option"
  ark_g1_unchecked :: "Curve \<Rightarrow> string \<Rightarrow> 'g1 option"
  ark_g2_unchecked :: "Curve \<Rightarrow> string \<Rightarrow> 'g2 option"
  ark_scalar :: "Curve \<Rightarrow> string \<Rightarrow> 'f option"
  ark_verify :: "Curve \<Rightarrow> ('g1, 'g2) ark_key \<Rightarrow> ('g1, 'g2) ark_proof \<Rightarrow> 'f list \<Rightarrow> bool option"

record ('g1, 'g2, 'f) g16_config =
  g16_lib :: "('g1, 'g2, 'f) ark_library"
  g16_max_num_inputs :: nat
  g16_encode :: "VerificationKeyWithCurve \<Rightarrow> string"
  g16_keccak :: "string \<Rightarrow> h256"

text \<open>\<open>collect\<close> of fallible results.\<close>

fun collect_all :: "'a option list \<Rightarrow> 'a list option" where
  "collect_all [] = Some []"
| "collect_all (None # rs) = None"
| "collect_all (Some x # rs) = map_option (Cons x) (collect_all rs)"

definition proof_into_ark :: "('g1, 'g2, 'f) ark_library \<Rightarrow> Curve \<Rightarrow> g16_proof \<Rightarrow> ('g1, 'g2) ark_proof option" where
  "proof_into_ark L c p =
     (case (ark_g1 L c (pf_a p), ark_g2 L c (pf_b p), ark_g1 L c (pf_c p)) of
        (Some a, Some b, Some d) \<Rightarrow> Some \<lparr>ark_a = a, ark_b = b, ark_c = d\<rparr>
      | _ \<Rightarrow> None)"

definition key_with ::
  "(string \<Rightarrow> 'g1 option) \<Rightarrow> (string \<Rightarrow> 'g2 option) \<Rightarrow> g16_key \<Rightarrow> ('g1, 'g2) ark_key option"
where
  "key_with g1 g2 vk =
     (case (g1 (alpha_g1 vk), g2 (beta_g2 vk), g2 (gamma_g2 vk), g2 (delta_g2 vk),
         collect_all (map g1 (gamma_abc_g1 vk))) of
        (Some a, Some b, Some c, Some d, Some ps) \<Rightarrow>
          Some \<lparr>ark_alpha_g1 = a, ark_beta_g2 = b, ark_gamma_g2 = c, ark_delta_g2 = d, ark_gamma_abc_g1 = ps\<rparr>
      | _ \<Rightarrow> None)"

definition key_into_ark :: "('g1, 'g2, 'f) ark_library \<Rightarrow> Curve \<Rightarrow> g16_key \<Rightarrow> ('g1, 'g2) ark_key option" where
  "key_into_ark L c = key_with (ark_g1 L c) (ark_g2 L c)"

definition try_into_ark_unchecked :: "('g1, 'g2, 'f) ark_library \<Rightarrow> Curve \<Rightarrow> g16_key \<Rightarrow> ('g1, 'g2) ark_key option" where
  "try_into_ark_unchecked L c = key_with (ark_g1_unchecked L c) (ark_g2_unchecked L c)"

text \<open>\<open>verify_proof\<close> and \<open>validate_key\<close> of \<open>hp-groth16\<close>, which the host functions pass on with their errors.\<close>

definition hp_verify_proof ::
  "('g1, 'g2, 'f) ark_library \<Rightarrow> Curve \<Rightarrow> g16_key \<Rightarrow> g16_proof \<Rightarrow> string list \<Rightarrow> bool verdict"
where
  "hp_verify_proof L c vk pf inputs =
     vd_bind (vd_option InvalidProofData (proof_into_ark L c pf)) (\<lambda>pf.
     vd_bind (vd_option InvalidVerificationKey (try_into_ark_unchecked L c vk)) (\<lambda>vk.
     vd_bind (vd_option InvalidInput (collect_all (map (ark_scalar L c) inputs))) (\<lambda>inputs.
     vd_option VerifyError (ark_verify L c vk pf inputs))))"

definition hp_validate_key :: "('g1, 'g2, 'f) ark_library \<Rightarrow> Curve \<Rightarrow> g16_key \<Rightarrow> unit verdict" where
  "hp_validate_key L c vk = vd_bind (vd_option InvalidVerificationKey (key_into_ark L c vk)) (\<lambda>_. Accepted ())"

definition g16_verify_proof ::
  "('g1, 'g2, 'f) g16_config \<Rightarrow> VerificationKeyWithCurve \<Rightarrow> ProofWithCurve \<Rightarrow> string list \<Rightarrow> dispatch_weight option verdict"
where
  "g16_verify_proof cfg vk pf pubs =
     vd_ensure (length pubs \<le> g16_max_num_inputs cfg) InvalidInput
     (vd_ensure (length pubs + 1 = length (gamma_abc_g1 vk)) InvalidInput
     (vd_ensure (pf_curve pf = vk_curve vk) InvalidProofData
     (vd_bind (hp_verify_proof (g16_lib cfg) (vk_curve vk) (vk_of vk) (pf_points pf) pubs) (\<lambda>ok.
     vd_ensure ok VerifyError (Accepted None)))))"

definition groth16_verifier ::
  "('g1, 'g2, 'f) g16_config \<Rightarrow> ('x, VerificationKeyWithCurve, ProofWithCurve, string list) proof_verifier"
where
  "groth16_verifier cfg =
     \<lparr>hash_context_data = ''groth16'',
      verify_proof = (\<lambda>x. g16_verify_proof cfg),
      validate_vk = (\<lambda>x vk. hp_validate_key (g16_lib cfg) (vk_curve vk) (vk_of vk)),
      vk_hash = default_vk_hash (g16_keccak cfg) (g16_encode cfg),
      pubs_bytes = concat,
      verifier_version_hash = default_version_hash\<rparr>"

record g16_weights =
  w_verify_proof :: "Curve \<Rightarrow> nat \<Rightarrow> dispatch_weight"
  w_register_vk :: "Curve \<Rightarrow> nat \<Rightarrow> dispatch_weight"
  w_validate_vk :: "Curve \<Rightarrow> nat \<Rightarrow> dispatch_weight"
  w_unregister_vk :: dispatch_weight
  w_get_vk :: dispatch_weight
  w_compute_statement_hash :: "nat \<Rightarrow> dispatch_weight"

definition groth16_info ::
  "g16_weights \<Rightarrow> (VerificationKeyWithCurve, ProofWithCurve, string list) weight_info"
where
  "groth16_info W =
     \<lparr>wi_verify_proof = (\<lambda>pf pubs. w_verify_proof W (pf_curve pf) (length pubs)),
      wi_register_vk = (\<lambda>vk. w_register_vk W (vk_curve vk) (length (gamma_abc_g1 vk) - 1)),
      wi_unregister_vk = w_unregister_vk W,
      wi_get_vk = w_get_vk W,
      wi_validate_vk = (\<lambda>vk. w_validate_vk W (vk_curve vk) (length (gamma_abc_g1 vk) - 1)),
      wi_compute_statement_hash = (\<lambda>pf pubs. w_compute_statement_hash W (length pubs))\<rparr>"


section \<open>Fflonk\<close>

text \<open>Field elements of the call are 256-bit numbers, points have projective coordinates.\<close>

type_synonym fq2 = "nat \<times> nat"

record fflonk_vk =
  ff_power :: nat
  ff_k1 :: nat
  ff_k2 :: nat
  ff_w :: nat
  ff_w3 :: nat
  ff_w4 :: nat
  ff_w8 :: nat
  ff_wr :: nat
  ff_x2 :: "fq2 \<times> fq2 \<times> fq2"
  ff_c0 :: "nat \<times> nat \<times> nat"

datatype field_error = NotMember | OtherFieldError

record ('fr, 'fq, 'fq2, 'g1, 'g2) bn_library =
  fr_from_slice :: "string \<Rightarrow> 'fr option"
  fq_from_slice :: "string \<Rightarrow> field_error + 'fq"
  fq2_new :: "'fq \<Rightarrow> 'fq \<Rightarrow> 'fq2"
  bn_g1_new :: "'fq \<Rightarrow> 'fq \<Rightarrow> 'fq \<Rightarrow> 'g1"
  g1_normalize :: "'g1 \<Rightarrow> 'g1"
  affine_g1 :: "'g1 \<Rightarrow> bool"
  bn_g2_new :: "'fq2 \<Rightarrow> 'fq2 \<Rightarrow> 'fq2 \<Rightarrow> 'g2"
  g2_normalize :: "'g2 \<Rightarrow> 'g2"
  affine_g2 :: "'g2 \<Rightarrow> bool"

record ('fr, 'g1, 'g2) ff_key =
  fk_power :: nat
  fk_scalars :: "'fr list"
  fk_x2 :: 'g2
  fk_c0 :: 'g1

record ('fr, 'fq, 'fq2, 'g1, 'g2, 'p) ff_config =
  ff_bn :: "('fr, 'fq, 'fq2, 'g1, 'g2) bn_library"
  ff_proof :: "string \<Rightarrow> 'p option"
  ff_verify :: "('fr, 'g1, 'g2) ff_key \<Rightarrow> 'p \<Rightarrow> string \<Rightarrow> bool"
  ff_encode :: "fflonk_vk \<Rightarrow> string"
  ff_keccak :: "string \<Rightarrow> h256"

text \<open>\<open>From<Fr>\<close> expects the conversion to succeed; \<open>TryInto<Fq>\<close> has one error, the other cannot happen.\<close>

definition into_fr :: "('fr, 'fq, 'fq2, 'g1, 'g2) bn_library \<Rightarrow> nat \<Rightarrow> 'fr verdict" where
  "into_fr B n =
     (case fr_from_slice B (h256_of n) of
        Some x \<Rightarrow> Accepted x
      | None \<Rightarrow> Aborted ''BUG: should be hardcoded. qed'')"

definition into_fq :: "('fr, 'fq, 'fq2, 'g1, 'g2) bn_library \<Rightarrow> nat \<Rightarrow> 'fq verdict" where
  "into_fq B n =
     (case fq_from_slice B (h256_of n) of
        Inr x \<Rightarrow> Accepted x
      | Inl NotMember \<Rightarrow> Rejected InvalidVerificationKey
      | Inl OtherFieldError \<Rightarrow> Aborted ''Slice length is fixed. qed'')"

definition into_fq2 :: "('fr, 'fq, 'fq2, 'g1, 'g2) bn_library \<Rightarrow> fq2 \<Rightarrow> 'fq2 verdict" where
  "into_fq2 B p = vd_bind (into_fq B (fst p)) (\<lambda>a. vd_bind (into_fq B (snd p)) (\<lambda>b. Accepted (fq2_new B a b)))"

definition into_g1 :: "('fr, 'fq, 'fq2, 'g1, 'g2) bn_library \<Rightarrow> nat \<times> nat \<times> nat \<Rightarrow> 'g1 verdict" where
  "into_g1 B p =
     (case p of (a, b, c) \<Rightarrow>
        vd_bind (into_fq B a) (\<lambda>a. vd_bind (into_fq B b) (\<lambda>b. vd_bind (into_fq B c) (\<lambda>c.
          Accepted (bn_g1_new B a b c)))))"

definition into_g2 :: "('fr, 'fq, 'fq2, 'g1, 'g2) bn_library \<Rightarrow> fq2 \<times> fq2 \<times> fq2 \<Rightarrow> 'g2 verdict" where
  "into_g2 B p =
     (case p of (a, b, c) \<Rightarrow>
        vd_bind (into_fq2 B a) (\<lambda>a. vd_bind (into_fq2 B b) (\<lambda>b. vd_bind (into_fq2 B c) (\<lambda>c.
          Accepted (bn_g2_new B a b c)))))"

fun into_frs :: "('fr, 'fq, 'fq2, 'g1, 'g2) bn_library \<Rightarrow> nat list \<Rightarrow> 'fr list verdict" where
  "into_frs B [] = Accepted []"
| "into_frs B (n # ns) = vd_bind (into_fr B n) (\<lambda>x. vd_bind (into_frs B ns) (\<lambda>xs. Accepted (x # xs)))"

definition ff_scalars :: "fflonk_vk \<Rightarrow> nat list" where
  "ff_scalars vk = [ff_k1 vk, ff_k2 vk, ff_w vk, ff_w3 vk, ff_w4 vk, ff_w8 vk, ff_wr vk]"

text \<open>\<open>try_into\<close> checks that the points are on the curve and leaves them as they are.\<close>

definition ff_try_into ::
  "('fr, 'fq, 'fq2, 'g1, 'g2) bn_library \<Rightarrow> fflonk_vk \<Rightarrow> ('fr, 'g1, 'g2) ff_key verdict"
where
  "ff_try_into B vk =
     vd_bind (into_frs B (ff_scalars vk)) (\<lambda>frs.
     vd_bind (into_g2 B (ff_x2 vk)) (\<lambda>x2.
     vd_ensure (affine_g2 B (g2_normalize B x2)) InvalidVerificationKey
     (vd_bind (into_g1 B (ff_c0 vk)) (\<lambda>c0.
     vd_ensure (affine_g1 B (g1_normalize B c0)) InvalidVerificationKey
     (Accepted \<lparr>fk_power = ff_power vk, fk_scalars = frs, fk_x2 = x2, fk_c0 = c0\<rparr>)))))"

definition try_into_fflonk_vk_unchecked ::
  "('fr, 'fq, 'fq2, 'g1, 'g2) bn_library \<Rightarrow> fflonk_vk \<Rightarrow> ('fr, 'g1, 'g2) ff_key verdict"
where
  "try_into_fflonk_vk_unchecked B vk =
     vd_bind (into_frs B (ff_scalars vk)) (\<lambda>frs.
     vd_bind (into_g2 B (ff_x2 vk)) (\<lambda>x2.
     vd_bind (into_g1 B (ff_c0 vk)) (\<lambda>c0.
     Accepted \<lparr>fk_power = ff_power vk, fk_scalars = frs, fk_x2 = g2_normalize B x2, fk_c0 = g1_normalize B c0\<rparr>)))"

definition ff_verify_proof ::
  "('fr, 'fq, 'fq2, 'g1, 'g2, 'p) ff_config \<Rightarrow> fflonk_vk \<Rightarrow> string \<Rightarrow> string \<Rightarrow> dispatch_weight option verdict"
where
  "ff_verify_proof cfg vk raw_proof raw_pubs =
     vd_bind (try_into_fflonk_vk_unchecked (ff_bn cfg) vk) (\<lambda>vk.
     vd_bind (vd_option InvalidProofData (ff_proof cfg raw_proof)) (\<lambda>pf.
     vd_ensure (ff_verify cfg vk pf raw_pubs) VerifyError (Accepted None)))"

definition fflonk_verifier ::
  "('fr, 'fq, 'fq2, 'g1, 'g2, 'p) ff_config \<Rightarrow> ('x, fflonk_vk, string, string) proof_verifier"
where
  "fflonk_verifier cfg =
     \<lparr>hash_context_data = ''fflonk'',
      verify_proof = (\<lambda>x. ff_verify_proof cfg),
      validate_vk = (\<lambda>x vk. vd_bind (ff_try_into (ff_bn cfg) vk) (\<lambda>_. Accepted ())),
      vk_hash = default_vk_hash (ff_keccak cfg) (ff_encode cfg),
      pubs_bytes = (\<lambda>pubs. pubs),
      verifier_version_hash = default_version_hash\<rparr>"

definition fflonk_info :: "flat_weights \<Rightarrow> (fflonk_vk, string, string) weight_info" where
  "fflonk_info W = flat_info (\<lambda>pf pubs. fw_verify_proof W) W"


section \<open>Sp1\<close>

definition SP1_MAX_PROOF_SIZE :: nat where
  "SP1_MAX_PROOF_SIZE = 786432"

record 'p sp1_config =
  sp1_MaxPubsSize :: nat
  sp1_decode :: "string \<Rightarrow> 'p option"
  sp1_verify :: "h256 \<Rightarrow> 'p \<Rightarrow> string \<Rightarrow> bool"

definition sp1_verify_proof :: "'p sp1_config \<Rightarrow> h256 \<Rightarrow> string \<Rightarrow> string \<Rightarrow> dispatch_weight option verdict" where
  "sp1_verify_proof cfg vk pf pubs =
     vd_ensure (length pf \<le> SP1_MAX_PROOF_SIZE) InvalidProofData
     (vd_ensure (length pubs \<le> sp1_MaxPubsSize cfg) InvalidInput
     (vd_bind (vd_option InvalidProofData (sp1_decode cfg pf)) (\<lambda>pf.
     vd_ensure (sp1_verify cfg vk pf pubs) VerifyError (Accepted None))))"

definition sp1_verifier :: "'p sp1_config \<Rightarrow> ('x, h256, string, string) proof_verifier" where
  "sp1_verifier cfg =
     \<lparr>hash_context_data = ''sp1'',
      verify_proof = (\<lambda>x. sp1_verify_proof cfg),
      validate_vk = default_validate_vk,
      vk_hash = (\<lambda>vk. vk),
      pubs_bytes = (\<lambda>pubs. pubs),
      verifier_version_hash = default_version_hash\<rparr>"

definition sp1_info :: "flat_weights \<Rightarrow> (h256, string, string) weight_info" where
  "sp1_info W = flat_info (\<lambda>pf pubs. fw_verify_proof W) W"


section \<open>Ezkl\<close>

definition EZKL_MAX_VK_LENGTH :: nat where
  "EZKL_MAX_VK_LENGTH = 9216"

definition EZKL_MAX_PROOF_LENGTH :: nat where
  "EZKL_MAX_PROOF_LENGTH = 6304"

record ezkl_config =
  ezkl_MaxPubs :: nat
  ezkl_verify :: "string \<Rightarrow> string \<Rightarrow> string list \<Rightarrow> lib_error option"
  ezkl_keccak :: "string \<Rightarrow> h256"

definition ezkl_verify_proof ::
  "ezkl_config \<Rightarrow> string \<Rightarrow> string \<Rightarrow> string list \<Rightarrow> dispatch_weight option verdict"
where
  "ezkl_verify_proof cfg vk pf pubs =
     vd_ensure (length pubs \<le> ezkl_MaxPubs cfg) InvalidInput
     (vd_ensure (length pf \<le> EZKL_MAX_PROOF_LENGTH) InvalidProofData
     (lib_verdict (ezkl_verify cfg vk pf pubs) None))"

text \<open>\<open>len & 31\<close> is the remainder of a division by 32.\<close>

definition ezkl_validate_vk :: "string \<Rightarrow> unit verdict" where
  "ezkl_validate_vk vk =
     (if vk = [] \<or> length vk mod 32 \<noteq> 0 \<or> EZKL_MAX_VK_LENGTH < length vk
      then Rejected InvalidVerificationKey else Accepted ())"

definition ezkl_verifier :: "ezkl_config \<Rightarrow> ('x, string, string, string list) proof_verifier" where
  "ezkl_verifier cfg =
     \<lparr>hash_context_data = ''ezkl'',
      verify_proof = (\<lambda>x. ezkl_verify_proof cfg),
      validate_vk = (\<lambda>x. ezkl_validate_vk),
      vk_hash = ezkl_keccak cfg,
      pubs_bytes = concat,
      verifier_version_hash = default_version_hash\<rparr>"

definition ezkl_info :: "flat_weights \<Rightarrow> (string, string, string list) weight_info" where
  "ezkl_info W = flat_info (\<lambda>pf pubs. fw_verify_proof W) W"


section \<open>UltraPlonk\<close>

record up_config =
  up_MaxPubs :: nat
  up_PROOF_SIZE :: nat
  up_VK_SIZE :: nat
  up_verify :: "string \<Rightarrow> string \<Rightarrow> string list \<Rightarrow> lib_error option"
  try_from_solidity_bytes :: "string \<Rightarrow> bool"
  up_sha2 :: "string \<Rightarrow> h256"

definition up_verify_proof :: "up_config \<Rightarrow> string \<Rightarrow> string \<Rightarrow> string list \<Rightarrow> dispatch_weight option verdict" where
  "up_verify_proof cfg vk pf pubs =
     vd_ensure (length pf = up_PROOF_SIZE cfg) InvalidInput
     (vd_ensure (length pubs \<le> up_MaxPubs cfg) InvalidInput
     (lib_verdict (up_verify cfg vk pf pubs) None))"

text \<open>\<open>encode_vk\<close> resizes the key to its size plus 15 words of 32 bytes, filling with zero bytes.\<close>

definition up_encode_vk :: "up_config \<Rightarrow> string \<Rightarrow> string" where
  "up_encode_vk cfg vk =
     (let padded = up_VK_SIZE cfg + 15 * 32 in take padded (vk @ replicate (padded - length vk) (char_of (0 :: nat))))"

definition ultraplonk_verifier :: "up_config \<Rightarrow> ('x, string, string, string list) proof_verifier" where
  "ultraplonk_verifier cfg =
     \<lparr>hash_context_data = ''ultraplonk'',
      verify_proof = (\<lambda>x. up_verify_proof cfg),
      validate_vk = (\<lambda>x vk. vd_ensure (try_from_solidity_bytes cfg vk) InvalidVerificationKey (Accepted ())),
      vk_hash = (\<lambda>vk. up_sha2 cfg (up_encode_vk cfg vk)),
      pubs_bytes = concat,
      verifier_version_hash = default_version_hash\<rparr>"

definition ultraplonk_info :: "flat_weights \<Rightarrow> (string, string, string list) weight_info" where
  "ultraplonk_info W = flat_info (\<lambda>pf pubs. fw_verify_proof W) W"

end
