(* ===== verification/VerifiersProps.thy ===== *)
theory VerifiersProps
  imports Verifiers
begin

text \<open>
  What the pallet of the verifiers guarantees whatever the verifier: a key is stored as long as an account has
  a deposit for it, under its own hash and validated; the reference counts implement a plain set of
  registrations; a key that is stored serves as well as one that is sent along; a statement
  determines what was proved, up to a collision of the hash function.
\<close>


section \<open>Effects of the calls\<close>

lemma ask_eq_Inr [simp]: "ask f (p, x) = (s', Inr a) \<longleftrightarrow> f x = Accepted a \<and> s' = (p, x)"
  by (auto simp: ask_def split: verdict.splits)

lemma vf_ledger_eq_Inr [simp]:
  "vf_ledger f (p, x) = (s', Inr a) \<longleftrightarrow> (\<exists>x'. f x = Inr (a, x') \<and> s' = (p, x'))"
  by (auto simp: vf_ledger_def split: sum.splits)

lemma tell_eq_Inr [simp]:
  "tell cfg account i st (p, x) = (s', Inr u) \<longleftrightarrow>
     (\<exists>x'. cb_on_proof_verified (vf_callback cfg) account i st x = (x', None) \<and> s' = (p, x'))"
  by (auto simp: tell_def split: prod.splits option.splits)

lemma vf_deposit_apply [simp]: "vf_deposit e (p, x) = ((p\<lparr>vf_events := vf_events p @ [e]\<rparr>, x), Inr ())"
  by (simp add: vf_deposit_def)

lemma vf_disabled_apply [simp]: "vf_disabled (p, x) = ((p, x), Inr (Disabled p = Some True))"
  by (auto simp: vf_disabled_def split: option.splits)

lemma bind_disabled [simp]: "act_bind vf_disabled f (p, x) = f (Disabled p = Some True) (p, x)"
  by (simp add: act_bind_def)

definition counted_up :: "'vk \<Rightarrow> 'vk VkEntry option \<Rightarrow> 'vk VkEntry" where
  "counted_up vk entry =
     (case entry of None \<Rightarrow> VkEntry_new vk | Some e \<Rightarrow> e\<lparr>ve_ref_count := ve_ref_count e + 1\<rparr>)"

definition counted_down :: "'vk VkEntry \<Rightarrow> 'vk VkEntry option" where
  "counted_down e = (if ve_ref_count e \<le> 1 then None else Some (e\<lparr>ve_ref_count := ve_ref_count e - 1\<rparr>))"

lemma add_reference_Inr:
  "add_reference h vk (p, x) = (s', Inr u) \<longleftrightarrow>
     (\<forall>e. Vks p h = Some e \<longrightarrow> ve_ref_count e < u64_max) \<and>
     s' = (p\<lparr>Vks := (Vks p)(h \<mapsto> counted_up vk (Vks p h))\<rparr>, x)"
  by (auto simp: add_reference_def counted_up_def split: option.splits)

lemma register_vk_Inr:
  assumes "register_vk cfg og vk (p, x) = ((p', x'), Inr ())"
  obtains a t where "og = Signed a" "Disabled p \<noteq> Some True" "Tickets p (a, vk_hash (vf_verifier cfg) vk) = None"
    "validate_vk (vf_verifier cfg) x vk = Accepted ()"
    "co_new (vf_ticket cfg) x a 1 (vf_encoded_size cfg vk) = Inr (t, x')"
    "p' = p\<lparr>Tickets := (Tickets p)((a, vk_hash (vf_verifier cfg) vk) \<mapsto> t),
       Vks := (Vks p)(vk_hash (vf_verifier cfg) vk \<mapsto> counted_up vk (Vks p (vk_hash (vf_verifier cfg) vk))),
       vf_events := vf_events p @ [VkRegistered (vk_hash (vf_verifier cfg) vk)]\<rparr>"
  using assms
  by (auto simp: register_vk_def Let_def then_ensure call_Inr add_reference_Inr split: if_splits)

lemma submit_proof_Inr:
  assumes "submit_proof cfg og voh pf pubs i (p, x) = ((p', x'), Inr w)"
  obtains vk account ow where "Disabled p \<noteq> Some True" "ensure_signed_or_root og (p, x) = ((p, x), Inr account)"
    "case voh of Hash h \<Rightarrow> map_option ve_vk (Vks p h) = Some vk
       | Vk k \<Rightarrow> k = vk \<and> validate_vk (vf_verifier cfg) x k = Accepted ()"
    "verify_proof (vf_verifier cfg) x vk pf pubs = Accepted ow"
    "p' = p\<lparr>vf_events := vf_events p @ [ProofWasVerified (compute_statement_hash cfg voh pf pubs)]\<rparr>"
    "cb_on_proof_verified (vf_callback cfg) account i (compute_statement_hash cfg voh pf pubs) x = (x', None)"
    "w = map_option (\<lambda>w. submit_proof_weight cfg voh pf pubs i (Some w)) ow"
  using assms
  by (auto simp: submit_proof_def obtain_vk_def Let_def then_ensure call_Inr split: if_splits VkOrHash.splits option.splits)

lemma dropped_ledger: "(case r of Inl e \<Rightarrow> Inl e | Inr x' \<Rightarrow> Inr ((), x')) = Inr (u, x'') \<longleftrightarrow> r = Inr x''"
  by (cases r) auto

lemma drop_reference_Inr:
  "drop_reference h (p, x) = (s', Inr u) \<longleftrightarrow>
     (\<exists>e. Vks p h = Some e \<and> s' = (p\<lparr>Vks := (Vks p)(h := counted_down e),
        vf_events := vf_events p @ (if ve_ref_count e \<le> 1 then [VkUnregistered h] else [])\<rparr>, x))"
  by (auto simp: drop_reference_def counted_down_def call_Inr split: option.splits)

lemma unregister_vk_Inr:
  assumes "unregister_vk cfg og h (p, x) = ((p', x'), Inr ())"
  obtains a t e where "og = Signed a" "Tickets p (a, h) = Some t" "Vks p h = Some e"
    "co_drop (vf_ticket cfg) x t a = Inr x'"
    "p' = p\<lparr>Tickets := (Tickets p)((a, h) := None), Vks := (Vks p)(h := counted_down e),
       vf_events := vf_events p @ (if ve_ref_count e \<le> 1 then [VkUnregistered h] else [])\<rparr>"
proof -
  obtain a where a: "og = Signed a"
    using assms by (auto simp: unregister_vk_def call_Inr)
  obtain t where t: "Tickets p (a, h) = Some t"
    using assms a by (auto simp: unregister_vk_def call_Inr split: option.splits if_splits)
  show thesis
    using assms a t that
    by (auto simp: unregister_vk_def call_Inr drop_reference_Inr dropped_ledger)
qed

lemma disable_Inr: "disable og b (p, x) = ((p', x'), Inr ()) \<Longrightarrow> p' = p\<lparr>Disabled := Some b\<rparr>"
  by (simp add: disable_def ensure_root_def then_ensure split: if_splits)


section \<open>The registered keys\<close>

definition holders :: "('t, 'vk) vf_storage \<Rightarrow> h256 \<Rightarrow> account set" where
  "holders p h = {a. Tickets p (a, h) \<noteq> None}"

text \<open>
  The entry of a hash: it exists when an account holds a ticket for it, counts these accounts, and has a
  key with this hash that was valid when it came.
\<close>

definition vk_slot_ok :: "('x, 'vk, 'proof, 'pubs) proof_verifier \<Rightarrow> account set \<Rightarrow> h256 \<Rightarrow> 'vk VkEntry option \<Rightarrow> bool" where
  "vk_slot_ok V as h entry \<longleftrightarrow> finite as \<and>
     (case entry of
        None \<Rightarrow> as = {}
      | Some e \<Rightarrow> as \<noteq> {} \<and> ve_ref_count e = card as \<and> vk_hash V (ve_vk e) = h \<and>
          (\<exists>x. validate_vk V x (ve_vk e) = Accepted ()))"

definition vf_inv :: "('x, 'vk, 'proof, 'pubs) proof_verifier \<Rightarrow> ('t, 'vk) vf_storage \<Rightarrow> bool" where
  "vf_inv V p \<longleftrightarrow> (\<forall>h. vk_slot_ok V (holders p h) h (Vks p h))"

lemma slot_up:
  assumes "vk_slot_ok V as h entry" and "a \<notin> as" and "vk_hash V vk = h" and "validate_vk V x vk = Accepted ()"
  shows "vk_slot_ok V (insert a as) h (Some (counted_up vk entry))"
  using assms by (auto simp: vk_slot_ok_def counted_up_def VkEntry_new_def split: option.splits)

lemma slot_down:
  assumes "vk_slot_ok V as h (Some e)" and "a \<in> as"
  shows "vk_slot_ok V (as - {a}) h (counted_down e)"
proof -
  have fin: "finite as" and count: "ve_ref_count e = card as" using assms(1) by (simp_all add: vk_slot_ok_def)
  then have "card (as - {a}) = ve_ref_count e - 1" using assms(2) by simp
  moreover have "as - {a} = {} \<longleftrightarrow> ve_ref_count e \<le> 1"
    using fin count assms(2) calculation by (metis card_0_eq diff_is_0_eq finite_Diff)
  ultimately show ?thesis using assms(1) by (auto simp: vk_slot_ok_def counted_down_def)
qed

lemma holders_update [simp]:
  "holders (p\<lparr>Vks := v\<rparr>) = holders p" "holders (p\<lparr>vf_events := es\<rparr>) = holders p"
  "holders (p\<lparr>Disabled := b\<rparr>) = holders p"
  by (simp_all add: holders_def fun_eq_iff)

lemma holders_ticket:
  "holders (p\<lparr>Tickets := (Tickets p)((a, h) := t)\<rparr>) h' =
     (if h' \<noteq> h then holders p h' else if t = None then holders p h - {a} else insert a (holders p h))"
  by (auto simp: holders_def)

lemma vf_inv_slot: "vf_inv V p \<Longrightarrow> vk_slot_ok V (holders p h) h (Vks p h)"
  by (simp add: vf_inv_def)

lemma vf_inv_start [simp]: "vf_inv V vf_start"
  by (simp add: vf_inv_def vf_start_def vk_slot_ok_def holders_def)

lemma submit_proof_inv:
  assumes "vf_inv V p" and "submit_proof cfg og voh pf pubs i (p, x) = ((p', x'), Inr w)"
  shows "vf_inv V p'"
  using assms(2) by (rule submit_proof_Inr) (use assms(1) in \<open>simp add: vf_inv_def\<close>)

lemma register_vk_inv:
  assumes inv: "vf_inv (vf_verifier cfg) p" and run: "register_vk cfg og vk (p, x) = ((p', x'), Inr ())"
  shows "vf_inv (vf_verifier cfg) p'"
proof -
  obtain a t where new: "Tickets p (a, vk_hash (vf_verifier cfg) vk) = None"
    and ok: "validate_vk (vf_verifier cfg) x vk = Accepted ()"
    and p': "p' = p\<lparr>Tickets := (Tickets p)((a, vk_hash (vf_verifier cfg) vk) \<mapsto> t),
       Vks := (Vks p)(vk_hash (vf_verifier cfg) vk \<mapsto> counted_up vk (Vks p (vk_hash (vf_verifier cfg) vk))),
       vf_events := vf_events p @ [VkRegistered (vk_hash (vf_verifier cfg) vk)]\<rparr>"
    using run by (elim register_vk_Inr)
  have "a \<notin> holders p (vk_hash (vf_verifier cfg) vk)" using new by (simp add: holders_def)
  from slot_up [OF vf_inv_slot [OF inv] this refl ok] inv
  show ?thesis by (simp add: p' vf_inv_def holders_ticket)
qed

lemma unregister_vk_inv:
  assumes inv: "vf_inv V p" and run: "unregister_vk cfg og h (p, x) = ((p', x'), Inr ())"
  shows "vf_inv V p'"
proof -
  obtain a t e where t: "Tickets p (a, h) = Some t" and e: "Vks p h = Some e"
    and p': "p' = p\<lparr>Tickets := (Tickets p)((a, h) := None), Vks := (Vks p)(h := counted_down e),
       vf_events := vf_events p @ (if ve_ref_count e \<le> 1 then [VkUnregistered h] else [])\<rparr>"
    using run by (elim unregister_vk_Inr)
  have "a \<in> holders p h" using t by (simp add: holders_def)
  moreover have "vk_slot_ok V (holders p h) h (Some e)" using vf_inv_slot [OF inv, of h] e by simp
  ultimately have "vk_slot_ok V (holders p h - {a}) h (counted_down e)" by (intro slot_down)
  then show ?thesis using inv by (simp add: p' vf_inv_def holders_ticket)
qed

lemma vf_call_inv:
  assumes "vf_inv (vf_verifier cfg) p" and "vf_call_body cfg c (p, x) = ((p', x'), Inr ())"
  shows "vf_inv (vf_verifier cfg) p'"
proof (cases c)
  case (SubmitProof og voh pf pubs i)
  then obtain w where "submit_proof cfg og voh pf pubs i (p, x) = ((p', x'), Inr w)"
    using assms(2) by (auto simp: act_bind_eq_Inr)
  then show ?thesis by (rule submit_proof_inv [OF assms(1)])
next
  case (RegisterVk og vk)
  then show ?thesis using assms register_vk_inv [of cfg p og vk x p' x'] by simp
next
  case (Disable og b)
  then have "p' = p\<lparr>Disabled := Some b\<rparr>" using assms(2) by (rule_tac disable_Inr) simp
  then show ?thesis using assms(1) by (simp add: vf_inv_def)
next
  case (UnregisterVk og h)
  then show ?thesis using assms unregister_vk_inv [of _ p cfg og h x p' x'] by simp
qed

interpretation registry: pallet "vf_dispatch cfg" "\<lambda>s. vf_inv (vf_verifier cfg) (fst s)"
  for cfg :: "('x, 't, 'vk, 'proof, 'pubs) vf_config"
proof unfold_locales
  fix s s' :: "('t, 'vk) vf_storage \<times> 'x" and c :: "('vk, 'proof, 'pubs) vf_call"
  assume "vf_inv (vf_verifier cfg) (fst s)" and "vf_dispatch cfg c s = (s', Inr ())"
  then show "vf_inv (vf_verifier cfg) (fst s')"
    using vf_call_inv [of cfg "fst s" c "snd s" "fst s'" "snd s'"] by (simp add: vf_dispatch_def)
qed (auto simp: vf_dispatch_def transactional_eq_Inl)

text \<open>
  The storages that calls lead to, whoever sends them; between two calls the rest of the chain does what
  it likes.
\<close>

inductive vf_chain ::
  "('x, 't, 'vk, 'proof, 'pubs) vf_config \<Rightarrow> ('t, 'vk) vf_storage \<Rightarrow> 'x \<Rightarrow> bool" for cfg
where
  start: "vf_chain cfg vf_start x"
| call: "vf_chain cfg p x \<Longrightarrow> vf_dispatch cfg c (p, x) = ((p', x'), r) \<Longrightarrow> vf_chain cfg p' x'"
| others: "vf_chain cfg p x \<Longrightarrow> vf_chain cfg p x'"

lemma vf_chain_inv: "vf_chain cfg p x \<Longrightarrow> vf_inv (vf_verifier cfg) p"
proof (induction rule: vf_chain.induct)
  case (call p x c p' x' r)
  then show ?case using registry.dispatch_inv [of cfg "(p, x)" c] by simp
qed simp_all


section \<open>The registry that the counts implement\<close>

record 'vk registry =
  rg_owners :: "(account \<times> h256) set"
  rg_key :: "h256 \<Rightarrow> 'vk option"

definition registry_of :: "('t, 'vk) vf_storage \<Rightarrow> 'vk registry" where
  "registry_of p = \<lparr>rg_owners = dom (Tickets p), rg_key = (\<lambda>h. map_option ve_vk (Vks p h))\<rparr>"

text \<open>
  The specification has no counts: an account owns registrations, and a key stays while it has an
  owner.
\<close>

fun registry_step :: "('x, 'vk, 'proof, 'pubs) proof_verifier \<Rightarrow> ('vk, 'proof, 'pubs) vf_call \<Rightarrow> 'vk registry \<Rightarrow> 'vk registry" where
  "registry_step V (RegisterVk (Signed a) vk) g =
     \<lparr>rg_owners = insert (a, vk_hash V vk) (rg_owners g),
      rg_key = (rg_key g)(vk_hash V vk := (case rg_key g (vk_hash V vk) of None \<Rightarrow> Some vk | Some k \<Rightarrow> Some k))\<rparr>"
| "registry_step V (UnregisterVk (Signed a) h) g =
     (let owners = rg_owners g - {(a, h)} in
      \<lparr>rg_owners = owners, rg_key = (if h \<in> snd ` owners then rg_key g else (rg_key g)(h := None))\<rparr>)"
| "registry_step V _ g = g"

lemma owned_iff: "h \<in> snd ` (dom (Tickets p) - {(a, h)}) \<longleftrightarrow> holders p h - {a} \<noteq> {}"
  by (force simp: holders_def image_iff)

lemma register_refines:
  assumes "register_vk cfg og vk (p, x) = ((p', x'), Inr ())"
  shows "registry_of p' = registry_step (vf_verifier cfg) (RegisterVk og vk) (registry_of p)"
  using assms
  by (rule register_vk_Inr)
    (auto simp: registry_of_def counted_up_def VkEntry_new_def fun_eq_iff split: option.splits)

lemma unregister_refines:
  assumes inv: "vf_inv V p" and run: "unregister_vk cfg og h (p, x) = ((p', x'), Inr ())"
  shows "registry_of p' = registry_step V (UnregisterVk og h) (registry_of p)"
proof -
  obtain a t e where a: "og = Signed a" and t: "Tickets p (a, h) = Some t" and e: "Vks p h = Some e"
    and p': "p' = p\<lparr>Tickets := (Tickets p)((a, h) := None), Vks := (Vks p)(h := counted_down e),
       vf_events := vf_events p @ (if ve_ref_count e \<le> 1 then [VkUnregistered h] else [])\<rparr>"
    using run by (elim unregister_vk_Inr)
  have "vk_slot_ok V (holders p h) h (Some e)" using vf_inv_slot [OF inv, of h] e by simp
  then have "vk_slot_ok V (holders p h - {a}) h (counted_down e)"
    using t by (intro slot_down) (simp_all add: holders_def)
  then have kept: "counted_down e = None \<longleftrightarrow> holders p h - {a} = {}"
    by (auto simp: vk_slot_ok_def split: option.splits)
  have "dom (Tickets p') = dom (Tickets p) - {(a, h)}" by (auto simp: p')
  moreover have "map_option ve_vk (Vks p' h') =
      (if h' = h \<and> holders p h - {a} = {} then None else map_option ve_vk (Vks p h'))" for h'
    using kept e by (auto simp: p' counted_down_def)
  ultimately show ?thesis
    by (auto simp: registry_of_def a Let_def owned_iff fun_eq_iff)
qed

lemma registry_of_events [simp]: "registry_of (p\<lparr>vf_events := es\<rparr>) = registry_of p"
  by (simp add: registry_of_def)

lemma call_refines:
  assumes inv: "vf_inv (vf_verifier cfg) p" and run: "vf_call_body cfg c (p, x) = ((p', x'), Inr ())"
  shows "registry_of p' = registry_step (vf_verifier cfg) c (registry_of p)"
proof (cases c)
  case (SubmitProof og voh pf pubs i)
  then obtain w where "submit_proof cfg og voh pf pubs i (p, x) = ((p', x'), Inr w)"
    using run by (auto simp: act_bind_eq_Inr)
  then show ?thesis by (rule submit_proof_Inr) (simp add: SubmitProof)
next
  case (RegisterVk og vk)
  then show ?thesis using run register_refines [of cfg og vk p x p' x'] by simp
next
  case (Disable og b)
  then have "p' = p\<lparr>Disabled := Some b\<rparr>" using run by (rule_tac disable_Inr) simp
  then show ?thesis by (simp add: registry_of_def Disable)
next
  case (UnregisterVk og h)
  then show ?thesis using inv run unregister_refines [of _ p cfg og h x p' x'] by simp
qed


section \<open>Panics\<close>

text \<open>A sequence fails where one of its parts does.\<close>

lemma bind_Inl:
  "snd (act_bind m f s) = Inl e \<longleftrightarrow> snd (m s) = Inl e \<or> (\<exists>s' x. m s = (s', Inr x) \<and> snd (f x s') = Inl e)"
  by (auto simp: act_bind_def split: prod.splits sum.splits)

lemma then_Inl:
  "snd (act_then m k s) = Inl e \<longleftrightarrow> snd (m s) = Inl e \<or> (\<exists>s' x. m s = (s', Inr x) \<and> snd (k s') = Inl e)"
  by (simp add: act_then_def bind_Inl)

lemma ask_panic: "snd (ask f (p, x)) = Inl (PanicErr msg) \<longleftrightarrow> f x = Aborted msg"
  by (simp add: ask_def split: verdict.splits)

lemma ledger_panic: "snd (vf_ledger f (p, x)) \<noteq> Inl (PanicErr msg)"
  by (simp add: vf_ledger_def split: sum.splits)

lemma tell_panic:
  "snd (tell cfg account i st (p, x)) = Inl (PanicErr msg) \<longleftrightarrow>
     snd (cb_on_proof_verified (vf_callback cfg) account i st x) = Some msg"
  by (simp add: tell_def split: prod.splits option.splits)

lemma origin_panic:
  "snd (ensure_signed og s) \<noteq> Inl (PanicErr msg)" "snd (ensure_signed_or_root og s) \<noteq> Inl (PanicErr msg)"
  "snd (ensure b e s) = Inl e' \<longleftrightarrow> \<not> b \<and> e = e'"
  by (auto simp: ensure_signed_def ensure_signed_or_root_def ensure_apply split: origin.splits)

lemma count_panic:
  "snd (add_reference h vk (p, x)) \<noteq> Inl (PanicErr msg)"
  "Vks p h \<noteq> None \<Longrightarrow> snd (drop_reference h (p, x)) \<noteq> Inl (PanicErr msg)"
  by (auto simp: add_reference_def drop_reference_def then_Inl split: option.splits)

lemmas panic_simps = bind_Inl then_Inl ask_panic ledger_panic tell_panic origin_panic

text \<open>The key that a call names: a stored one, or one that comes along and is valid.\<close>

definition usable_vk ::
  "('x, 'vk, 'proof, 'pubs) proof_verifier \<Rightarrow> ('t, 'vk) vf_storage \<Rightarrow> 'x \<Rightarrow> 'vk VkOrHash \<Rightarrow> 'vk option"
where
  "usable_vk V p x voh =
     (case voh of
        Hash h \<Rightarrow> map_option ve_vk (Vks p h)
      | Vk vk \<Rightarrow> (if validate_vk V x vk = Accepted () then Some vk else None))"

fun signer :: "origin \<Rightarrow> account option" where
  "signer (Signed a) = Some a"
| "signer _ = None"

lemma unregister_panic_free:
  fixes x :: 'x
  assumes "vf_inv V p"
  shows "snd (unregister_vk cfg og h (p, x)) \<noteq> Inl (PanicErr msg)"
proof
  assume "snd (unregister_vk cfg og h (p, x)) = Inl (PanicErr msg)"
  then obtain a t and x' :: 'x where a: "Tickets p (a, h) = Some t"
    and fails: "snd (drop_reference h (p\<lparr>Tickets := (Tickets p)((a, h) := None)\<rparr>, x')) = Inl (PanicErr msg)"
    by (auto simp: unregister_vk_def panic_simps dropped_ledger split: option.splits if_splits)
  have "holders p h \<noteq> {}" using a by (auto simp: holders_def)
  then have "Vks p h \<noteq> None"
    using vf_inv_slot [OF assms, of h] by (auto simp: vk_slot_ok_def)
  then show False using fails by (simp add: count_panic)
qed

lemma register_panic:
  "snd (register_vk cfg og vk (p, x)) = Inl (PanicErr msg) \<Longrightarrow> validate_vk (vf_verifier cfg) x vk = Aborted msg"
  by (auto simp: register_vk_def Let_def panic_simps count_panic)

lemma submit_panic:
  assumes "snd (submit_proof cfg og voh pf pubs i (p, x)) = Inl (PanicErr msg)"
  shows "(\<exists>vk. voh = Vk vk \<and> validate_vk (vf_verifier cfg) x vk = Aborted msg) \<or>
    (\<exists>vk. usable_vk (vf_verifier cfg) p x voh = Some vk \<and>
       (verify_proof (vf_verifier cfg) x vk pf pubs = Aborted msg \<or>
        (\<exists>w. verify_proof (vf_verifier cfg) x vk pf pubs = Accepted w) \<and>
        snd (cb_on_proof_verified (vf_callback cfg) (signer og) i (compute_statement_hash cfg voh pf pubs) x) =
          Some msg))"
  using assms
  by (cases voh) (auto simp: submit_proof_def obtain_vk_def usable_vk_def Let_def panic_simps call_Inr
      split: option.splits)


section \<open>Statements and weights\<close>

definition named_hash :: "('x, 'vk, 'proof, 'pubs) proof_verifier \<Rightarrow> 'vk VkOrHash \<Rightarrow> h256" where
  "named_hash V voh = (case voh of Hash h \<Rightarrow> h | Vk vk \<Rightarrow> vk_hash V vk)"

definition statement_data ::
  "('x, 't, 'vk, 'proof, 'pubs) vf_config \<Rightarrow> 'vk VkOrHash \<Rightarrow> 'proof \<Rightarrow> 'pubs \<Rightarrow> string"
where
  "statement_data cfg voh pf pubs =
     (let V = vf_verifier cfg in
      vf_keccak cfg (hash_context_data V) @ named_hash V voh @ verifier_version_hash V pf @
        vf_keccak cfg (pubs_bytes V pubs))"

lemma compute_statement_hash_eq:
  "compute_statement_hash cfg voh pf pubs = vf_keccak cfg (statement_data cfg voh pf pubs)"
  by (simp add: compute_statement_hash_def statement_data_def named_hash_def Let_def)

definition hash_collision :: "(string \<Rightarrow> h256) \<Rightarrow> string \<Rightarrow> string \<Rightarrow> bool" where
  "hash_collision keccak a b \<longleftrightarrow> a \<noteq> b \<and> keccak a = keccak b"

text \<open>The documented sizes: a hash has 32 bytes.\<close>

definition sized_hashes :: "('x, 't, 'vk, 'proof, 'pubs) vf_config \<Rightarrow> bool" where
  "sized_hashes cfg \<longleftrightarrow>
     (\<forall>s. length (vf_keccak cfg s) = 32) \<and> (\<forall>vk. length (vk_hash (vf_verifier cfg) vk) = 32) \<and>
     (\<forall>pf. length (verifier_version_hash (vf_verifier cfg) pf) = 32)"

fun sized_key :: "'vk VkOrHash \<Rightarrow> bool" where
  "sized_key (Hash h) \<longleftrightarrow> length h = 32"
| "sized_key (Vk vk) \<longleftrightarrow> True"

lemma length_named_hash: "sized_hashes cfg \<Longrightarrow> sized_key voh \<Longrightarrow> length (named_hash (vf_verifier cfg) voh) = 32"
  by (cases voh) (simp_all add: named_hash_def sized_hashes_def)

lemma statement_binding_aux:
  fixes cfg :: "('x, 't, 'vk, 'proof, 'pubs) vf_config" and cfg' :: "('x', 't', 'vk', 'proof', 'pubs') vf_config"
  assumes "sized_hashes cfg" and "sized_key voh" and "sized_hashes cfg'" and "sized_key voh'"
    and "vf_keccak cfg' = vf_keccak cfg"
    and "compute_statement_hash cfg voh pf pubs = compute_statement_hash cfg' voh' pf' pubs'"
  shows "hash_collision (vf_keccak cfg) (statement_data cfg voh pf pubs) (statement_data cfg' voh' pf' pubs') \<or>
    hash_collision (vf_keccak cfg) (hash_context_data (vf_verifier cfg)) (hash_context_data (vf_verifier cfg')) \<or>
    hash_collision (vf_keccak cfg) (pubs_bytes (vf_verifier cfg) pubs) (pubs_bytes (vf_verifier cfg') pubs') \<or>
    hash_context_data (vf_verifier cfg) = hash_context_data (vf_verifier cfg') \<and>
    named_hash (vf_verifier cfg) voh = named_hash (vf_verifier cfg') voh' \<and>
    verifier_version_hash (vf_verifier cfg) pf = verifier_version_hash (vf_verifier cfg') pf' \<and>
    pubs_bytes (vf_verifier cfg) pubs = pubs_bytes (vf_verifier cfg') pubs'"
proof (cases "statement_data cfg voh pf pubs = statement_data cfg' voh' pf' pubs'")
  case False
  then show ?thesis using assms(5,6) by (simp add: hash_collision_def compute_statement_hash_eq)
next
  case True
  have "length (vf_keccak cfg s) = 32" for s using assms(1) by (simp add: sized_hashes_def)
  moreover have "length (named_hash (vf_verifier cfg) voh) = length (named_hash (vf_verifier cfg') voh')"
    using assms(1-4) by (simp add: length_named_hash)
  moreover have "length (verifier_version_hash (vf_verifier cfg) pf) = length (verifier_version_hash (vf_verifier cfg') pf')"
    using assms(1,3) by (simp add: sized_hashes_def)
  ultimately have "vf_keccak cfg (hash_context_data (vf_verifier cfg)) = vf_keccak cfg (hash_context_data (vf_verifier cfg'))"
    "named_hash (vf_verifier cfg) voh = named_hash (vf_verifier cfg') voh'"
    "verifier_version_hash (vf_verifier cfg) pf = verifier_version_hash (vf_verifier cfg') pf'"
    "vf_keccak cfg (pubs_bytes (vf_verifier cfg) pubs) = vf_keccak cfg (pubs_bytes (vf_verifier cfg') pubs')"
    using True assms(5) by (simp_all add: statement_data_def Let_def)
  then show ?thesis by (auto simp: hash_collision_def)
qed

lemma refund_le_charge:
  assumes "submit_proof cfg og voh pf pubs i s = (s', Inr (Some w))"
    and "\<And>x vk w'. verify_proof (vf_verifier cfg) x vk pf pubs = Accepted (Some w') \<Longrightarrow>
      weight_le w' (wi_verify_proof (vf_weights cfg) pf pubs)"
  shows "weight_le w (submit_proof_weight cfg voh pf pubs i None)"
proof -
  obtain p x p' x' where "s = (p, x)" "s' = (p', x')" by (cases s; cases s')
  with assms(1) have "submit_proof cfg og voh pf pubs i (p, x) = ((p', x'), Inr (Some w))" by simp
  then obtain vk w' where "verify_proof (vf_verifier cfg) x vk pf pubs = Accepted (Some w')"
    and w: "w = submit_proof_weight cfg voh pf pubs i (Some w')"
    by (elim submit_proof_Inr) (case_tac ow; force)
  then show ?thesis
    using assms(2) by (auto simp: submit_proof_weight_def Let_def intro!: compose_mono)
qed



lemma unregister_succeeds:
  assumes inv: "vf_inv V p" and t: "Tickets p (a, h) = Some t" and "co_drop (vf_ticket cfg) x t a = Inr x'"
  obtains p' where "vf_dispatch cfg (UnregisterVk (Signed a) h) (p, x) = ((p', x'), Inr ())"
proof -
  have "holders p h \<noteq> {}" using t by (auto simp: holders_def)
  then obtain e where "Vks p h = Some e"
    using vf_inv_slot [OF inv, of h] by (auto simp: vk_slot_ok_def split: option.splits)
  then have "\<exists>p'. unregister_vk cfg (Signed a) h (p, x) = ((p', x'), Inr ())"
    using t assms(3) by (auto simp: unregister_vk_def call_Inr drop_reference_Inr dropped_ledger)
  then show thesis using that by (auto simp: vf_dispatch_def)
qed


section \<open>A concrete verifier\<close>

definition sample_hash :: "string \<Rightarrow> h256" where
  "sample_hash s = take 32 (s @ replicate 32 CHR ''.'')"

definition sample_verifier :: "(unit, string, string, string) proof_verifier" where
  "sample_verifier =
     \<lparr>hash_context_data = ''my'',
      verify_proof = (\<lambda>x vk pf pubs. if pf = vk @ pubs then Accepted None else Rejected VerifyError),
      validate_vk = (\<lambda>x vk. if vk = [] then Rejected InvalidVerificationKey else Accepted ()),
      vk_hash = default_vk_hash sample_hash (\<lambda>vk. vk),
      pubs_bytes = (\<lambda>pubs. pubs),
      verifier_version_hash = default_version_hash\<rparr>"

definition sample_vf :: "(unit, unit, string, string, string) vf_config" where
  "sample_vf =
     \<lparr>vf_verifier = sample_verifier, vf_keccak = sample_hash,
      vf_callback = callback_tuple [],
      vf_ticket = \<lparr>co_new = (\<lambda>x a n b. Inr ((), x)), co_update = (\<lambda>x t a n b. Inr (t, x)),
        co_drop = (\<lambda>x t a. Inr x)\<rparr>,
      vf_encoded_size = length,
      vf_weights = \<lparr>wi_verify_proof = (\<lambda>pf pubs. no_weight), wi_register_vk = (\<lambda>vk. no_weight),
        wi_unregister_vk = no_weight, wi_get_vk = no_weight, wi_validate_vk = (\<lambda>vk. no_weight),
        wi_compute_statement_hash = (\<lambda>pf pubs. no_weight)\<rparr>,
      vf_db_reads = (\<lambda>n. no_weight)\<rparr>"

definition vf_run ::
  "('x, 't, 'vk, 'proof, 'pubs) vf_config \<Rightarrow> ('vk, 'proof, 'pubs) vf_call list \<Rightarrow>
   ('t, 'vk) vf_storage \<times> 'x \<Rightarrow> ('t, 'vk) vf_storage \<times> 'x"
where
  "vf_run cfg cs s = fold (\<lambda>c s. fst (vf_dispatch cfg c s)) cs s"

lemma vf_chain_run: "vf_chain cfg (fst s) (snd s) \<Longrightarrow> vf_chain cfg (fst (vf_run cfg cs s)) (snd (vf_run cfg cs s))"
proof (induction cs arbitrary: s)
  case (Cons c cs)
  obtain p' x' r where "vf_dispatch cfg c s = ((p', x'), r)" by (metis prod.exhaust)
  then show ?case
    using Cons.IH [of "(p', x')"] vf_chain.call [OF Cons.prems, of c] by (simp add: vf_run_def)
qed (simp add: vf_run_def)

text \<open>Two accounts have registered the same key.\<close>

definition sample_registered :: "(unit, string) vf_storage" where
  "sample_registered =
     fst (vf_run sample_vf [RegisterVk (Signed ''a'') ''k'', RegisterVk (Signed ''b'') ''k''] (vf_start, ()))"

lemma sample_registered_chain: "vf_chain sample_vf sample_registered ()"
  using vf_chain_run [of sample_vf "(vf_start, ())" "[RegisterVk (Signed ''a'') ''k'', RegisterVk (Signed ''b'') ''k'']"]
    vf_chain.start [of sample_vf "()"] by (simp add: sample_registered_def)

lemmas vf_eval = vf_dispatch_def transactional_def register_vk_def unregister_vk_def submit_proof_def disable_def
  obtain_vk_def ask_def vf_ledger_def tell_def add_reference_def drop_reference_def ensure_signed_def
  ensure_signed_or_root_def ensure_root_def ensure_apply act_then_def act_bind_def Let_def vf_deposit_def
  VkEntry_new_def u64_max_def

lemmas sample_vf_defs = sample_vf_def sample_verifier_def default_vk_hash_def sample_hash_def callback_tuple_def

lemma sample_registered_eq:
  "sample_registered =
     \<lparr>Disabled = None, Vks = (\<lambda>_. None)(sample_hash ''k'' \<mapsto> \<lparr>ve_vk = ''k'', ve_ref_count = 2\<rparr>),
      Tickets = (\<lambda>_. None)((''a'', sample_hash ''k'') \<mapsto> (), (''b'', sample_hash ''k'') \<mapsto> ()),
      vf_events = [VkRegistered (sample_hash ''k''), VkRegistered (sample_hash ''k'')]\<rparr>"
  by (simp add: sample_registered_def vf_run_def vf_eval sample_vf_defs vf_start_def) (simp add: numeral_2_eq_2)

lemma sample_sized: "sized_hashes sample_vf"
  by (auto simp: sized_hashes_def sample_vf_defs default_version_hash_def NO_VERSION_HASH_def)


section \<open>The properties of the pallet\<close>

text \<open>
  C22: the pallet implements the registry of \<open>registry_step\<close>, which has no reference counts: a successful
  call changes owners and keys as the specification says, a failing one nothing, and exactly the
  keys with an owner are stored.
\<close>

theorem vk_registry_refines:
  assumes "vf_chain cfg p x" and "vf_dispatch cfg c (p, x) = ((p', x'), r)"
  shows "registry_of p' =
      (if r = Inr () then registry_step (vf_verifier cfg) c (registry_of p) else registry_of p) \<and>
    (\<forall>h. rg_key (registry_of p') h \<noteq> None \<longleftrightarrow> h \<in> snd ` rg_owners (registry_of p'))"
proof
  have inv: "vf_inv (vf_verifier cfg) p" and inv': "vf_inv (vf_verifier cfg) p'"
    using vf_chain_inv [OF assms(1)] vf_chain_inv [OF vf_chain.call [OF assms]] by blast+
  show "registry_of p' =
      (if r = Inr () then registry_step (vf_verifier cfg) c (registry_of p) else registry_of p)"
    using assms(2) call_refines [OF inv, of c x p' x']
    by (cases r) (auto simp: vf_dispatch_def transactional_eq_Inl)
  have "Vks p' h \<noteq> None \<longleftrightarrow> holders p' h \<noteq> {}" for h
    using vf_inv_slot [OF inv', of h] by (auto simp: vk_slot_ok_def split: option.splits)
  moreover have "holders p' h \<noteq> {} \<longleftrightarrow> h \<in> snd ` dom (Tickets p')" for h
    by (force simp: holders_def image_iff)
  ultimately show "\<forall>h. rg_key (registry_of p') h \<noteq> None \<longleftrightarrow> h \<in> snd ` rg_owners (registry_of p')"
    by (simp add: registry_of_def)
qed

theorem vk_registry_refines_witness:
  "let p' = fst (vf_run sample_vf [UnregisterVk (Signed ''a'') (sample_hash ''k'')] (sample_registered, ())) in
   rg_owners (registry_of p') = {(''b'', sample_hash ''k'')} \<and> rg_key (registry_of p') (sample_hash ''k'') = Some ''k''"
proof -
  obtain p' x' where run: "vf_dispatch sample_vf (UnregisterVk (Signed ''a'') (sample_hash ''k'')) (sample_registered, ()) =
      ((p', x'), Inr ())"
    by (rule unregister_succeeds [OF vf_chain_inv [OF sample_registered_chain], of "''a''" "sample_hash ''k''"])
      (auto simp: sample_registered_eq sample_vf_def)
  have "rg_owners (registry_of sample_registered) = {(''a'', sample_hash ''k''), (''b'', sample_hash ''k'')}"
    "rg_key (registry_of sample_registered) (sample_hash ''k'') = Some ''k''"
    by (auto simp: registry_of_def sample_registered_eq split: if_splits)
  then show ?thesis
    using vk_registry_refines [OF sample_registered_chain run] run by (auto simp: vf_run_def Let_def)
qed

text \<open>
  Every stored key has the hash under which it is stored, was valid when it was registered, and its
  reference count is the number of accounts that hold a deposit for it; so unregistering a key never
  reaches the code that is marked unreachable.
\<close>

theorem registered_keys_genuine:
  assumes "vf_chain cfg p x"
  shows "(case Vks p h of
       None \<Rightarrow> \<forall>a. Tickets p (a, h) = None
     | Some e \<Rightarrow> vk_hash (vf_verifier cfg) (ve_vk e) = h \<and> ve_ref_count e = card {a. Tickets p (a, h) \<noteq> None} \<and>
         0 < ve_ref_count e \<and> (\<exists>x. validate_vk (vf_verifier cfg) x (ve_vk e) = Accepted ())) \<and>
    snd (vf_dispatch cfg (UnregisterVk og h) (p, x)) \<noteq> Inl (PanicErr msg)"
proof
  have inv: "vf_inv (vf_verifier cfg) p" using assms by (rule vf_chain_inv)
  show "case Vks p h of
       None \<Rightarrow> \<forall>a. Tickets p (a, h) = None
     | Some e \<Rightarrow> vk_hash (vf_verifier cfg) (ve_vk e) = h \<and> ve_ref_count e = card {a. Tickets p (a, h) \<noteq> None} \<and>
         0 < ve_ref_count e \<and> (\<exists>x. validate_vk (vf_verifier cfg) x (ve_vk e) = Accepted ())"
    using vf_inv_slot [OF inv, of h] by (auto simp: vk_slot_ok_def holders_def card_gt_0_iff split: option.splits)
  show "snd (vf_dispatch cfg (UnregisterVk og h) (p, x)) \<noteq> Inl (PanicErr msg)"
    using unregister_panic_free [OF inv] by (simp add: vf_dispatch_def)
qed

theorem registered_keys_genuine_witness:
  "card {a. Tickets sample_registered (a, sample_hash ''k'') \<noteq> None} = 2 \<and>
   snd (vf_dispatch sample_vf (UnregisterVk (Signed ''c'') (sample_hash ''k'')) (sample_registered, ())) \<noteq>
     Inl (PanicErr ''internal error: entered unreachable code'')"
  using registered_keys_genuine [OF sample_registered_chain, of "sample_hash ''k''" "Signed ''c''"
      "''internal error: entered unreachable code''"]
  by (simp add: sample_registered_eq)



text \<open>
  A statement binds everything it is made of. When the statements of two verified proofs are equal, for
  the same or for different verifiers, then the verifiers have the same context, the keys the same hash, the
  proofs the same version and the public inputs the same bytes; or one of three named pairs is a collision of
  the hash function.
\<close>

theorem statement_binding:
  fixes cfg :: "('x, 't, 'vk, 'proof, 'pubs) vf_config" and cfg' :: "('x', 't', 'vk', 'proof', 'pubs') vf_config"
  assumes "sized_hashes cfg" and "sized_key voh" and "sized_hashes cfg'" and "sized_key voh'"
    and "vf_keccak cfg' = vf_keccak cfg"
    and "compute_statement_hash cfg voh pf pubs = compute_statement_hash cfg' voh' pf' pubs'"
  shows "hash_collision (vf_keccak cfg) (statement_data cfg voh pf pubs) (statement_data cfg' voh' pf' pubs') \<or>
    hash_collision (vf_keccak cfg) (hash_context_data (vf_verifier cfg)) (hash_context_data (vf_verifier cfg')) \<or>
    hash_collision (vf_keccak cfg) (pubs_bytes (vf_verifier cfg) pubs) (pubs_bytes (vf_verifier cfg') pubs') \<or>
    hash_context_data (vf_verifier cfg) = hash_context_data (vf_verifier cfg') \<and>
    named_hash (vf_verifier cfg) voh = named_hash (vf_verifier cfg') voh' \<and>
    verifier_version_hash (vf_verifier cfg) pf = verifier_version_hash (vf_verifier cfg') pf' \<and>
    pubs_bytes (vf_verifier cfg) pubs = pubs_bytes (vf_verifier cfg') pubs'"
  using assms by (rule statement_binding_aux)

theorem statement_binding_witness:
  "named_hash sample_verifier (Vk ''k'') = named_hash sample_verifier (Hash (sample_hash ''k''))"
  using statement_binding [of sample_vf "Vk ''k''" sample_vf "Hash (sample_hash ''k'')" "''p''" "''u''" "''p''" "''u''"] sample_sized
  by (auto simp: sample_vf_def compute_statement_hash_def sample_verifier_def default_vk_hash_def hash_collision_def
      sample_hash_def statement_data_def named_hash_def)

text \<open>
  An account that holds a deposit for a key can always get it back, also while the verifier is
  disabled: if the deposit can be released, unregistering the key succeeds, and it takes away no other
  registration.
\<close>

theorem registration_can_end:
  assumes "vf_chain cfg p x" and "Tickets p (a, h) = Some t" and "co_drop (vf_ticket cfg) x t a = Inr x'"
  shows "\<exists>p'. vf_dispatch cfg (UnregisterVk (Signed a) h) (p, x) = ((p', x'), Inr ()) \<and>
    Tickets p' = (Tickets p)((a, h) := None)"
proof -
  obtain p' where run: "vf_dispatch cfg (UnregisterVk (Signed a) h) (p, x) = ((p', x'), Inr ())"
    using vf_chain_inv [OF assms(1)] assms(2,3) by (rule unregister_succeeds)
  then have "unregister_vk cfg (Signed a) h (p, x) = ((p', x'), Inr ())" by (simp add: vf_dispatch_def)
  then have "Tickets p' = (Tickets p)((a, h) := None)" by (rule unregister_vk_Inr) simp
  with run show ?thesis by blast
qed

theorem registration_can_end_witness:
  "\<exists>p'. vf_dispatch sample_vf (UnregisterVk (Signed ''b'') (sample_hash ''k'')) (sample_registered, ()) = ((p', ()), Inr ()) \<and>
     Tickets p' = (Tickets sample_registered)((''b'', sample_hash ''k'') := None)"
  by (rule registration_can_end [OF sample_registered_chain]) (simp_all add: sample_registered_eq sample_vf_def)

end
