(* ===== verification/ProofVerifiersProps.thy ===== *)
theory ProofVerifiersProps
  imports CurveVerifiers VerifiersProps
begin

text \<open>
  Properties of the nine verifiers: which inputs they accept, where they can panic, that a key that passed
  validation is not refused later, that the weight they give back is at most what was charged, and that
  the statements of different verifiers, versions and public inputs differ.
\<close>


section \<open>Panics\<close>

lemma tee_no_abort: "tee_verify_proof cfg x vk pf pubs \<noteq> Aborted msg" "tee_validate_vk cfg x vk \<noteq> Aborted msg"
  by (cases vk; simp add: tee_verify_proof_def tee_validate_vk_def verdict_simps Let_def)+

lemma r0_no_abort: "r0_verify_proof cfg vk pf pubs \<noteq> Aborted msg"
  by (auto simp: r0_verify_proof_def r0_try_from_def verdict_simps split: option.splits)

lemma uh_no_abort: "uh_verify_proof cfg vk pf pubs \<noteq> Aborted msg" "uh_validate_vk cfg vk \<noteq> Aborted msg"
proof -
  have "uh_check_version cfg vk pf pubs \<noteq> Aborted msg"
    by (cases "(cfg, vk, pf, pubs)" rule: uh_check_version.cases)
      (auto simp: verdict_simps lib_verdict_eq uh84_check_def valid_log_circuit_size_def uh_compute_weight_def Let_def
        split: uh_proof.splits)
  then show "uh_verify_proof cfg vk pf pubs \<noteq> Aborted msg" by (simp add: uh_verify_proof_def verdict_simps)
  show "uh_validate_vk cfg vk \<noteq> Aborted msg" by (cases vk) (simp_all add: verdict_simps)
qed

lemma g16_no_abort: "g16_verify_proof cfg vk pf pubs \<noteq> Aborted msg" "hp_validate_key L c k \<noteq> Aborted msg"
  by (simp_all add: g16_verify_proof_def hp_verify_proof_def hp_validate_key_def verdict_simps)

lemma sp1_no_abort: "sp1_verify_proof cfg vk pf pubs \<noteq> Aborted msg"
  by (simp add: sp1_verify_proof_def verdict_simps)

lemma ezkl_no_abort: "ezkl_verify_proof cfg vk pf pubs \<noteq> Aborted msg" "ezkl_validate_vk vk \<noteq> Aborted msg"
  by (simp_all add: ezkl_verify_proof_def ezkl_validate_vk_def verdict_simps lib_verdict_eq)

lemma up_no_abort: "up_verify_proof cfg vk pf pubs \<noteq> Aborted msg"
  by (simp add: up_verify_proof_def verdict_simps lib_verdict_eq)

lemma p2_validate_no_abort: "p2_validate_vk cfg vk \<noteq> Aborted msg"
  by (simp add: p2_validate_vk_def verdict_simps)

lemma p2_abort:
  assumes "p2_verify_proof cfg vk pf pubs = Aborted msg" and "p2_validate_vk cfg vk = Accepted ()"
  shows "\<exists>v. deserialize_vk (p2_lib cfg) (p2_config vk) (p2_bytes vk) = Some v \<and> degree_bits (p2_lib cfg) v = 0"
  using assms
  by (auto simp: p2_verify_proof_def p2_validate_vk_def p2_compute_weight_def verdict_simps MAX_DEGREE_BITS_def
      split: if_splits)

text \<open>The documented behaviour of the field library: 32 bytes always give a scalar, and a base field element or \<open>NotMember\<close>.\<close>

definition bn_total :: "('fr, 'fq, 'fq2, 'g1, 'g2) bn_library \<Rightarrow> bool" where
  "bn_total B \<longleftrightarrow> (\<forall>s. length s = 32 \<longrightarrow> fr_from_slice B s \<noteq> None \<and> fq_from_slice B s \<noteq> Inl OtherFieldError)"

lemma into_field_no_abort:
  assumes "bn_total B"
  shows "into_fr B n \<noteq> Aborted msg" "into_fq B n \<noteq> Aborted msg"
proof -
  have "fr_from_slice B (h256_of n) \<noteq> None" "fq_from_slice B (h256_of n) \<noteq> Inl OtherFieldError"
    using assms by (simp_all add: bn_total_def)
  then show "into_fr B n \<noteq> Aborted msg" "into_fq B n \<noteq> Aborted msg"
    by (auto simp: into_fr_def into_fq_def split: option.splits sum.splits field_error.splits)
qed

lemma into_frs_no_abort: "bn_total B \<Longrightarrow> into_frs B ns \<noteq> Aborted msg"
  by (induction ns) (auto simp: vd_bind_eq_Aborted into_field_no_abort)

lemma into_points_no_abort: "bn_total B \<Longrightarrow> into_g1 B p \<noteq> Aborted msg" "bn_total B \<Longrightarrow> into_g2 B q \<noteq> Aborted msg"
  by (cases p; cases q; simp add: into_g1_def into_g2_def into_fq2_def vd_bind_eq_Aborted into_field_no_abort)+

lemma ff_no_abort:
  assumes "bn_total (ff_bn cfg)"
  shows "ff_verify_proof cfg vk pf pubs \<noteq> Aborted msg" "ff_try_into (ff_bn cfg) vk \<noteq> Aborted msg"
  using assms
  by (simp_all add: ff_verify_proof_def try_into_fflonk_vk_unchecked_def ff_try_into_def verdict_simps
      into_frs_no_abort into_points_no_abort)


section \<open>Keys that passed validation\<close>

text \<open>Reading a point without the check gives the point that is read with it.\<close>

definition unchecked_extends :: "('g1, 'g2, 'f) ark_library \<Rightarrow> bool" where
  "unchecked_extends L \<longleftrightarrow>
     (\<forall>c b p. ark_g1 L c b = Some p \<longrightarrow> ark_g1_unchecked L c b = Some p) \<and>
     (\<forall>c b p. ark_g2 L c b = Some p \<longrightarrow> ark_g2_unchecked L c b = Some p)"

lemma collect_all_extends:
  "(\<And>b p. f b = Some p \<Longrightarrow> g b = Some p) \<Longrightarrow> collect_all (map f bs) = Some ps \<Longrightarrow> collect_all (map g bs) = Some ps"
proof (induction bs arbitrary: ps)
  case (Cons b bs)
  then show ?case by (cases "f b") auto
qed simp

lemma key_with_extends:
  assumes "\<And>b p. g1 b = Some p \<Longrightarrow> g1' b = Some p" and "\<And>b p. g2 b = Some p \<Longrightarrow> g2' b = Some p"
    and "key_with g1 g2 vk = Some k"
  shows "key_with g1' g2' vk = Some k"
  using assms collect_all_extends [of g1 g1' "gamma_abc_g1 vk"]
  by (auto simp: key_with_def split: option.splits)

lemma g16_valid_key:
  assumes "unchecked_extends (g16_lib cfg)" and "hp_validate_key (g16_lib cfg) (vk_curve vk) (vk_of vk) = Accepted ()"
  shows "g16_verify_proof cfg vk pf pubs \<noteq> Rejected InvalidVerificationKey"
proof -
  have g1: "ark_g1_unchecked (g16_lib cfg) c b = Some p" if "ark_g1 (g16_lib cfg) c b = Some p" for c b p
    using assms(1) that unfolding unchecked_extends_def by blast
  have g2: "ark_g2_unchecked (g16_lib cfg) c b = Some p" if "ark_g2 (g16_lib cfg) c b = Some p" for c b p
    using assms(1) that unfolding unchecked_extends_def by blast
  obtain k where "key_into_ark (g16_lib cfg) (vk_curve vk) (vk_of vk) = Some k"
    using assms(2) by (auto simp: hp_validate_key_def verdict_simps)
  then have "try_into_ark_unchecked (g16_lib cfg) (vk_curve vk) (vk_of vk) = Some k"
    unfolding key_into_ark_def try_into_ark_unchecked_def
    using key_with_extends [of "ark_g1 (g16_lib cfg) (vk_curve vk)" _ "ark_g2 (g16_lib cfg) (vk_curve vk)"] g1 g2 by blast
  then show ?thesis
    by (auto simp: g16_verify_proof_def hp_verify_proof_def vd_ensure_def vd_option_def split: option.splits)
qed

lemma ff_valid_key:
  assumes "ff_try_into (ff_bn cfg) vk = Accepted k"
  shows "ff_verify_proof cfg vk pf pubs \<noteq> Rejected InvalidVerificationKey"
proof -
  obtain ss x2 c0 where "into_frs (ff_bn cfg) (ff_scalars vk) = Accepted ss" "into_g2 (ff_bn cfg) (ff_x2 vk) = Accepted x2"
    "into_g1 (ff_bn cfg) (ff_c0 vk) = Accepted c0"
    using assms by (auto simp: ff_try_into_def verdict_simps split: if_splits)
  then show ?thesis
    by (auto simp: ff_verify_proof_def try_into_fflonk_vk_unchecked_def vd_ensure_def vd_option_def split: option.splits)
qed

lemma p2_valid_key:
  assumes "p2_validate_vk cfg vk = Accepted ()"
  shows "p2_verify_proof cfg vk pf pubs \<noteq> Rejected InvalidVerificationKey"
proof -
  obtain v where "length (p2_bytes vk) \<le> p2_MaxVkSize cfg"
    "deserialize_vk (p2_lib cfg) (p2_config vk) (p2_bytes vk) = Some v" "degree_bits (p2_lib cfg) v \<le> MAX_DEGREE_BITS"
    using assms by (auto simp: p2_validate_vk_def verdict_simps)
  then show ?thesis
    by (auto simp: p2_verify_proof_def p2_compute_weight_def vd_ensure_def vd_option_def split: option.splits)
qed


section \<open>Weights\<close>

lemma fold_add_ref_time_proof_size:
  "proof_size (fold (\<lambda>w acc. add_ref_time acc (ref_time w)) ws a) = proof_size a"
  by (induction ws arbitrary: a) (simp_all add: add_ref_time_def)

lemma r0_refund:
  assumes "r0_verify_proof cfg vk pf pubs = Accepted (Some w)" and "proof_size (w_succinct (r0_weights cfg)) = 0"
  shows "weight_le w (r0_max_verify_proof_weight cfg)"
proof -
  obtain v r where "r0_verify_weight cfg v r = Some w" and le: "ref_time w \<le> ref_time (r0_max_verify_proof_weight cfg)"
    using assms(1) unfolding r0_verify_proof_def verdict_simps case_prod_unfold by blast
  then have "proof_size w = 0"
    using assms(2)
    by (auto simp: r0_verify_weight_def fold_add_ref_time_proof_size no_weight_def split: option.splits)
  with le show ?thesis by (simp add: weight_le_def)
qed

lemma uh_refund:
  assumes "uh_verify_proof cfg vk pf pubs = Accepted (Some w)"
    and "\<And>n m. n \<le> m \<Longrightarrow> weight_le (verify_zk_proof_v3_0 (uh_weights_of cfg) n) (verify_zk_proof_v3_0 (uh_weights_of cfg) m)"
    and "\<And>n m. n \<le> m \<Longrightarrow> weight_le (verify_plain_proof_v3_0 (uh_weights_of cfg) n) (verify_plain_proof_v3_0 (uh_weights_of cfg) m)"
  shows "weight_le w (uh_charge (uh_weights_of cfg) pf)"
proof -
  have "uh_check_version cfg vk pf pubs = Accepted (Some w)"
    using assms(1) by (simp add: uh_verify_proof_def verdict_simps)
  then obtain inner n where pf: "pf = Pf_V3_0 inner" and n: "n \<le> MAX_BENCHMARKED_LOG_CIRCUIT_SIZE"
    and w: "uh_compute_weight (uh_weights_of cfg) Protocol_V3_0 inner n = Accepted w"
    by (cases "(cfg, vk, pf, pubs)" rule: uh_check_version.cases)
      (auto simp: verdict_simps lib_verdict_eq uh84_check_def valid_log_circuit_size_def)
  have "max n MIN_BENCHMARKED_LOG_CIRCUIT_SIZE \<le> MAX_BENCHMARKED_LOG_CIRCUIT_SIZE"
    using n by (simp add: MIN_BENCHMARKED_LOG_CIRCUIT_SIZE_def MAX_BENCHMARKED_LOG_CIRCUIT_SIZE_def)
  then show ?thesis
    using assms(2,3) w unfolding pf by (cases inner) (auto simp: uh_compute_weight_def Let_def)
qed

lemma tee_refund:
  assumes "tee_verify_proof cfg x vk pf pubs = Accepted (Some w)"
  shows "weight_le w (weight_max (intel_verify_weight cfg) (nitro_verify_weight cfg))"
  using assms
  by (cases vk) (auto simp: tee_verify_proof_def verdict_simps Let_def weight_max_def weight_le_def)

lemma p2_refund:
  assumes "p2_verify_proof cfg vk pf pubs = Accepted (Some w)"
    and "\<And>d. 2 \<le> d \<Longrightarrow> d \<le> 19 \<Longrightarrow>
      weight_le (poseidon_uncompressed (p2_weights_of cfg) d) (poseidon_uncompressed (p2_weights_of cfg) 19) \<and>
      weight_le (keccak_uncompressed (p2_weights_of cfg) d) (poseidon_uncompressed (p2_weights_of cfg) 19)"
  shows "weight_le w (poseidon_uncompressed (p2_weights_of cfg) 19)"
proof -
  obtain d where "p2_compute_weight (p2_weights_of cfg) d (p2_config vk) = Accepted w"
    using assms(1) by (auto simp: p2_verify_proof_def verdict_simps)
  then have d: "1 \<le> d" "d \<le> 19" and w: "w = (case p2_config vk of
      Poseidon \<Rightarrow> poseidon_uncompressed (p2_weights_of cfg) (if d = 1 then 2 else d)
    | Keccak \<Rightarrow> keccak_uncompressed (p2_weights_of cfg) (if d = 1 then 2 else d))"
    by (simp_all add: p2_compute_weight_def split: if_splits)
  have "2 \<le> (if d = 1 then 2 else d)" "(if d = 1 then 2 else d) \<le> 19" using d by auto
  from assms(2) [OF this] show ?thesis unfolding w by (cases "p2_config vk") simp_all
qed

end
