(* ===== verification/AggregateData.thy ===== *)
theory AggregateData
  imports Frame Merkle
begin

text \<open>
  The data of the aggregation pallet (\<open>pallets/aggregate/src/data.rs\<close>): statements with the funds reserved
  for them, aggregations, and the domains that collect them. Numbers of 32 and 64 bits are natural
  numbers; the places where the code checks them for overflow, or does not, are written out.
\<close>


section \<open>Statements and aggregations\<close>

record reserve =
  rs_aggregate :: nat
  rs_delivery :: nat

record statement_entry =
  se_account :: account
  se_reserve :: reserve
  se_statement :: h256

record aggregation =
  ag_id :: nat
  ag_size :: nat
  ag_statements :: "statement_entry list"

definition aggregation_create :: "nat \<Rightarrow> nat \<Rightarrow> aggregation" where
  "aggregation_create i n = \<lparr>ag_id = i, ag_size = n, ag_statements = []\<rparr>"

text \<open>\<open>create_next\<close>: the id is incremented with \<open>checked_add\<close>.\<close>

definition create_next :: "aggregation \<Rightarrow> nat \<Rightarrow> aggregation option" where
  "create_next a n = (if ag_id a < u64_max then Some (aggregation_create (ag_id a + 1) n) else None)"

definition space_left :: "aggregation \<Rightarrow> nat" where
  "space_left a = ag_size a - length (ag_statements a)"

definition ag_completed :: "aggregation \<Rightarrow> bool" where
  "ag_completed a \<longleftrightarrow> space_left a = 0"


section \<open>Users, rules and delivery\<close>

datatype user = Account account | Manager

fun user_account :: "user \<Rightarrow> account option" where
  "user_account (Account a) = Some a"
| "user_account Manager = None"

datatype domain_state = Ready | Hold | Removable | Removed

datatype aggregate_rule = AggUntrusted | AggOnlyOwner | AggOnlyOwnerUncompleted

datatype proof_rule = ProofUntrusted | ProofOnlyOwner | ProofOnlyAllowlisted

datatype Destination = NoDestination

record delivery =
  dl_destination :: Destination
  dl_fee :: nat
  dl_owner_tip :: nat

text \<open>The sum of fee and tip is a plain addition of 128-bit balances, which wraps around.\<close>

definition total_fee :: "delivery \<Rightarrow> nat" where
  "total_fee d = (dl_fee d + dl_owner_tip d) mod 2 ^ 128"


section \<open>Domains\<close>

record 't domain =
  dom_id :: nat
  dom_owner :: user
  dom_state :: domain_state
  dom_next :: aggregation
  dom_max_aggregation_size :: nat
  dom_should_publish :: "(nat \<times> aggregation) list"
  dom_publish_queue_size :: nat
  dom_ticket_domain :: "'t option"
  dom_ticket_allowlist :: "('t \<times> nat) option"
  dom_aggregate_rules :: aggregate_rule
  dom_proof_rules :: proof_rule
  dom_delivery_owner :: account
  dom_delivery :: delivery

definition can_add_statement :: "'t domain \<Rightarrow> bool" where
  "can_add_statement d \<longleftrightarrow>
     0 < dom_publish_queue_size d - length (dom_should_publish d) \<or> 1 < space_left (dom_next d)"

text \<open>
  The sizes that \<open>compute_encoded_size\<close> combines; the numbers of bytes of the types are computed by the
  codec and are parameters. The operations saturate at the largest \<open>usize\<close>.
\<close>

record encoded_lengths =
  len_usize_max :: nat
  len_domain :: nat
  len_aggregation :: nat
  len_statements :: nat
  len_statement :: nat
  len_compact_size :: nat
  len_queue :: nat
  len_queue_key :: nat
  len_compact_queue :: nat
  len_destination_max :: nat
  len_destination :: "Destination \<Rightarrow> nat"

definition sat_plus :: "encoded_lengths \<Rightarrow> nat \<Rightarrow> nat \<Rightarrow> nat" where
  "sat_plus e a b = min (a + b) (len_usize_max e)"

definition sat_times :: "encoded_lengths \<Rightarrow> nat \<Rightarrow> nat \<Rightarrow> nat" where
  "sat_times e a b = min (a * b) (len_usize_max e)"

definition aggregation_encoded_size :: "encoded_lengths \<Rightarrow> nat \<Rightarrow> nat" where
  "aggregation_encoded_size e n =
     sat_plus e (len_aggregation e - len_statements e)
       (sat_plus e (len_compact_size e) (sat_times e n (len_statement e)))"

definition domain_encoded_size :: "encoded_lengths \<Rightarrow> nat \<Rightarrow> nat \<Rightarrow> Destination \<Rightarrow> nat" where
  "domain_encoded_size e max_aggregation_size publish_queue_size dest =
     (let aggregation_size = aggregation_encoded_size e max_aggregation_size;
          rest = len_domain e - len_aggregation e - len_queue e - len_destination_max e in
      sat_plus e (sat_plus e (sat_plus e rest (len_destination e dest)) aggregation_size)
        (sat_plus e
          (sat_times e publish_queue_size (sat_plus e (len_queue_key e) aggregation_size))
          (len_compact_queue e)))"

end
