(* ===== verification/AggregatePallet.thy ===== *)
theory AggregatePallet
  imports AggregateData
begin

text \<open>
  The aggregation pallet (\<open>pallets/aggregate/src/lib.rs\<close>): the callback for verified proofs, the calls and the
  lookup of a Merkle path. A method of the Rust type \<open>Domain\<close> works on the domain in its hands and on the
  storage (\<open>domain_act\<close>); \<open>Domains::mutate\<close> and its variants write the domain back. The holds on
  balances, the consideration tickets, the fee estimation, the Merkle tree and the dispatch to other chains are
  fields of the configuration.
\<close>


section \<open>Configuration and storage\<close>

datatype hold_reason = AggregationReason | DeliveryReason

text \<open>
  The operations of \<open>fungible::hold::Mutate\<close> that the pallet uses: \<open>hold\<close>, \<open>release\<close> (exact, or as much as
  possible) and \<open>transfer_on_hold\<close> (as much as possible). The last two return the amount.
\<close>

record 'l holds =
  ho_on_hold :: "'l \<Rightarrow> hold_reason \<Rightarrow> account \<Rightarrow> nat"
  ho_hold :: "'l \<Rightarrow> hold_reason \<Rightarrow> account \<Rightarrow> nat \<Rightarrow> token_error + 'l"
  ho_release_exact :: "'l \<Rightarrow> hold_reason \<Rightarrow> account \<Rightarrow> nat \<Rightarrow> token_error + 'l"
  ho_release :: "'l \<Rightarrow> hold_reason \<Rightarrow> account \<Rightarrow> nat \<Rightarrow> token_error + nat \<times> 'l"
  ho_transfer_on_hold :: "'l \<Rightarrow> hold_reason \<Rightarrow> account \<Rightarrow> account \<Rightarrow> nat \<Rightarrow> token_error + nat \<times> 'l"

record ('l, 't) agg_config =
  AggregationSize :: nat
  MaxPendingPublishQueueSize :: nat
  agg_manager :: "origin \<Rightarrow> bool"
  agg_holds :: "'l holds"
  ConsiderationDomain :: "('l, 't) consideration"
  ConsiderationAllowList :: "('l, 't) consideration"
  estimate_call_fee :: "nat \<Rightarrow> nat"
  compute_tip :: "nat \<Rightarrow> nat option"
  encoded :: encoded_lengths
  tree_root :: "h256 list \<Rightarrow> h256"
  tree_proof :: "h256 list \<Rightarrow> nat \<Rightarrow> merkle_path"
  dispatch_aggregation :: "nat \<Rightarrow> nat \<Rightarrow> h256 \<Rightarrow> Destination \<Rightarrow> nat \<Rightarrow> account \<Rightarrow> string + unit"

datatype agg_error =
    UnknownDomainId
  | InvalidAggregationId
  | InvalidDomainParams
  | InvalidDomainState
  | MissedDeliveryOwnership
  | NextAggregationIdUnavailable

datatype cannot_aggregate =
    NoAccount
  | DomainNotRegistered nat
  | DomainStorageFull nat
  | InsufficientFunds
  | WrongDomainState nat domain_state
  | UnauthorizedUser

datatype agg_event =
    NewDomain nat
  | DomainStateChanged nat domain_state
  | NewProof h256 nat nat
  | AggregationComplete nat nat
  | NewAggregationReceipt nat nat h256
  | CannotAggregate h256 cannot_aggregate
  | DomainFull nat

record ('l, 't) agg_storage =
  NextDomainId :: nat
  Domains :: "nat \<Rightarrow> 't domain option"
  SubmittersAllowlist :: "nat \<Rightarrow> account list"
  Published :: "(nat \<times> aggregation) list"
  agg_events :: "agg_event list"
  agg_ledger :: 'l

type_synonym ('l, 't, 'a) agg_act = "(('l, 't) agg_storage, agg_error, 'a) storage_act"
type_synonym ('l, 't, 'a) domain_act = "('t domain \<times> ('l, 't) agg_storage, agg_error, 'a) storage_act"

definition agg_deposit :: "agg_event \<Rightarrow> ('l, 't, unit) agg_act" where
  "agg_deposit e = modify (\<lambda>s. s\<lparr>agg_events := agg_events s @ [e]\<rparr>)"

definition deposit :: "agg_event \<Rightarrow> ('l, 't, unit) domain_act" where
  "deposit e = modify (\<lambda>(d, s). (d, s\<lparr>agg_events := agg_events s @ [e]\<rparr>))"

definition self :: "('t domain \<Rightarrow> 'a) \<Rightarrow> ('l, 't, 'a) domain_act" where
  "self f = gets (\<lambda>(d, s). f d)"

definition set_self :: "('t domain \<Rightarrow> 't domain) \<Rightarrow> ('l, 't, unit) domain_act" where
  "set_self f = modify (\<lambda>(d, s). (f d, s))"

text \<open>A change of the ledger that may fail.\<close>

definition on_ledger :: "('l \<Rightarrow> token_error + 'a \<times> 'l) \<Rightarrow> ('l, 't, 'a) domain_act" where
  "on_ledger f = (\<lambda>(d, s).
     case f (agg_ledger s) of
       Inl e \<Rightarrow> ((d, s), Inl (TokenErr e))
     | Inr (x, l) \<Rightarrow> ((d, s\<lparr>agg_ledger := l\<rparr>), Inr x))"

text \<open>\<open>try_mutate\<close>: the closure runs on the domain, which is written back unless it fails.\<close>

definition try_mutate :: "nat \<Rightarrow> ('l, 't, 'a) domain_act \<Rightarrow> ('l, 't, 'a) agg_act" where
  "try_mutate i m s =
     (case Domains s i of
        None \<Rightarrow> (s, Inl (ModuleErr UnknownDomainId))
      | Some d \<Rightarrow> (case m (d, s) of
          ((d', s'), Inr x) \<Rightarrow> (s'\<lparr>Domains := (Domains s')(i := Some d')\<rparr>, Inr x)
        | ((d', s'), Inl e) \<Rightarrow> (s', Inl e)))"


section \<open>Methods of a domain\<close>

definition emit_state_changed_event :: "('l, 't, unit) domain_act" where
  "emit_state_changed_event =
     act_bind (self (\<lambda>d. (dom_id d, dom_state d))) (\<lambda>(i, st). deposit (DomainStateChanged i st))"

definition is_allowlist_empty :: "'t domain \<Rightarrow> ('l, 't) agg_storage \<Rightarrow> bool" where
  "is_allowlist_empty d s \<longleftrightarrow>
     dom_proof_rules d \<noteq> ProofOnlyAllowlisted \<or> SubmittersAllowlist s (dom_id d) = []"

definition update_hold_state :: "('l, 't, unit) domain_act" where
  "update_hold_state =
     modify (\<lambda>(d, s).
       (d\<lparr>dom_state :=
            (if dom_should_publish d = [] \<and> ag_statements (dom_next d) = [] \<and> is_allowlist_empty d s
             then Removable else Hold)\<rparr>, s))"

definition handle_hold_state :: "('l, 't, unit) domain_act" where
  "handle_hold_state =
     act_bind (self dom_state) (\<lambda>old_state.
       if old_state = Ready then act_return ()
       else act_then update_hold_state
         (act_bind (self dom_state) (\<lambda>new_state.
           if old_state \<noteq> new_state then emit_state_changed_event else act_return ())))"

text \<open>The new aggregation asserts that its size is within the bound of the configuration.\<close>

definition pop_next_aggregation :: "('l, 't) agg_config \<Rightarrow> ('l, 't, aggregation option) domain_act" where
  "pop_next_aggregation cfg =
     act_bind (self dom_next) (\<lambda>old.
       if ag_statements old = [] then act_return None
       else act_then (ensure (ag_size old \<le> AggregationSize cfg) (PanicErr ''Aggregation size is out of bound''))
         (case create_next old (ag_size old) of
            Some new_aggregation \<Rightarrow>
              act_then (set_self (\<lambda>d. d\<lparr>dom_next := new_aggregation\<rparr>)) (act_return (Some old))
          | None \<Rightarrow>
              act_then (set_self (\<lambda>d. d\<lparr>dom_state := Hold\<rparr>))
              (act_then emit_state_changed_event
              (act_then (set_self (\<lambda>d. d\<lparr>dom_next := aggregation_create 0 (ag_size old)\<rparr>))
              (act_return (Some old))))))"

definition is_next_aggregation_complete :: "'t domain \<Rightarrow> bool" where
  "is_next_aggregation_complete d \<longleftrightarrow> ag_size (dom_next d) \<le> length (ag_statements (dom_next d))"

definition push_statement :: "statement_entry \<Rightarrow> 't domain \<Rightarrow> 't domain" where
  "push_statement e d =
     d\<lparr>dom_next := (dom_next d)\<lparr>ag_statements := ag_statements (dom_next d) @ [e]\<rparr>\<rparr>"

definition append_statement ::
  "('l, 't) agg_config \<Rightarrow> account \<Rightarrow> reserve \<Rightarrow> h256 \<Rightarrow> ('l, 't, aggregation option) domain_act"
where
  "append_statement cfg account reserve statement =
     act_bind (self (\<lambda>d. length (ag_statements (dom_next d)))) (\<lambda>n.
       act_then (ensure (n < AggregationSize cfg)
         (PanicErr ''Should not append statement if domain is full; qed''))
       (act_then (set_self (push_statement
          \<lparr>se_account = account, se_reserve = reserve, se_statement = statement\<rparr>))
       (act_bind (self is_next_aggregation_complete) (\<lambda>full.
         if full then pop_next_aggregation cfg else act_return None))))"

definition available_aggregation :: "('l, 't) agg_config \<Rightarrow> aggregation \<Rightarrow> ('l, 't, unit) domain_act" where
  "available_aggregation cfg aggregation =
     act_bind (self dom_id) (\<lambda>i.
       act_then (deposit (AggregationComplete i (ag_id aggregation)))
       (act_bind (self dom_should_publish) (\<lambda>queue.
         act_then (ensure (ag_id aggregation \<in> fst ` set queue \<or>
             length queue < MaxPendingPublishQueueSize cfg)
           (PanicErr ''Should not publish aggregation if it's not possible; qed''))
         (act_then (set_self (\<lambda>d. d\<lparr>dom_should_publish :=
             btree_insert (ag_id aggregation) aggregation (dom_should_publish d)\<rparr>))
         (act_bind (self (\<lambda>d. dom_publish_queue_size d \<le> length (dom_should_publish d))) (\<lambda>full.
           if full then deposit (DomainFull i) else act_return ()))))))"

definition take_aggregation ::
  "('l, 't) agg_config \<Rightarrow> nat \<Rightarrow> ('l, 't, aggregation option) domain_act"
where
  "take_aggregation cfg i =
     act_bind (self dom_next) (\<lambda>next.
       if ag_id next = i then pop_next_aggregation cfg
       else act_bind (self dom_should_publish) (\<lambda>queue.
         act_then (set_self (\<lambda>d. d\<lparr>dom_should_publish := filter (\<lambda>e. fst e \<noteq> i) queue\<rparr>))
           (act_return (map_of queue i))))"

definition is_authorized_to_add_proof :: "account \<Rightarrow> ('l, 't, bool) domain_act" where
  "is_authorized_to_add_proof account =
     act_bind (gets (\<lambda>(d, s). (d, SubmittersAllowlist s (dom_id d)))) (\<lambda>(d, allowed).
       case dom_proof_rules d of
         ProofUntrusted \<Rightarrow> act_return True
       | ProofOnlyOwner \<Rightarrow>
           (case user_account (dom_owner d) of
              None \<Rightarrow> act_fail (PanicErr ''The domain does not have an owner; qed'')
            | Some owner \<Rightarrow> act_return (account = owner))
       | ProofOnlyAllowlisted \<Rightarrow> act_return (account \<in> set allowed))"

definition hold_funds :: "('l, 't) agg_config \<Rightarrow> hold_reason \<Rightarrow> account \<Rightarrow> nat \<Rightarrow> ('l, 't, unit) domain_act" where
  "hold_funds cfg reason account n =
     on_ledger (\<lambda>l. case ho_hold (agg_holds cfg) l reason account n of
       Inl e \<Rightarrow> Inl e | Inr l' \<Rightarrow> Inr ((), l'))"

text \<open>
  \<open>reserve_currency\<close>: the two holds of a statement. When the second one fails the first is released, which
  must not fail.
\<close>

definition reserve_currency :: "('l, 't) agg_config \<Rightarrow> account \<Rightarrow> ('l, 't, reserve) domain_act" where
  "reserve_currency cfg account =
     act_bind (self (\<lambda>d. d)) (\<lambda>d.
       let estimated = estimate_call_fee cfg (dom_max_aggregation_size d);
           tip = (case compute_tip cfg estimated of Some t \<Rightarrow> t | None \<Rightarrow> 0);
           aggregate = saturating_add estimated tip div ag_size (dom_next d);
           fee = total_fee (dom_delivery d) div ag_size (dom_next d) in
       act_then (ensure (ag_size (dom_next d) \<noteq> 0) (PanicErr ''attempt to divide by zero''))
       (act_then (hold_funds cfg AggregationReason account aggregate)
       (\<lambda>w. case hold_funds cfg DeliveryReason account fee w of
          (w', Inr _) \<Rightarrow> (w', Inr \<lparr>rs_aggregate = aggregate, rs_delivery = fee\<rparr>)
        | ((d', s'), Inl e) \<Rightarrow>
            (case ho_release_exact (agg_holds cfg) (agg_ledger s') AggregationReason account aggregate of
               Inl _ \<Rightarrow> ((d', s'), Inl (PanicErr ''Should be present because we hold it just before: qed''))
             | Inr l \<Rightarrow> ((d', s'\<lparr>agg_ledger := l\<rparr>), Inl e)))))"


section \<open>The callback for verified proofs\<close>

definition refuse_proof :: "h256 \<Rightarrow> cannot_aggregate \<Rightarrow> ('l, 't, unit) domain_act" where
  "refuse_proof statement cause = deposit (CannotAggregate statement cause)"

definition add_verified_proof ::
  "('l, 't) agg_config \<Rightarrow> account \<Rightarrow> nat \<Rightarrow> h256 \<Rightarrow> reserve \<Rightarrow> ('l, 't, unit) domain_act"
where
  "add_verified_proof cfg account domain_id statement reserve =
     act_bind (self (\<lambda>d. ag_id (dom_next d))) (\<lambda>aggregation_id.
       act_then (deposit (NewProof statement domain_id aggregation_id))
       (act_bind (append_statement cfg account reserve statement) (\<lambda>to_publish.
         act_then (case to_publish of
             Some aggregation \<Rightarrow> available_aggregation cfg aggregation
           | None \<Rightarrow> act_return ())
         handle_hold_state)))"

definition proof_for_domain ::
  "('l, 't) agg_config \<Rightarrow> account \<Rightarrow> nat \<Rightarrow> h256 \<Rightarrow> ('l, 't, unit) domain_act"
where
  "proof_for_domain cfg account domain_id statement =
     act_bind (self (\<lambda>d. d)) (\<lambda>d.
       if dom_state d \<noteq> Ready
       then refuse_proof statement (WrongDomainState domain_id (dom_state d))
       else if \<not> can_add_statement d
       then refuse_proof statement (DomainStorageFull domain_id)
       else act_bind (is_authorized_to_add_proof account) (\<lambda>authorized.
         if \<not> authorized then refuse_proof statement UnauthorizedUser
         else (\<lambda>w. case reserve_currency cfg account w of
             (w', Inr reserve) \<Rightarrow> add_verified_proof cfg account domain_id statement reserve w'
           | (w', Inl (PanicErr msg)) \<Rightarrow> (w', Inl (PanicErr msg))
           | (w', Inl _) \<Rightarrow> refuse_proof statement InsufficientFunds w')))"

definition on_proof_verified ::
  "('l, 't) agg_config \<Rightarrow> account option \<Rightarrow> nat option \<Rightarrow> h256 \<Rightarrow> ('l, 't, unit) agg_act"
where
  "on_proof_verified cfg account domain_id statement =
     (case account of
        None \<Rightarrow> agg_deposit (CannotAggregate statement NoAccount)
      | Some account \<Rightarrow>
          (case domain_id of
             None \<Rightarrow> act_return ()
           | Some domain_id \<Rightarrow> (\<lambda>s.
               case Domains s domain_id of
                 None \<Rightarrow> agg_deposit (CannotAggregate statement (DomainNotRegistered domain_id)) s
               | Some _ \<Rightarrow> try_mutate domain_id (proof_for_domain cfg account domain_id statement) s)))"


section \<open>Users\<close>

definition user_from_origin :: "('l, 't) agg_config \<Rightarrow> origin \<Rightarrow> ('s, agg_error, user) storage_act" where
  "user_from_origin cfg origin =
     (if agg_manager cfg origin then act_return Manager
      else act_bind (ensure_signed origin) (\<lambda>a. act_return (Account a)))"

fun can_handle_domain :: "user \<Rightarrow> 't domain \<Rightarrow> bool" where
  "can_handle_domain (Account a) d = (dom_owner d = Account a)"
| "can_handle_domain Manager d = True"

fun can_set_total_delivery_fee :: "user \<Rightarrow> 't domain \<Rightarrow> bool" where
  "can_set_total_delivery_fee (Account a) d = (dom_owner d = Account a \<or> dom_delivery_owner d = a)"
| "can_set_total_delivery_fee Manager d = True"

definition can_create_domain :: "user \<Rightarrow> Destination \<Rightarrow> bool" where
  "can_create_domain u dest = True"

definition is_owner_auth :: "user \<Rightarrow> user \<Rightarrow> account \<Rightarrow> bool" where
  "is_owner_auth aggregator domain_owner delivery_owner \<longleftrightarrow>
     user_account aggregator = Some delivery_owner \<or> aggregator = domain_owner \<or> aggregator = Manager"

fun can_user_aggregate_it :: "aggregate_rule \<Rightarrow> user \<Rightarrow> user \<Rightarrow> account \<Rightarrow> aggregation \<Rightarrow> bool" where
  "can_user_aggregate_it AggUntrusted u d_owner owner a = True"
| "can_user_aggregate_it AggOnlyOwner u d_owner owner a = is_owner_auth u d_owner owner"
| "can_user_aggregate_it AggOnlyOwnerUncompleted u d_owner owner a =
     (ag_completed a \<or> is_owner_auth u d_owner owner)"


section \<open>Calls\<close>

definition handle_held_funds ::
  "('l, 't) agg_config \<Rightarrow> hold_reason \<Rightarrow> account \<Rightarrow> account option \<Rightarrow> nat \<Rightarrow> 'l \<Rightarrow> 'l"
where
  "handle_held_funds cfg reason account dest amount l =
     (let release = (case ho_release (agg_holds cfg) l reason account amount of
                       Inr (x, l') \<Rightarrow> l' | Inl _ \<Rightarrow> l) in
      case dest of
        None \<Rightarrow> release
      | Some dest \<Rightarrow>
          (case ho_transfer_on_hold (agg_holds cfg) l reason account dest amount of
             Inr (x, l') \<Rightarrow> l'
           | Inl _ \<Rightarrow> release))"

definition pay_statement ::
  "('l, 't) agg_config \<Rightarrow> account option \<Rightarrow> account \<Rightarrow> statement_entry \<Rightarrow> 'l \<Rightarrow> 'l"
where
  "pay_statement cfg aggregator delivery_owner e l =
     handle_held_funds cfg DeliveryReason (se_account e) (Some delivery_owner) (rs_delivery (se_reserve e))
       (handle_held_funds cfg AggregationReason (se_account e) aggregator (rs_aggregate (se_reserve e)) l)"

definition compute_receipt :: "('l, 't) agg_config \<Rightarrow> aggregation \<Rightarrow> h256" where
  "compute_receipt cfg a = tree_root cfg (map se_statement (ag_statements a))"

definition publish_aggregation ::
  "('l, 't) agg_config \<Rightarrow> user \<Rightarrow> nat \<Rightarrow> nat \<Rightarrow> ('l, 't, h256 \<times> 't domain) domain_act"
where
  "publish_aggregation cfg aggregator domain_id aggregation_id =
     act_bind (take_aggregation cfg aggregation_id) (\<lambda>taken.
       case taken of
         None \<Rightarrow> act_fail (ModuleErr InvalidAggregationId)
       | Some aggregation \<Rightarrow>
           act_bind (self (\<lambda>d. d)) (\<lambda>d.
             act_then (ensure (can_user_aggregate_it (dom_aggregate_rules d) aggregator (dom_owner d)
                 (dom_delivery_owner d) aggregation) BadOrigin)
             (act_then (modify (\<lambda>(d, s). (d, s\<lparr>
                 agg_ledger := fold (pay_statement cfg (user_account aggregator) (dom_delivery_owner d))
                   (ag_statements aggregation) (agg_ledger s),
                 Published := Published s @ [(domain_id, aggregation)]\<rparr>)))
             (act_then handle_hold_state
             (act_bind (self (\<lambda>d. d)) (\<lambda>d.
               act_return (compute_receipt cfg aggregation, d)))))))"

definition aggregate :: "('l, 't) agg_config \<Rightarrow> origin \<Rightarrow> nat \<Rightarrow> nat \<Rightarrow> ('l, 't, unit) agg_act" where
  "aggregate cfg origin domain_id aggregation_id =
     act_bind (user_from_origin cfg origin) (\<lambda>aggregator.
     act_bind (try_mutate domain_id (publish_aggregation cfg aggregator domain_id aggregation_id))
       (\<lambda>(root, d).
         act_then (agg_deposit (NewAggregationReceipt domain_id aggregation_id root))
           (case dispatch_aggregation cfg domain_id aggregation_id root
               (dl_destination (dom_delivery d)) (dl_fee (dom_delivery d)) (dom_delivery_owner d) of
              Inl e \<Rightarrow> act_fail (OtherErr e)
            | Inr ok \<Rightarrow> act_return ok)))"

definition new_ticket ::
  "('l, 't) consideration \<Rightarrow> account option \<Rightarrow> nat \<Rightarrow> nat \<Rightarrow> ('l, 't, 't option) agg_act"
where
  "new_ticket c owner items bytes s =
     (case owner of
        None \<Rightarrow> (s, Inr None)
      | Some a \<Rightarrow> (case co_new c (agg_ledger s) a items bytes of
          Inl e \<Rightarrow> (s, Inl (TokenErr e))
        | Inr (t, l) \<Rightarrow> (s\<lparr>agg_ledger := l\<rparr>, Inr (Some t))))"

text \<open>
  The asserts of the constructors \<open>DomainEntry::create\<close> and \<open>AggregationEntry::new\<close> repeat the check that
  \<open>try_create\<close> makes right before.
\<close>

definition register_domain ::
  "('l, 't) agg_config \<Rightarrow> origin \<Rightarrow> nat \<Rightarrow> nat option \<Rightarrow> aggregate_rule \<Rightarrow> proof_rule \<Rightarrow> delivery \<Rightarrow>
   account option \<Rightarrow> ('l, 't, unit) agg_act"
where
  "register_domain cfg origin aggregation_size queue_size aggregate_rules proof_rules delivery delivery_owner =
     act_bind (user_from_origin cfg origin) (\<lambda>caller.
       act_then (ensure (can_create_domain caller (dl_destination delivery)) BadOrigin)
       (case (case delivery_owner of Some a \<Rightarrow> Some a | None \<Rightarrow> user_account caller) of
          None \<Rightarrow> act_fail (ModuleErr MissedDeliveryOwnership)
        | Some delivery_owner \<Rightarrow>
            act_bind (gets NextDomainId) (\<lambda>i.
            act_then (ensure (i \<noteq> u32_max) (ModuleErr InvalidDomainParams))
            (let queue = (case queue_size of Some n \<Rightarrow> n | None \<Rightarrow> MaxPendingPublishQueueSize cfg) in
             act_bind (new_ticket (ConsiderationDomain cfg) (user_account caller) 1
                 (domain_encoded_size (encoded cfg) aggregation_size queue (dl_destination delivery)))
               (\<lambda>ticket_domain.
             act_bind (if proof_rules = ProofOnlyAllowlisted
                 then new_ticket (ConsiderationAllowList cfg) (user_account caller) 0 0
                 else act_return None) (\<lambda>ticket_allowlist.
             act_then (ensure (aggregation_size \<noteq> 0 \<and> queue \<noteq> 0 \<and> aggregation_size \<le> AggregationSize cfg \<and>
                 queue \<le> MaxPendingPublishQueueSize cfg) (ModuleErr InvalidDomainParams))
             (act_then (modify (\<lambda>s. s\<lparr>
                 Domains := (Domains s)(i := Some
                   \<lparr>dom_id = i, dom_owner = caller, dom_state = Ready,
                    dom_next = aggregation_create 1 aggregation_size,
                    dom_max_aggregation_size = aggregation_size, dom_should_publish = [],
                    dom_publish_queue_size = queue, dom_ticket_domain = ticket_domain,
                    dom_ticket_allowlist = map_option (\<lambda>t. (t, 0)) ticket_allowlist,
                    dom_aggregate_rules = aggregate_rules, dom_proof_rules = proof_rules,
                    dom_delivery_owner = delivery_owner, dom_delivery = delivery\<rparr>),
                 NextDomainId := i + 1\<rparr>))
             (agg_deposit (NewDomain i)))))))))"

definition hold_domain :: "('l, 't) agg_config \<Rightarrow> origin \<Rightarrow> nat \<Rightarrow> ('l, 't, unit) agg_act" where
  "hold_domain cfg origin domain_id =
     act_bind (user_from_origin cfg origin) (\<lambda>owner.
       try_mutate domain_id
         (act_bind (self (\<lambda>d. d)) (\<lambda>d.
           act_then (ensure (can_handle_domain owner d) BadOrigin)
           (act_then (ensure (dom_state d = Ready) (ModuleErr InvalidDomainState))
           (act_then update_hold_state emit_state_changed_event)))))"

text \<open>Dropping a ticket never stops the call: a failure is only reported.\<close>

definition drop_ticket :: "('l, 't) consideration \<Rightarrow> account option \<Rightarrow> 't option \<Rightarrow> 'l \<Rightarrow> 'l" where
  "drop_ticket c owner ticket l =
     (case (owner, ticket) of
        (Some a, Some t) \<Rightarrow> (case co_drop c l t a of Inr l' \<Rightarrow> l' | Inl _ \<Rightarrow> l)
      | _ \<Rightarrow> l)"

definition unregister_domain :: "('l, 't) agg_config \<Rightarrow> origin \<Rightarrow> nat \<Rightarrow> ('l, 't, unit) agg_act" where
  "unregister_domain cfg origin domain_id =
     act_bind (user_from_origin cfg origin) (\<lambda>owner s.
       case Domains s domain_id of
         None \<Rightarrow> (s, Inl (ModuleErr UnknownDomainId))
       | Some d \<Rightarrow>
           if \<not> can_handle_domain owner d then (s, Inl BadOrigin)
           else if dom_state d \<noteq> Removable then (s, Inl (ModuleErr InvalidDomainState))
           else
             (let payer = (case user_account owner of Some a \<Rightarrow> Some a | None \<Rightarrow> user_account (dom_owner d)) in
              (s\<lparr>agg_ledger :=
                   drop_ticket (ConsiderationAllowList cfg) payer (map_option fst (dom_ticket_allowlist d))
                     (drop_ticket (ConsiderationDomain cfg) payer (dom_ticket_domain d) (agg_ledger s)),
                 agg_events := agg_events s @ [DomainStateChanged (dom_id d) Removed],
                 Domains := (Domains s)(domain_id := None)\<rparr>, Inr ())))"

definition set_total_delivery_fee ::
  "('l, 't) agg_config \<Rightarrow> origin \<Rightarrow> nat \<Rightarrow> nat \<Rightarrow> nat \<Rightarrow> ('l, 't, unit) agg_act"
where
  "set_total_delivery_fee cfg origin domain_id fee owner_tip =
     act_bind (user_from_origin cfg origin) (\<lambda>owner.
       try_mutate domain_id
         (act_bind (self (\<lambda>d. d)) (\<lambda>d.
           act_then (ensure (can_set_total_delivery_fee owner d) BadOrigin)
             (set_self (\<lambda>d. d\<lparr>dom_delivery := (dom_delivery d)\<lparr>dl_fee := fee, dl_owner_tip := owner_tip\<rparr>\<rparr>)))))"

text \<open>
  The footprint of the allowlist follows the number of its entries. The count is a 32-bit number with
  checked operations; an owner that is no account has no ticket.
\<close>

definition update_footprint :: "('l, 't) agg_config \<Rightarrow> (nat \<Rightarrow> nat option) \<Rightarrow> ('l, 't, unit) domain_act" where
  "update_footprint cfg change =
     act_bind (self (\<lambda>d. d)) (\<lambda>d.
       case (user_account (dom_owner d), dom_ticket_allowlist d) of
         (Some owner, Some (ticket, old)) \<Rightarrow>
           (case change old of
              None \<Rightarrow> act_fail (ModuleErr InvalidDomainParams)
            | Some n \<Rightarrow>
                act_bind (on_ledger (\<lambda>l. co_update (ConsiderationAllowList cfg) l ticket owner n 0))
                  (\<lambda>ticket. set_self (\<lambda>d. d\<lparr>dom_ticket_allowlist := Some (ticket, n)\<rparr>)))
       | _ \<Rightarrow> act_return ())"

definition increase_footprint_count :: "('l, 't) agg_config \<Rightarrow> nat \<Rightarrow> ('l, 't, unit) domain_act" where
  "increase_footprint_count cfg amount =
     update_footprint cfg (\<lambda>old.
       if old + min amount u32_max \<le> u32_max then Some (old + min amount u32_max) else None)"

definition decrease_footprint_count :: "('l, 't) agg_config \<Rightarrow> nat \<Rightarrow> ('l, 't, unit) domain_act" where
  "decrease_footprint_count cfg amount =
     update_footprint cfg (\<lambda>old.
       if min amount u32_max \<le> old then Some (old - min amount u32_max) else None)"

text \<open>The loops insert what is not yet there, and remove what is there, one account after the other.\<close>

fun allow_new :: "account list \<Rightarrow> account list \<Rightarrow> account list \<times> nat" where
  "allow_new [] allowed = (allowed, 0)"
| "allow_new (a # as) allowed =
     (if a \<in> set allowed then allow_new as allowed
      else (case allow_new as (allowed @ [a]) of (allowed', n) \<Rightarrow> (allowed', n + 1)))"

fun disallow :: "account list \<Rightarrow> account list \<Rightarrow> account list \<times> nat" where
  "disallow [] allowed = (allowed, 0)"
| "disallow (a # as) allowed =
     (if a \<in> set allowed
      then (case disallow as (filter (\<lambda>x. x \<noteq> a) allowed) of (allowed', n) \<Rightarrow> (allowed', n + 1))
      else disallow as allowed)"

definition change_allowlist ::
  "(account list \<Rightarrow> account list \<times> nat) \<Rightarrow> ('l, 't, nat) domain_act"
where
  "change_allowlist f = (\<lambda>(d, s).
     case f (SubmittersAllowlist s (dom_id d)) of
       (allowed, n) \<Rightarrow>
         ((d, s\<lparr>SubmittersAllowlist := (SubmittersAllowlist s)(dom_id d := allowed)\<rparr>), Inr n))"

definition allowlist_proof_submitters ::
  "('l, 't) agg_config \<Rightarrow> origin \<Rightarrow> nat \<Rightarrow> account list \<Rightarrow> ('l, 't, unit) agg_act"
where
  "allowlist_proof_submitters cfg origin domain_id submitters =
     act_bind (user_from_origin cfg origin) (\<lambda>owner.
       try_mutate domain_id
         (act_bind (self (\<lambda>d. d)) (\<lambda>d.
           act_then (ensure (can_handle_domain owner d) BadOrigin)
           (act_then (ensure (dom_state d = Ready) (ModuleErr InvalidDomainParams))
           (act_then (ensure (dom_proof_rules d = ProofOnlyAllowlisted) (ModuleErr InvalidDomainParams))
           (act_bind (change_allowlist (allow_new submitters)) (increase_footprint_count cfg)))))))"

definition remove_proof_submitters ::
  "('l, 't) agg_config \<Rightarrow> origin \<Rightarrow> nat \<Rightarrow> account list \<Rightarrow> ('l, 't, unit) agg_act"
where
  "remove_proof_submitters cfg origin domain_id submitters =
     act_bind (user_from_origin cfg origin) (\<lambda>owner.
       try_mutate domain_id
         (act_bind (self (\<lambda>d. d)) (\<lambda>d.
           act_then (ensure (can_handle_domain owner d) BadOrigin)
           (act_then (ensure (dom_proof_rules d = ProofOnlyAllowlisted) (ModuleErr InvalidDomainParams))
           (act_bind (change_allowlist (disallow submitters)) (\<lambda>n.
             act_then (decrease_footprint_count cfg n) handle_hold_state))))))"

datatype agg_call =
    Aggregate origin nat nat
  | RegisterDomain origin nat "nat option" aggregate_rule proof_rule delivery "account option"
  | HoldDomain origin nat
  | UnregisterDomain origin nat
  | SetTotalDeliveryFee origin nat nat nat
  | AllowlistProofSubmitters origin nat "account list"
  | RemoveProofSubmitters origin nat "account list"
  | ProofVerified "account option" "nat option" h256

fun agg_call_body :: "('l, 't) agg_config \<Rightarrow> agg_call \<Rightarrow> ('l, 't, unit) agg_act" where
  "agg_call_body cfg (Aggregate og i a) = aggregate cfg og i a"
| "agg_call_body cfg (RegisterDomain og n q ar pr dl ow) = register_domain cfg og n q ar pr dl ow"
| "agg_call_body cfg (HoldDomain og i) = hold_domain cfg og i"
| "agg_call_body cfg (UnregisterDomain og i) = unregister_domain cfg og i"
| "agg_call_body cfg (SetTotalDeliveryFee og i fee tip) = set_total_delivery_fee cfg og i fee tip"
| "agg_call_body cfg (AllowlistProofSubmitters og i as) = allowlist_proof_submitters cfg og i as"
| "agg_call_body cfg (RemoveProofSubmitters og i as) = remove_proof_submitters cfg og i as"
| "agg_call_body cfg (ProofVerified account i st) = on_proof_verified cfg account i st"

definition agg_dispatch :: "('l, 't) agg_config \<Rightarrow> agg_call \<Rightarrow> ('l, 't, unit) agg_act" where
  "agg_dispatch cfg c = transactional (agg_call_body cfg c)"

definition agg_on_initialize :: "('l, 't) agg_storage \<Rightarrow> ('l, 't) agg_storage" where
  "agg_on_initialize s = s\<lparr>Published := []\<rparr>"


section \<open>The Merkle path of a published statement\<close>

datatype path_request_error =
    StatementNotFound nat nat h256
  | ReceiptNotPublished nat nat
  | IndexOutOfBounds

text \<open>The position of the first element that satisfies a predicate.\<close>

fun position :: "('a \<Rightarrow> bool) \<Rightarrow> 'a list \<Rightarrow> nat option" where
  "position P [] = None"
| "position P (x # xs) = (if P x then Some 0 else map_option Suc (position P xs))"

definition get_statement_path ::
  "('l, 't) agg_config \<Rightarrow> ('l, 't) agg_storage \<Rightarrow> nat \<Rightarrow> nat \<Rightarrow> h256 \<Rightarrow> path_request_error + merkle_path"
where
  "get_statement_path cfg s domain_id aggregation_id statement =
     (case find (\<lambda>(i, a). i = domain_id \<and> ag_id a = aggregation_id) (Published s) of
        None \<Rightarrow> Inl (ReceiptNotPublished domain_id aggregation_id)
      | Some (_, a) \<Rightarrow>
          (case position (\<lambda>e. se_statement e = statement) (ag_statements a) of
             None \<Rightarrow> Inl (StatementNotFound domain_id aggregation_id statement)
           | Some index \<Rightarrow>
               if u32_max < index then Inl IndexOutOfBounds
               else Inr (tree_proof cfg (map se_statement (ag_statements a)) index)))"

end
