(* ===== verification/RuntimeConfig.thy ===== *)
theory RuntimeConfig
  imports CurveVerifiers AggregatePallet
begin

text \<open>
  How the runtime (\<open>runtime/zkverify/src/lib.rs\<close>) puts the pallets of the proofs together: nine instances of
  the pallet of the verifiers, each with its own storage, report the proofs they verified to the pallet that
  aggregates them; deposits for keys are held on the ledger of that pallet; the TEE verifier reads
  the revocation lists of the CRL pallet and the time of the block. The values of the cryptographic libraries
  all have the type \<open>'v\<close>.
\<close>


section \<open>Benchmarked weights\<close>

definition time_only :: "nat \<Rightarrow> dispatch_weight" where
  "time_only n = \<lparr>ref_time = n, proof_size = 0\<rparr>"

definition weight_saturating_add :: "dispatch_weight \<Rightarrow> dispatch_weight \<Rightarrow> dispatch_weight" where
  "weight_saturating_add a b =
     \<lparr>ref_time = min (ref_time a + ref_time b) u64_max, proof_size = min (proof_size a + proof_size b) u64_max\<rparr>"

definition intel_verify_proof :: "(nat \<Rightarrow> dispatch_weight) \<Rightarrow> dispatch_weight" where
  "intel_verify_proof db_reads = weight_saturating_add \<lparr>ref_time = 7288678000, proof_size = 2913549\<rparr> (db_reads 2)"

definition nitro_verify_proof :: "(nat \<Rightarrow> dispatch_weight) \<Rightarrow> dispatch_weight" where
  "nitro_verify_proof db_reads = weight_saturating_add \<lparr>ref_time = 51021198000, proof_size = 2913549\<rparr> (db_reads 2)"

definition risc0_runtime_weights :: risc0_weights where
  "risc0_runtime_weights =
     \<lparr>w_succinct = time_only 28824883000,
      w_poseidon2_16 = time_only 27709367000,
      w_poseidon2_17 = time_only 29923877000,
      w_poseidon2_18 = time_only 31805829000,
      w_poseidon2_19 = time_only 33704091000,
      w_poseidon2_20 = time_only 35908693000,
      w_poseidon2_21 = time_only 38416219000\<rparr>"

definition per_circuit_size :: "nat \<Rightarrow> nat \<Rightarrow> nat \<Rightarrow> dispatch_weight" where
  "per_circuit_size base slope n = time_only (min (base + min (slope * n) u64_max) u64_max)"

definition uh_runtime_weights :: uh_weights where
  "uh_runtime_weights =
     \<lparr>verify_zk_proof_v3_0 = per_circuit_size 2697286924 37187085,
      verify_plain_proof_v3_0 = per_circuit_size 2485554847 33699744,
      verify_zk_proof_v0_84 = time_only 4013918000,
      verify_plain_proof_v0_84 = time_only 3731581000\<rparr>"

text \<open>The degrees from 2 to 19 in their order.\<close>

definition poseidon_times :: "nat list" where
  "poseidon_times =
     [10824905000, 11865619000, 12940367000, 14005748000, 17185018000, 18480268000, 19798882000, 21138124000, 24620600000,
      26115633000, 27685626000, 29329818000, 32961904000, 34781855000, 36742207000, 38558470000, 42429514000, 44572006000]"

definition keccak_times :: "nat list" where
  "keccak_times =
     [1410716000, 1504481000, 1609798000, 1718050000, 2728648000, 2851378000, 2972884000, 3101053000, 4123033000,
      4267132000, 4401764000, 4556112000, 5592528000, 5757236000, 5924429000, 6202398000, 7215581000, 7355953000]"

definition p2_runtime_weights :: p2_weights where
  "p2_runtime_weights =
     \<lparr>poseidon_uncompressed = (\<lambda>d. time_only (poseidon_times ! (d - 2))),
      keccak_uncompressed = (\<lambda>d. time_only (keccak_times ! (d - 2)))\<rparr>"


section \<open>What the verifiers see of the chain\<close>

record ('l, 't) hub =
  hub_agg :: "('l, 't) agg_storage"
  hub_crl :: crl_storage
  hub_time :: nat

text \<open>
  The pallet of the aggregations as the callback of the verifiers. Its method returns nothing, so that only a
  panic reaches the verifier.
\<close>

definition aggregate_callback ::
  "('l, 't) agg_config \<Rightarrow> dispatch_weight \<Rightarrow> ('l, 't) hub proof_callback"
where
  "aggregate_callback cfg w =
     \<lparr>cb_on_proof_verified = (\<lambda>account domain_id statement x.
        case on_proof_verified cfg account domain_id statement (hub_agg x) of
          (s, Inl (PanicErr msg)) \<Rightarrow> (x\<lparr>hub_agg := s\<rparr>, Some msg)
        | (s, _) \<Rightarrow> (x\<lparr>hub_agg := s\<rparr>, None)),
      cb_weight = (\<lambda>domain_id. case domain_id of Some _ \<Rightarrow> w | None \<Rightarrow> no_weight)\<rparr>"

definition set_ledger :: "'l \<Rightarrow> ('l, 't) hub \<Rightarrow> ('l, 't) hub" where
  "set_ledger l x = x\<lparr>hub_agg := (hub_agg x)\<lparr>agg_ledger := l\<rparr>\<rparr>"

definition hub_tickets :: "('l, 'd) consideration \<Rightarrow> (('l, 't) hub, 'd) consideration" where
  "hub_tickets c =
     \<lparr>co_new = (\<lambda>x a n b. case co_new c (agg_ledger (hub_agg x)) a n b of
        Inl e \<Rightarrow> Inl e | Inr (t, l) \<Rightarrow> Inr (t, set_ledger l x)),
      co_update = (\<lambda>x t a n b. case co_update c (agg_ledger (hub_agg x)) t a n b of
        Inl e \<Rightarrow> Inl e | Inr (t', l) \<Rightarrow> Inr (t', set_ledger l x)),
      co_drop = (\<lambda>x t a. case co_drop c (agg_ledger (hub_agg x)) t a of
        Inl e \<Rightarrow> Inl e | Inr l \<Rightarrow> Inr (set_ledger l x))\<rparr>"


section \<open>The configuration\<close>

text \<open>
  The names of the authorities, and the limits: 32 inputs for ezkl, ultrahonk and ultraplonk, 64 for Groth16,
  64 words for sp1 and risc0.
\<close>

fun tee_ca_name :: "tee_vk \<Rightarrow> string" where
  "tee_ca_name (Intel r c) = ''Intel_SGX_Processor''"
| "tee_ca_name Nitro = ''AWS_Nitro''"

text \<open>
  What is given from outside: the libraries, the hash, the codec, the deposits, and the weights that no
  theorem depends on.
\<close>

record ('l, 't, 'v) runtime_config =
  rt_agg :: "('l, 't) agg_config"
  rt_parse_pem :: "string \<Rightarrow> string \<Rightarrow> string option \<Rightarrow> nat \<Rightarrow> (nat \<times> Crl) option"
  rt_parse_der :: "string \<Rightarrow> string \<Rightarrow> string option \<Rightarrow> nat \<Rightarrow> (nat \<times> Crl) option"
  rt_blake2 :: "string \<Rightarrow> h256"
  rt_keccak :: "string \<Rightarrow> h256"
  rt_sha2 :: "string \<Rightarrow> h256"
  rt_deposits :: "('l, 't) consideration"
  rt_db_reads :: "nat \<Rightarrow> dispatch_weight"
  rt_callback_weight :: dispatch_weight
  rt_weights :: "string \<Rightarrow> flat_weights"
  rt_groth16_weights :: g16_weights
  rt_ezkl_encode :: "string \<Rightarrow> string"
  rt_tee_lib :: "('v, 'v, 'v) tee_library"
  rt_tee_encode :: "tee_vk \<Rightarrow> string"
  rt_risc0_lib :: "('v, 'v) risc0_library"
  rt_uh_lib :: "'v uh_library"
  rt_uh_encode :: "VersionedVk \<Rightarrow> string"
  rt_p2_lib :: "'v p2_library"
  rt_p2_encode :: "VkWithConfig \<Rightarrow> string"
  rt_ark :: "('v, 'v, 'v) ark_library"
  rt_g16_encode :: "VerificationKeyWithCurve \<Rightarrow> string"
  rt_bn :: "('v, 'v, 'v, 'v, 'v) bn_library"
  rt_ff_proof :: "string \<Rightarrow> 'v option"
  rt_ff_verify :: "('v, 'v, 'v) ff_key \<Rightarrow> 'v \<Rightarrow> string \<Rightarrow> bool"
  rt_ff_encode :: "fflonk_vk \<Rightarrow> string"
  rt_sp1_decode :: "string \<Rightarrow> 'v option"
  rt_sp1_verify :: "h256 \<Rightarrow> 'v \<Rightarrow> string \<Rightarrow> bool"
  rt_ezkl_verify :: "string \<Rightarrow> string \<Rightarrow> string list \<Rightarrow> lib_error option"
  rt_up_proof_size :: nat
  rt_up_vk_size :: nat
  rt_up_verify :: "string \<Rightarrow> string \<Rightarrow> string list \<Rightarrow> lib_error option"
  rt_up_key :: "string \<Rightarrow> bool"

definition crl_of :: "('l, 't, 'v) runtime_config \<Rightarrow> crl_config" where
  "crl_of rc =
     \<lparr>crl_manager = (\<lambda>og. og = Root), MaxCaNameLength = 64,
      parse_crl_pem = rt_parse_pem rc, parse_crl_der = rt_parse_der rc, crl_blake2 = rt_blake2 rc\<rparr>"

definition tee_of :: "('l, 't, 'v) runtime_config \<Rightarrow> (('l, 't) hub, 'v, 'v, 'v) tee_config" where
  "tee_of rc =
     \<lparr>tee_lib = rt_tee_lib rc, tee_now = hub_time, tee_get_crl = (\<lambda>x. get_crl (crl_of rc) (hub_crl x)),
      ca_name_for = tee_ca_name, tee_encode = rt_tee_encode rc, tee_keccak = rt_keccak rc,
      intel_verify_weight = intel_verify_proof (rt_db_reads rc),
      nitro_verify_weight = nitro_verify_proof (rt_db_reads rc)\<rparr>"

definition risc0_of :: "('l, 't, 'v) runtime_config \<Rightarrow> ('v, 'v) risc0_config" where
  "risc0_of rc =
     \<lparr>r0_lib = rt_risc0_lib rc, r0_MaxNSegment = 4, r0_Segment20MaxSize = 350000, r0_MaxPubsSize = 4 + 32 * 64,
      r0_weights = risc0_runtime_weights\<rparr>"

definition ultrahonk_of :: "('l, 't, 'v) runtime_config \<Rightarrow> 'v uh_config" where
  "ultrahonk_of rc =
     \<lparr>uh_lib = rt_uh_lib rc, uh_MaxPubs = 32, uh_encode = rt_uh_encode rc, uh_keccak = rt_keccak rc,
      uh_sha2 = rt_sha2 rc, uh_weights_of = uh_runtime_weights\<rparr>"

definition plonky2_of :: "('l, 't, 'v) runtime_config \<Rightarrow> 'v p2_settings" where
  "plonky2_of rc =
     \<lparr>p2_lib = rt_p2_lib rc, p2_MaxProofSize = 262144, p2_MaxPubsSize = 512, p2_MaxVkSize = 50000,
      p2_encode = rt_p2_encode rc, p2_keccak = rt_keccak rc, p2_weights_of = p2_runtime_weights\<rparr>"

definition groth16_of :: "('l, 't, 'v) runtime_config \<Rightarrow> ('v, 'v, 'v) g16_config" where
  "groth16_of rc =
     \<lparr>g16_lib = rt_ark rc, g16_max_num_inputs = 64, g16_encode = rt_g16_encode rc, g16_keccak = rt_keccak rc\<rparr>"

definition fflonk_of :: "('l, 't, 'v) runtime_config \<Rightarrow> ('v, 'v, 'v, 'v, 'v, 'v) ff_config" where
  "fflonk_of rc =
     \<lparr>ff_bn = rt_bn rc, ff_proof = rt_ff_proof rc, ff_verify = rt_ff_verify rc, ff_encode = rt_ff_encode rc,
      ff_keccak = rt_keccak rc\<rparr>"

definition sp1_of :: "('l, 't, 'v) runtime_config \<Rightarrow> 'v sp1_config" where
  "sp1_of rc = \<lparr>sp1_MaxPubsSize = 32 * 64, sp1_decode = rt_sp1_decode rc, sp1_verify = rt_sp1_verify rc\<rparr>"

definition ezkl_of :: "('l, 't, 'v) runtime_config \<Rightarrow> ezkl_config" where
  "ezkl_of rc = \<lparr>ezkl_MaxPubs = 32, ezkl_verify = rt_ezkl_verify rc, ezkl_keccak = rt_keccak rc\<rparr>"

definition ultraplonk_of :: "('l, 't, 'v) runtime_config \<Rightarrow> up_config" where
  "ultraplonk_of rc =
     \<lparr>up_MaxPubs = 32, up_PROOF_SIZE = rt_up_proof_size rc, up_VK_SIZE = rt_up_vk_size rc,
      up_verify = rt_up_verify rc, try_from_solidity_bytes = rt_up_key rc, up_sha2 = rt_sha2 rc\<rparr>"


section \<open>The instances of the pallet\<close>

definition instance_of ::
  "('l, 't, 'v) runtime_config \<Rightarrow> (('l, 't) hub, 'vk, 'proof, 'pubs) proof_verifier \<Rightarrow>
   ('vk, 'proof, 'pubs) weight_info \<Rightarrow> ('vk \<Rightarrow> nat) \<Rightarrow> (('l, 't) hub, 't, 'vk, 'proof, 'pubs) vf_config"
where
  "instance_of rc V W encoded_size =
     \<lparr>vf_verifier = V, vf_keccak = rt_keccak rc, vf_callback = aggregate_callback (rt_agg rc) (rt_callback_weight rc),
      vf_ticket = hub_tickets (rt_deposits rc), vf_encoded_size = encoded_size, vf_weights = W,
      vf_db_reads = rt_db_reads rc\<rparr>"

definition tee_pallet :: "('l, 't, 'v) runtime_config \<Rightarrow> (('l, 't) hub, 't, tee_vk, string, string) vf_config" where
  "tee_pallet rc =
     instance_of rc (tee_verifier (tee_of rc)) (tee_weights (tee_of rc) (rt_weights rc ''tee''))
       (\<lambda>vk. length (rt_tee_encode rc vk))"

definition ezkl_pallet ::
  "('l, 't, 'v) runtime_config \<Rightarrow> (('l, 't) hub, 't, string, string, string list) vf_config"
where
  "ezkl_pallet rc =
     instance_of rc (ezkl_verifier (ezkl_of rc)) (ezkl_info (rt_weights rc ''ezkl'')) (\<lambda>vk. length (rt_ezkl_encode rc vk))"

definition fflonk_pallet ::
  "('l, 't, 'v) runtime_config \<Rightarrow> (('l, 't) hub, 't, fflonk_vk, string, string) vf_config"
where
  "fflonk_pallet rc =
     instance_of rc (fflonk_verifier (fflonk_of rc)) (fflonk_info (rt_weights rc ''fflonk'')) (\<lambda>vk. length (rt_ff_encode rc vk))"

definition groth16_pallet ::
  "('l, 't, 'v) runtime_config \<Rightarrow>
   (('l, 't) hub, 't, VerificationKeyWithCurve, ProofWithCurve, string list) vf_config"
where
  "groth16_pallet rc =
     instance_of rc (groth16_verifier (groth16_of rc)) (groth16_info (rt_groth16_weights rc))
       (\<lambda>vk. length (rt_g16_encode rc vk))"

definition sp1_pallet :: "('l, 't, 'v) runtime_config \<Rightarrow> (('l, 't) hub, 't, h256, string, string) vf_config" where
  "sp1_pallet rc = instance_of rc (sp1_verifier (sp1_of rc)) (sp1_info (rt_weights rc ''sp1'')) length"

definition risc0_pallet ::
  "('l, 't, 'v) runtime_config \<Rightarrow> (('l, 't) hub, 't, h256, risc0_proof, string) vf_config"
where
  "risc0_pallet rc =
     instance_of rc (risc0_verifier (risc0_of rc)) (risc0_info (risc0_of rc) (rt_weights rc ''risc0'')) length"

definition ultrahonk_pallet ::
  "('l, 't, 'v) runtime_config \<Rightarrow> (('l, 't) hub, 't, VersionedVk, VersionedProof, string list) vf_config"
where
  "ultrahonk_pallet rc =
     instance_of rc (ultrahonk_verifier (ultrahonk_of rc)) (ultrahonk_info (ultrahonk_of rc) (rt_weights rc ''ultrahonk''))
       (\<lambda>vk. length (rt_uh_encode rc vk))"

definition ultraplonk_pallet ::
  "('l, 't, 'v) runtime_config \<Rightarrow> (('l, 't) hub, 't, string, string, string list) vf_config"
where
  "ultraplonk_pallet rc =
     instance_of rc (ultraplonk_verifier (ultraplonk_of rc)) (ultraplonk_info (rt_weights rc ''ultraplonk''))
       length"

definition plonky2_pallet ::
  "('l, 't, 'v) runtime_config \<Rightarrow> (('l, 't) hub, 't, VkWithConfig, string, string) vf_config"
where
  "plonky2_pallet rc =
     instance_of rc (plonky2_verifier (plonky2_of rc)) (plonky2_info (plonky2_of rc) (rt_weights rc ''plonky2''))
       (\<lambda>vk. length (rt_p2_encode rc vk))"


section \<open>The state and the calls\<close>

record ('l, 't) runtime =
  rt_hub :: "('l, 't) hub"
  rt_tee :: "('t, tee_vk) vf_storage"
  rt_ezkl :: "('t, string) vf_storage"
  rt_fflonk :: "('t, fflonk_vk) vf_storage"
  rt_groth16 :: "('t, VerificationKeyWithCurve) vf_storage"
  rt_sp1 :: "('t, h256) vf_storage"
  rt_risc0 :: "('t, h256) vf_storage"
  rt_ultrahonk :: "('t, VersionedVk) vf_storage"
  rt_ultraplonk :: "('t, string) vf_storage"
  rt_plonky2 :: "('t, VkWithConfig) vf_storage"

datatype runtime_call =
    TeeCall "(tee_vk, string, string) vf_call"
  | EzklCall "(string, string, string list) vf_call"
  | FflonkCall "(fflonk_vk, string, string) vf_call"
  | Groth16Call "(VerificationKeyWithCurve, ProofWithCurve, string list) vf_call"
  | Sp1Call "(h256, string, string) vf_call"
  | Risc0Call "(h256, risc0_proof, string) vf_call"
  | UltrahonkCall "(VersionedVk, VersionedProof, string list) vf_call"
  | UltraplonkCall "(string, string, string list) vf_call"
  | Plonky2Call "(VkWithConfig, string, string) vf_call"
  | AggregateCall agg_call
  | CrlCall crl_call

datatype call_outcome = Done | Failed | Panicked string

fun outcome_of :: "'e dispatch_error + 'a \<Rightarrow> call_outcome" where
  "outcome_of (Inl (PanicErr msg)) = Panicked msg"
| "outcome_of (Inl _) = Failed"
| "outcome_of (Inr _) = Done"

definition on_instance ::
  "(('l, 't) hub, 't, 'vk, 'proof, 'pubs) vf_config \<Rightarrow> ('vk, 'proof, 'pubs) vf_call \<Rightarrow>
   (('l, 't) runtime \<Rightarrow> ('t, 'vk) vf_storage) \<Rightarrow> (('t, 'vk) vf_storage \<Rightarrow> ('l, 't) runtime \<Rightarrow> ('l, 't) runtime) \<Rightarrow>
   ('l, 't) runtime \<Rightarrow> ('l, 't) runtime \<times> call_outcome"
where
  "on_instance cfg c get put s =
     (case vf_dispatch cfg c (get s, rt_hub s) of ((p, x), r) \<Rightarrow> (put p (s\<lparr>rt_hub := x\<rparr>), outcome_of r))"

fun runtime_dispatch ::
  "('l, 't, 'v) runtime_config \<Rightarrow> runtime_call \<Rightarrow> ('l, 't) runtime \<Rightarrow> ('l, 't) runtime \<times> call_outcome"
where
  "runtime_dispatch rc (TeeCall c) s = on_instance (tee_pallet rc) c rt_tee (\<lambda>p. rt_tee_update (\<lambda>_. p)) s"
| "runtime_dispatch rc (EzklCall c) s = on_instance (ezkl_pallet rc) c rt_ezkl (\<lambda>p. rt_ezkl_update (\<lambda>_. p)) s"
| "runtime_dispatch rc (FflonkCall c) s = on_instance (fflonk_pallet rc) c rt_fflonk (\<lambda>p. rt_fflonk_update (\<lambda>_. p)) s"
| "runtime_dispatch rc (Groth16Call c) s =
     on_instance (groth16_pallet rc) c rt_groth16 (\<lambda>p. rt_groth16_update (\<lambda>_. p)) s"
| "runtime_dispatch rc (Sp1Call c) s = on_instance (sp1_pallet rc) c rt_sp1 (\<lambda>p. rt_sp1_update (\<lambda>_. p)) s"
| "runtime_dispatch rc (Risc0Call c) s = on_instance (risc0_pallet rc) c rt_risc0 (\<lambda>p. rt_risc0_update (\<lambda>_. p)) s"
| "runtime_dispatch rc (UltrahonkCall c) s =
     on_instance (ultrahonk_pallet rc) c rt_ultrahonk (\<lambda>p. rt_ultrahonk_update (\<lambda>_. p)) s"
| "runtime_dispatch rc (UltraplonkCall c) s =
     on_instance (ultraplonk_pallet rc) c rt_ultraplonk (\<lambda>p. rt_ultraplonk_update (\<lambda>_. p)) s"
| "runtime_dispatch rc (Plonky2Call c) s =
     on_instance (plonky2_pallet rc) c rt_plonky2 (\<lambda>p. rt_plonky2_update (\<lambda>_. p)) s"
| "runtime_dispatch rc (AggregateCall c) s =
     (case agg_dispatch (rt_agg rc) c (hub_agg (rt_hub s)) of
        (a, r) \<Rightarrow> (s\<lparr>rt_hub := (rt_hub s)\<lparr>hub_agg := a\<rparr>\<rparr>, outcome_of r))"
| "runtime_dispatch rc (CrlCall c) s =
     (case crl_dispatch (crl_of rc) (hub_time (rt_hub s), c) (hub_crl (rt_hub s)) of
        (k, r) \<Rightarrow> (s\<lparr>rt_hub := (rt_hub s)\<lparr>hub_crl := k\<rparr>\<rparr>, outcome_of r))"

definition runtime_start :: "'l \<Rightarrow> nat \<Rightarrow> ('l, 't) runtime" where
  "runtime_start l t =
     \<lparr>rt_hub = \<lparr>hub_agg = \<lparr>NextDomainId = 0, Domains = (\<lambda>_. None), SubmittersAllowlist = (\<lambda>_. []), Published = [],
        agg_events = [], agg_ledger = l\<rparr>, hub_crl = crl_start, hub_time = t\<rparr>,
      rt_tee = vf_start, rt_ezkl = vf_start, rt_fflonk = vf_start, rt_groth16 = vf_start, rt_sp1 = vf_start,
      rt_risc0 = vf_start, rt_ultrahonk = vf_start, rt_ultraplonk = vf_start, rt_plonky2 = vf_start\<rparr>"

text \<open>A new block: the aggregations published in the last one are cleared, and time goes on.\<close>

definition new_block :: "nat \<Rightarrow> ('l, 't) runtime \<Rightarrow> ('l, 't) runtime" where
  "new_block t s =
     s\<lparr>rt_hub := (rt_hub s)\<lparr>hub_agg := agg_on_initialize (hub_agg (rt_hub s)), hub_time := t\<rparr>\<rparr>"

end
