(* ===== verification/AggregateInv.thy ===== *)
theory AggregateInv
  imports AggregatePallet
begin

text \<open>
  The aggregation pallet as a state machine: what the methods of a domain do in closed form, the
  invariant of domains and storage, and that every call keeps it.
\<close>


section \<open>The methods in closed form\<close>

lemma self_apply [simp, call_simps]: "self f (d, s) = ((d, s), Inr (f d))"
  by (simp add: self_def)

lemma set_self_apply [simp, call_simps]: "set_self f (d, s) = ((f d, s), Inr ())"
  by (simp add: set_self_def)

lemma deposit_apply [simp, call_simps]:
  "deposit e (d, s) = ((d, s\<lparr>agg_events := agg_events s @ [e]\<rparr>), Inr ())"
  by (simp add: deposit_def)

lemma agg_deposit_apply [simp, call_simps]:
  "agg_deposit e s = (s\<lparr>agg_events := agg_events s @ [e]\<rparr>, Inr ())"
  by (simp add: agg_deposit_def)

lemma bind_self [simp, call_simps]: "act_bind (self f) k (d, s) = k (f d) (d, s)"
  by (simp add: act_bind_def)

lemma then_self_update [simp, call_simps]: "act_then (set_self f) k (d, s) = k (f d, s)"
  by (simp add: act_then_def act_bind_def)

lemma then_deposit [simp, call_simps]:
  "act_then (deposit e) k (d, s) = k (d, s\<lparr>agg_events := agg_events s @ [e]\<rparr>)"
  by (simp add: act_then_def act_bind_def)

definition logged :: "agg_event list \<Rightarrow> ('l, 't) agg_storage \<Rightarrow> ('l, 't) agg_storage" where
  "logged es s = s\<lparr>agg_events := agg_events s @ es\<rparr>"

lemma logged_sel [simp]:
  "NextDomainId (logged es s) = NextDomainId s" "Domains (logged es s) = Domains s"
  "SubmittersAllowlist (logged es s) = SubmittersAllowlist s" "Published (logged es s) = Published s"
  "agg_events (logged es s) = agg_events s @ es" "agg_ledger (logged es s) = agg_ledger s"
  "logged [] s = s" "logged es' (logged es s) = logged (es @ es') s"
  by (simp_all add: logged_def)

lemma logged_fold [simp]: "s\<lparr>agg_events := agg_events s @ es\<rparr> = logged es s"
  by (simp add: logged_def)

definition no_statements :: "'t domain \<Rightarrow> bool" where
  "no_statements d \<longleftrightarrow> dom_should_publish d = [] \<and> ag_statements (dom_next d) = []"

text \<open>\<open>handle_hold_state\<close>, given the allowlist of the domain.\<close>

definition settled_state :: "account list \<Rightarrow> 't domain \<Rightarrow> domain_state" where
  "settled_state allowed d =
     (if dom_state d = Ready then Ready
      else if no_statements d \<and> (dom_proof_rules d = ProofOnlyAllowlisted \<longrightarrow> allowed = []) then Removable
      else Hold)"

definition settle :: "account list \<Rightarrow> 't domain \<Rightarrow> 't domain" where
  "settle allowed d = d\<lparr>dom_state := settled_state allowed d\<rparr>"

lemma update_hold_state_eq:
  "update_hold_state (d, s) =
     ((d\<lparr>dom_state := settled_state (SubmittersAllowlist s (dom_id d)) (d\<lparr>dom_state := Hold\<rparr>)\<rparr>, s), Inr ())"
  by (auto simp: update_hold_state_def settled_state_def no_statements_def is_allowlist_empty_def)

lemma emit_eq:
  "emit_state_changed_event (d, s) = ((d, logged [DomainStateChanged (dom_id d) (dom_state d)] s), Inr ())"
  by (simp add: emit_state_changed_event_def)

lemma handle_hold_state_eq:
  "\<exists>es. handle_hold_state (d, s) = ((settle (SubmittersAllowlist s (dom_id d)) d, logged es s), Inr ())"
proof (cases "dom_state d = Ready")
  case True
  then have "settle (SubmittersAllowlist s (dom_id d)) d = d"
    by (cases d) (simp add: settle_def settled_state_def)
  then show ?thesis using True by (intro exI [of _ "[]"]) (simp add: handle_hold_state_def)
next
  case False
  let ?d = "settle (SubmittersAllowlist s (dom_id d)) d"
  have "d\<lparr>dom_state := settled_state (SubmittersAllowlist s (dom_id d)) (d\<lparr>dom_state := Hold\<rparr>)\<rparr> = ?d"
    using False by (simp add: settle_def settled_state_def no_statements_def)
  then show ?thesis
    using False
    by (intro exI [of _ "if dom_state d = dom_state ?d then []
          else [DomainStateChanged (dom_id ?d) (dom_state ?d)]"])
      (simp add: handle_hold_state_def act_then_def act_bind_def update_hold_state_eq emit_eq)
qed

text \<open>A domain after its next aggregation has been taken, which had statements.\<close>

definition popped :: "'t domain \<Rightarrow> 't domain" where
  "popped d =
     (if ag_id (dom_next d) < u64_max
      then d\<lparr>dom_next := aggregation_create (ag_id (dom_next d) + 1) (ag_size (dom_next d))\<rparr>
      else d\<lparr>dom_state := Hold, dom_next := aggregation_create 0 (ag_size (dom_next d))\<rparr>)"

lemma pop_next_aggregation_eq:
  assumes "ag_size (dom_next d) \<le> AggregationSize cfg"
  shows "\<exists>es. pop_next_aggregation cfg (d, s) =
     (if ag_statements (dom_next d) = [] then ((d, s), Inr None)
      else ((popped d, logged es s), Inr (Some (dom_next d))))"
  using assms by (intro exI [of _ "if ag_id (dom_next d) < u64_max then [] else [DomainStateChanged (dom_id d) Hold]"])
    (auto simp: pop_next_aggregation_def create_next_def popped_def emit_eq act_then_def act_bind_def
      ensure_apply)

text \<open>A domain after a statement has been appended.\<close>

definition enqueue :: "aggregation \<Rightarrow> 't domain \<Rightarrow> 't domain" where
  "enqueue a d = d\<lparr>dom_should_publish := btree_insert (ag_id a) a (dom_should_publish d)\<rparr>"

definition with_statement :: "statement_entry \<Rightarrow> 't domain \<Rightarrow> 't domain" where
  "with_statement e d =
     (let d' = push_statement e d in
      if is_next_aggregation_complete d' then enqueue (dom_next d') (popped d') else d')"

lemma push_statement_sel [simp]:
  "ag_statements (dom_next (push_statement e d)) = ag_statements (dom_next d) @ [e]"
  "ag_id (dom_next (push_statement e d)) = ag_id (dom_next d)"
  "ag_size (dom_next (push_statement e d)) = ag_size (dom_next d)"
  "dom_should_publish (push_statement e d) = dom_should_publish d"
  "dom_state (push_statement e d) = dom_state d" "dom_id (push_statement e d) = dom_id d"
  by (simp_all add: push_statement_def)

lemma popped_sel [simp]:
  "dom_should_publish (popped d) = dom_should_publish d" "dom_id (popped d) = dom_id d"
  "dom_owner (popped d) = dom_owner d" "dom_proof_rules (popped d) = dom_proof_rules d"
  "dom_aggregate_rules (popped d) = dom_aggregate_rules d"
  "dom_delivery_owner (popped d) = dom_delivery_owner d" "dom_delivery (popped d) = dom_delivery d"
  "dom_publish_queue_size (popped d) = dom_publish_queue_size d"
  "dom_max_aggregation_size (popped d) = dom_max_aggregation_size d"
  "ag_statements (dom_next (popped d)) = []" "ag_size (dom_next (popped d)) = ag_size (dom_next d)"
  "dom_state (popped d) = (if ag_id (dom_next d) < u64_max then dom_state d else Hold)"
  "ag_id (dom_next (popped d)) = (if ag_id (dom_next d) < u64_max then ag_id (dom_next d) + 1 else 0)"
  "dom_ticket_domain (popped d) = dom_ticket_domain d"
  "dom_ticket_allowlist (popped d) = dom_ticket_allowlist d"
  by (simp_all add: popped_def aggregation_create_def)

lemma append_statement_eq:
  assumes "length (ag_statements (dom_next d)) < AggregationSize cfg"
    and "ag_size (dom_next d) \<le> AggregationSize cfg"
  shows "\<exists>es. append_statement cfg account reserve st (d, s) =
    (let d' = push_statement \<lparr>se_account = account, se_reserve = reserve, se_statement = st\<rparr> d in
     if is_next_aggregation_complete d' then ((popped d', logged es s), Inr (Some (dom_next d')))
     else ((d', s), Inr None))"
proof -
  let ?d = "push_statement \<lparr>se_account = account, se_reserve = reserve, se_statement = st\<rparr> d"
  obtain es where "pop_next_aggregation cfg (?d, s) =
      (if ag_statements (dom_next ?d) = [] then ((?d, s), Inr None)
       else ((popped ?d, logged es s), Inr (Some (dom_next ?d))))"
    using pop_next_aggregation_eq [of ?d cfg s] assms(2) by auto
  then show ?thesis
    using assms by (intro exI [of _ es]) (auto simp: append_statement_def then_ensure Let_def)
qed

lemma available_aggregation_eq:
  assumes "length (dom_should_publish d) < MaxPendingPublishQueueSize cfg"
  shows "\<exists>es. available_aggregation cfg a (d, s) =
    ((enqueue a d, logged (AggregationComplete (dom_id d) (ag_id a) # es) s), Inr ())"
  using assms
  by (intro exI [of _ "if dom_publish_queue_size d \<le> length (dom_should_publish (enqueue a d))
        then [DomainFull (dom_id d)] else []"])
    (auto simp: available_aggregation_def then_ensure enqueue_def)


section \<open>The invariant of a domain\<close>

text \<open>
  The aggregation that is being filled is never full and the queued ones are; the queue is within its
  size and ordered by ids, which are below the next one. When the 64-bit ids are exhausted the next
  aggregation is an empty dummy with the id zero and the domain is not ready any more.
\<close>

definition next_ok :: "'t domain \<Rightarrow> bool" where
  "next_ok d \<longleftrightarrow>
     0 < dom_max_aggregation_size d \<and> ag_size (dom_next d) = dom_max_aggregation_size d \<and>
     length (ag_statements (dom_next d)) < dom_max_aggregation_size d \<and>
     ag_id (dom_next d) \<le> u64_max \<and>
     (ag_id (dom_next d) = 0 \<longrightarrow> dom_state d \<noteq> Ready \<and> ag_statements (dom_next d) = [])"

definition id_used :: "'t domain \<Rightarrow> nat \<Rightarrow> bool" where
  "id_used d k \<longleftrightarrow> 0 < k \<and> (k < ag_id (dom_next d) \<or> ag_id (dom_next d) = 0)"

definition queue_ok :: "'t domain \<Rightarrow> bool" where
  "queue_ok d \<longleftrightarrow>
     length (dom_should_publish d) \<le> dom_publish_queue_size d \<and> btree (dom_should_publish d) \<and>
     (\<forall>(k, a)\<in>set (dom_should_publish d). ag_id a = k \<and> id_used d k \<and>
        ag_size a = dom_max_aggregation_size d \<and>
        length (ag_statements a) = dom_max_aggregation_size d)"

definition domain_ok :: "('l, 't) agg_config \<Rightarrow> account list \<Rightarrow> 't domain \<Rightarrow> bool" where
  "domain_ok cfg allowed d \<longleftrightarrow>
     dom_max_aggregation_size d \<le> AggregationSize cfg \<and>
     dom_publish_queue_size d \<le> MaxPendingPublishQueueSize cfg \<and> next_ok d \<and> queue_ok d \<and>
     dom_state d \<noteq> Removed \<and> (dom_state d = Removable \<longrightarrow> no_statements d \<and> allowed = []) \<and>
     (dom_proof_rules d \<noteq> ProofOnlyAllowlisted \<longrightarrow> allowed = [])"

lemma next_ok_push:
  assumes "next_ok d" and "dom_state d = Ready" and "\<not> is_next_aggregation_complete (push_statement e d)"
  shows "next_ok (push_statement e d)"
  using assms by (auto simp: next_ok_def is_next_aggregation_complete_def push_statement_def)

lemma next_ok_popped: "next_ok d \<Longrightarrow> next_ok (popped d)"
  by (auto simp: next_ok_def)

lemma id_used_popped: "ag_id (dom_next d) \<noteq> 0 \<Longrightarrow> id_used d k \<Longrightarrow> id_used (popped d) k"
  by (auto simp: id_used_def)

lemma id_used_next: "ag_id (dom_next d) \<noteq> 0 \<Longrightarrow> id_used (popped d) (ag_id (dom_next d))"
  by (auto simp: id_used_def)

lemma queue_ok_popped:
  assumes "queue_ok d" and "ag_id (dom_next d) \<noteq> 0"
  shows "queue_ok (popped d)"
  using assms id_used_popped [OF assms(2)] by (auto simp: queue_ok_def)

lemma set_btree_insert: "set (btree_insert k v m) \<subseteq> insert (k, v) (set m)"
  by (induction m) auto

lemma queue_ok_enqueue:
  assumes "queue_ok d" and "length (dom_should_publish d) < dom_publish_queue_size d"
    and "id_used d (ag_id a)" and "ag_size a = dom_max_aggregation_size d"
    and "length (ag_statements a) = dom_max_aggregation_size d"
  shows "queue_ok (enqueue a d)"
proof -
  have "length (btree_insert (ag_id a) a (dom_should_publish d)) \<le> dom_publish_queue_size d"
    using assms(2) length_btree_insert [of "ag_id a" a "dom_should_publish d"] by linarith
  moreover have "id_used (enqueue a d) k = id_used d k" for k by (simp add: id_used_def enqueue_def)
  ultimately show ?thesis
    using assms set_btree_insert [of "ag_id a" a "dom_should_publish d"]
    by (auto simp: queue_ok_def enqueue_def btree_insert_btree)
qed

lemma domain_ok_with_statement:
  assumes ok: "domain_ok cfg allowed d" and ready: "dom_state d = Ready" and can: "can_add_statement d"
  shows "domain_ok cfg allowed (with_statement e d)"
proof -
  let ?p = "push_statement e d"
  have nx: "next_ok d" and queue: "queue_ok d" using ok by (simp_all add: domain_ok_def)
  have i: "ag_id (dom_next d) \<noteq> 0" using nx ready by (auto simp: next_ok_def)
  show ?thesis
  proof (cases "is_next_aggregation_complete ?p")
    case False
    then have "next_ok ?p" by (rule next_ok_push [OF nx ready])
    moreover have "queue_ok ?p" using queue by (simp add: queue_ok_def id_used_def push_statement_def)
    ultimately show ?thesis
      using ok ready False by (simp add: with_statement_def domain_ok_def) (simp add: push_statement_def)
  next
    case True
    then have full: "length (ag_statements (dom_next ?p)) = dom_max_aggregation_size d"
      using nx by (auto simp: next_ok_def is_next_aggregation_complete_def)
    then have "length (dom_should_publish d) < dom_publish_queue_size d"
      using can nx by (auto simp: can_add_statement_def space_left_def next_ok_def)
    moreover have "queue_ok ?p" using queue by (simp add: queue_ok_def id_used_def push_statement_def)
    then have "queue_ok (popped ?p)" using i by (intro queue_ok_popped) simp_all
    moreover have "id_used (popped ?p) (ag_id (dom_next ?p))" using i by (intro id_used_next) simp
    moreover have "dom_publish_queue_size ?p = dom_publish_queue_size d"
      "dom_max_aggregation_size ?p = dom_max_aggregation_size d"
      by (simp_all add: push_statement_def)
    ultimately have "queue_ok (enqueue (dom_next ?p) (popped ?p))"
      using full nx by (intro queue_ok_enqueue) (simp_all add: next_ok_def)
    moreover have "next_ok (enqueue (dom_next ?p) (popped ?p))"
      using nx by (auto simp: next_ok_def enqueue_def) (simp_all add: push_statement_def)
    ultimately show ?thesis
      using ok ready True
      by (simp add: with_statement_def domain_ok_def enqueue_def) (simp add: push_statement_def)
  qed
qed

lemma settle_sel [simp]:
  "dom_id (settle al d) = dom_id d" "dom_owner (settle al d) = dom_owner d"
  "dom_next (settle al d) = dom_next d" "dom_should_publish (settle al d) = dom_should_publish d"
  "dom_max_aggregation_size (settle al d) = dom_max_aggregation_size d"
  "dom_publish_queue_size (settle al d) = dom_publish_queue_size d"
  "dom_proof_rules (settle al d) = dom_proof_rules d" "dom_delivery (settle al d) = dom_delivery d"
  "dom_aggregate_rules (settle al d) = dom_aggregate_rules d"
  "dom_delivery_owner (settle al d) = dom_delivery_owner d"
  "dom_state (settle al d) = settled_state al d"
  by (simp_all add: settle_def)

lemma domain_ok_settle:
  assumes "domain_ok cfg allowed d"
  shows "domain_ok cfg allowed (settle allowed d)"
  using assms
  by (auto simp: domain_ok_def next_ok_def queue_ok_def id_used_def no_statements_def settled_state_def
      split: if_splits)


section \<open>Holds\<close>

text \<open>
  The documented behaviour of holds. Only the named account and reason change; releasing and
  transferring as much as possible report what they took; what is on hold can be released.
\<close>

definition held_change ::
  "(hold_reason \<Rightarrow> account \<Rightarrow> nat) \<Rightarrow> hold_reason \<Rightarrow> account \<Rightarrow> (nat \<Rightarrow> nat) \<Rightarrow>
   (hold_reason \<Rightarrow> account \<Rightarrow> nat)"
where
  "held_change h r a f = h(r := (h r)(a := f (h r a)))"

definition hold_laws :: "'l holds \<Rightarrow> bool" where
  "hold_laws h \<longleftrightarrow>
     (\<forall>l r a n l'. ho_hold h l r a n = Inr l' \<longrightarrow>
        ho_on_hold h l' = held_change (ho_on_hold h l) r a (\<lambda>x. x + n)) \<and>
     (\<forall>l r a n l'. ho_release_exact h l r a n = Inr l' \<longrightarrow>
        ho_on_hold h l' = held_change (ho_on_hold h l) r a (\<lambda>x. x - n)) \<and>
     (\<forall>l r a n. n \<le> ho_on_hold h l r a \<longrightarrow> (\<exists>l'. ho_release_exact h l r a n = Inr l')) \<and>
     (\<forall>l r a n x l'. ho_release h l r a n = Inr (x, l') \<longrightarrow>
        x \<le> n \<and> ho_on_hold h l' = held_change (ho_on_hold h l) r a (\<lambda>y. y - x)) \<and>
     (\<forall>l r a b n x l'. ho_transfer_on_hold h l r a b n = Inr (x, l') \<longrightarrow>
        x \<le> n \<and> ho_on_hold h l' = held_change (ho_on_hold h l) r a (\<lambda>y. y - x))"

definition reserve_of :: "('l, 't) agg_config \<Rightarrow> 't domain \<Rightarrow> reserve" where
  "reserve_of cfg d =
     (let estimated = estimate_call_fee cfg (dom_max_aggregation_size d);
          tip = (case compute_tip cfg estimated of Some t \<Rightarrow> t | None \<Rightarrow> 0) in
      \<lparr>rs_aggregate = saturating_add estimated tip div ag_size (dom_next d),
       rs_delivery = total_fee (dom_delivery d) div ag_size (dom_next d)\<rparr>)"

definition held :: "('l, 't) agg_config \<Rightarrow> ('l, 't) agg_storage \<Rightarrow> hold_reason \<Rightarrow> account \<Rightarrow> nat" where
  "held cfg s = ho_on_hold (agg_holds cfg) (agg_ledger s)"

definition add_reserve ::
  "account \<Rightarrow> reserve \<Rightarrow> (hold_reason \<Rightarrow> account \<Rightarrow> nat) \<Rightarrow> (hold_reason \<Rightarrow> account \<Rightarrow> nat)"
where
  "add_reserve a r h =
     held_change (held_change h AggregationReason a (\<lambda>x. x + rs_aggregate r))
       DeliveryReason a (\<lambda>x. x + rs_delivery r)"

lemma hold_lawsD:
  assumes "hold_laws h"
  shows "ho_hold h l r a n = Inr l' \<Longrightarrow> ho_on_hold h l' = held_change (ho_on_hold h l) r a (\<lambda>x. x + n)"
    and "ho_release_exact h l r a n = Inr l' \<Longrightarrow>
      ho_on_hold h l' = held_change (ho_on_hold h l) r a (\<lambda>x. x - n)"
    and "n \<le> ho_on_hold h l r a \<Longrightarrow> \<exists>l'. ho_release_exact h l r a n = Inr l'"
    and "ho_release h l r a n = Inr (x, l') \<Longrightarrow>
      x \<le> n \<and> ho_on_hold h l' = held_change (ho_on_hold h l) r a (\<lambda>y. y - x)"
    and "ho_transfer_on_hold h l r a b n = Inr (x, l') \<Longrightarrow>
      x \<le> n \<and> ho_on_hold h l' = held_change (ho_on_hold h l) r a (\<lambda>y. y - x)"
  using assms unfolding hold_laws_def by simp_all

lemma reserve_currency_cases:
  assumes "hold_laws (agg_holds cfg)" and "ag_size (dom_next d) \<noteq> 0"
  shows "(\<exists>l. reserve_currency cfg a (d, s) = ((d, s\<lparr>agg_ledger := l\<rparr>), Inr (reserve_of cfg d)) \<and>
      ho_on_hold (agg_holds cfg) l = add_reserve a (reserve_of cfg d) (held cfg s)) \<or>
    (\<exists>l e. reserve_currency cfg a (d, s) = ((d, s\<lparr>agg_ledger := l\<rparr>), Inl (TokenErr e)) \<and>
      ho_on_hold (agg_holds cfg) l = held cfg s)"
proof -
  let ?h = "agg_holds cfg" and ?r = "reserve_of cfg d"
  have eq: "reserve_currency cfg a (d, s) =
    (case ho_hold ?h (agg_ledger s) AggregationReason a (rs_aggregate ?r) of
       Inl e \<Rightarrow> ((d, s), Inl (TokenErr e))
     | Inr l \<Rightarrow> (case ho_hold ?h l DeliveryReason a (rs_delivery ?r) of
         Inr l' \<Rightarrow> ((d, s\<lparr>agg_ledger := l'\<rparr>), Inr ?r)
       | Inl e \<Rightarrow> (case ho_release_exact ?h l AggregationReason a (rs_aggregate ?r) of
           Inl _ \<Rightarrow> ((d, s\<lparr>agg_ledger := l\<rparr>),
             Inl (PanicErr ''Should be present because we hold it just before: qed''))
         | Inr l' \<Rightarrow> ((d, s\<lparr>agg_ledger := l'\<rparr>), Inl (TokenErr e)))))"
    using assms(2)
    by (auto simp: reserve_currency_def reserve_of_def Let_def act_then_def act_bind_def hold_funds_def
        ensure_apply on_ledger_def split: sum.splits option.splits)
  show ?thesis
  proof (cases "ho_hold ?h (agg_ledger s) AggregationReason a (rs_aggregate ?r)")
    case (Inl e)
    then have "reserve_currency cfg a (d, s) = ((d, s\<lparr>agg_ledger := agg_ledger s\<rparr>), Inl (TokenErr e))"
      by (simp add: eq)
    then show ?thesis by (intro disjI2 exI conjI) (auto simp: held_def)
  next
    case (Inr l)
    note first = Inr
    have l: "ho_on_hold ?h l = held_change (held cfg s) AggregationReason a (\<lambda>x. x + rs_aggregate ?r)"
      using hold_lawsD(1) [OF assms(1) Inr] by (simp add: held_def)
    show ?thesis
    proof (cases "ho_hold ?h l DeliveryReason a (rs_delivery ?r)")
      case (Inr l')
      then have "ho_on_hold ?h l' = add_reserve a ?r (held cfg s)"
        using hold_lawsD(1) [OF assms(1) Inr] l by (simp add: add_reserve_def)
      then show ?thesis using Inr first by (auto simp: eq)
    next
      case (Inl e)
      have "rs_aggregate ?r \<le> ho_on_hold ?h l AggregationReason a" by (simp add: l held_change_def)
      then obtain l' where l': "ho_release_exact ?h l AggregationReason a (rs_aggregate ?r) = Inr l'"
        using hold_lawsD(3) [OF assms(1)] by blast
      have "ho_on_hold ?h l' = held cfg s"
        using hold_lawsD(2) [OF assms(1) l'] l by (simp add: held_change_def fun_eq_iff)
      then show ?thesis
        using Inl l' first by (auto simp: eq)
    qed
  qed
qed

text \<open>Who may add a proof; nobody is the owner of a domain of the manager.\<close>

definition may_submit :: "account list \<Rightarrow> 't domain \<Rightarrow> account \<Rightarrow> bool" where
  "may_submit allowed d a \<longleftrightarrow>
     (case dom_proof_rules d of
        ProofUntrusted \<Rightarrow> True
      | ProofOnlyOwner \<Rightarrow> dom_owner d = Account a
      | ProofOnlyAllowlisted \<Rightarrow> a \<in> set allowed)"

definition ownerless :: "'t domain \<Rightarrow> bool" where
  "ownerless d \<longleftrightarrow> dom_proof_rules d = ProofOnlyOwner \<and> dom_owner d = Manager"

lemma authorized_eq:
  "is_authorized_to_add_proof a (d, s) =
     ((d, s), if ownerless d then Inl (PanicErr ''The domain does not have an owner; qed'')
              else Inr (may_submit (SubmittersAllowlist s (dom_id d)) d a))"
  by (cases "dom_owner d")
    (auto simp: is_authorized_to_add_proof_def may_submit_def ownerless_def split: proof_rule.splits)

definition accepts_proof :: "account list \<Rightarrow> 't domain \<Rightarrow> account \<Rightarrow> bool" where
  "accepts_proof allowed d a \<longleftrightarrow> dom_state d = Ready \<and> can_add_statement d \<and> may_submit allowed d a"

lemma add_verified_proof_eq:
  assumes ok: "domain_ok cfg (SubmittersAllowlist s (dom_id d)) d" and "dom_state d = Ready"
    and can: "can_add_statement d"
  shows "\<exists>es. add_verified_proof cfg a i st r (d, s) =
    ((settle (SubmittersAllowlist s (dom_id d))
        (with_statement \<lparr>se_account = a, se_reserve = r, se_statement = st\<rparr> d),
      logged (NewProof st i (ag_id (dom_next d)) # es) s), Inr ())"
proof -
  let ?e = "\<lparr>se_account = a, se_reserve = r, se_statement = st\<rparr>"
  let ?p = "push_statement ?e d" and ?s = "logged [NewProof st i (ag_id (dom_next d))] s"
  have nx: "next_ok d" and q: "queue_ok d" using ok by (simp_all add: domain_ok_def)
  have "length (ag_statements (dom_next d)) < AggregationSize cfg"
    "ag_size (dom_next d) \<le> AggregationSize cfg"
    using ok nx by (auto simp: domain_ok_def next_ok_def)
  from append_statement_eq [OF this] obtain es where
    app: "append_statement cfg a r st (d, ?s) =
      (if is_next_aggregation_complete ?p then ((popped ?p, logged es ?s), Inr (Some (dom_next ?p)))
       else ((?p, ?s), Inr None))" unfolding Let_def by blast
  show ?thesis
  proof (cases "is_next_aggregation_complete ?p")
    case False
    obtain es' where
      "handle_hold_state (?p, ?s) = ((settle (SubmittersAllowlist s (dom_id d)) ?p, logged es' ?s), Inr ())"
      using handle_hold_state_eq [of ?p ?s] by auto
    then show ?thesis
      using False app by (intro exI [of _ es'])
        (simp add: add_verified_proof_def act_then_def act_bind_def with_statement_def Let_def)
  next
    case True
    then have "length (dom_should_publish (popped ?p)) < MaxPendingPublishQueueSize cfg"
      using can ok nx by (auto simp: can_add_statement_def space_left_def next_ok_def domain_ok_def
          is_next_aggregation_complete_def)
    from available_aggregation_eq [OF this] obtain es' where
      av: "available_aggregation cfg (dom_next ?p) (popped ?p, logged es ?s) =
        ((enqueue (dom_next ?p) (popped ?p),
          logged (AggregationComplete (dom_id d) (ag_id (dom_next d)) # es') (logged es ?s)), Inr ())"
      by (metis popped_sel(2) push_statement_sel(2) push_statement_sel(6))
    let ?w = "enqueue (dom_next ?p) (popped ?p)"
    have "dom_id ?w = dom_id d" by (simp add: enqueue_def)
    then obtain es'' where
      "handle_hold_state (?w, logged (AggregationComplete (dom_id d) (ag_id (dom_next d)) # es') (logged es ?s)) =
        ((settle (SubmittersAllowlist s (dom_id d)) ?w,
          logged es'' (logged (AggregationComplete (dom_id d) (ag_id (dom_next d)) # es') (logged es ?s))), Inr ())"
      using handle_hold_state_eq [of ?w "logged (AggregationComplete (dom_id d) (ag_id (dom_next d)) # es')
          (logged es ?s)"] by auto
    then show ?thesis
      using True app av
      by (intro exI [of _ "es @ (AggregationComplete (dom_id d) (ag_id (dom_next d)) # es') @ es''"])
        (simp add: add_verified_proof_def act_then_def act_bind_def with_statement_def Let_def)
  qed
qed


definition new_entry :: "('l, 't) agg_config \<Rightarrow> 't domain \<Rightarrow> account \<Rightarrow> h256 \<Rightarrow> statement_entry" where
  "new_entry cfg d a st = \<lparr>se_account = a, se_reserve = reserve_of cfg d, se_statement = st\<rparr>"

text \<open>
  A proof for a domain is refused with an event and without any effect on the domain and the holds,
  or it is added; the only panic is that of a domain without an owner.
\<close>

lemma proof_for_domain_cases:
  assumes laws: "hold_laws (agg_holds cfg)"
    and ok: "domain_ok cfg (SubmittersAllowlist s (dom_id d)) d"
  obtains
    (panics) "proof_for_domain cfg a i st (d, s) =
        ((d, s), Inl (PanicErr ''The domain does not have an owner; qed''))"
      and "dom_state d = Ready" "can_add_statement d" "ownerless d"
  | (refused) l cause where "proof_for_domain cfg a i st (d, s) =
        ((d, logged [CannotAggregate st cause] (s\<lparr>agg_ledger := l\<rparr>)), Inr ())"
      and "ho_on_hold (agg_holds cfg) l = held cfg s"
      and "accepts_proof (SubmittersAllowlist s (dom_id d)) d a \<Longrightarrow> cause = InsufficientFunds"
      and "dom_state d = Ready \<Longrightarrow> can_add_statement d \<Longrightarrow> \<not> ownerless d"
  | (added) l es where "proof_for_domain cfg a i st (d, s) =
        ((settle (SubmittersAllowlist s (dom_id d)) (with_statement (new_entry cfg d a st) d),
          logged (NewProof st i (ag_id (dom_next d)) # es) (s\<lparr>agg_ledger := l\<rparr>)), Inr ())"
      and "ho_on_hold (agg_holds cfg) l = add_reserve a (reserve_of cfg d) (held cfg s)"
      and "accepts_proof (SubmittersAllowlist s (dom_id d)) d a" and "\<not> ownerless d"
      and "proof_for_domain cfg a i st (d, s) =
        add_verified_proof cfg a i st (reserve_of cfg d) (d, s\<lparr>agg_ledger := l\<rparr>)"
proof -
  let ?al = "SubmittersAllowlist s (dom_id d)"
  have same: "s\<lparr>agg_ledger := agg_ledger s\<rparr> = s" by simp
  consider (state) "dom_state d \<noteq> Ready" | (full) "dom_state d = Ready" "\<not> can_add_statement d"
    | (owner) "dom_state d = Ready" "can_add_statement d" "ownerless d"
    | (user) "dom_state d = Ready" "can_add_statement d" "\<not> ownerless d" "\<not> may_submit ?al d a"
    | (attempt) "dom_state d = Ready" "can_add_statement d" "\<not> ownerless d" "may_submit ?al d a" by blast
  then show thesis
  proof cases
    case state
    then show thesis
      by (intro refused [of "WrongDomainState i (dom_state d)" "agg_ledger s"])
        (simp_all add: proof_for_domain_def refuse_proof_def held_def accepts_proof_def same)
  next
    case full
    then show thesis
      by (intro refused [of "DomainStorageFull i" "agg_ledger s"])
        (simp_all add: proof_for_domain_def refuse_proof_def held_def accepts_proof_def same)
  next
    case owner
    then show thesis
      by (intro panics) (simp_all add: proof_for_domain_def act_bind_def authorized_eq)
  next
    case user
    then show thesis
      by (intro refused [of UnauthorizedUser "agg_ledger s"])
        (simp_all add: proof_for_domain_def refuse_proof_def held_def accepts_proof_def act_bind_def
          authorized_eq same)
  next
    case attempt
    then have run: "proof_for_domain cfg a i st (d, s) =
        (case reserve_currency cfg a (d, s) of
           (w', Inr reserve) \<Rightarrow> add_verified_proof cfg a i st reserve w'
         | (w', Inl (PanicErr msg)) \<Rightarrow> (w', Inl (PanicErr msg))
         | (w', Inl _) \<Rightarrow> refuse_proof st InsufficientFunds w')"
      by (simp add: proof_for_domain_def act_bind_def authorized_eq)
    have "ag_size (dom_next d) \<noteq> 0" using ok by (simp add: domain_ok_def next_ok_def)
    from reserve_currency_cases [OF laws this, of a s] show thesis
    proof (elim disjE exE conjE)
      fix l
      assume r: "reserve_currency cfg a (d, s) = ((d, s\<lparr>agg_ledger := l\<rparr>), Inr (reserve_of cfg d))"
        and l: "ho_on_hold (agg_holds cfg) l = add_reserve a (reserve_of cfg d) (held cfg s)"
      let ?s = "s\<lparr>agg_ledger := l\<rparr>"
      have "domain_ok cfg (SubmittersAllowlist ?s (dom_id d)) d" using ok by simp
      from add_verified_proof_eq [OF this attempt(1,2), of a i st "reserve_of cfg d"] obtain es where
        "add_verified_proof cfg a i st (reserve_of cfg d) (d, ?s) =
          ((settle ?al (with_statement (new_entry cfg d a st) d),
            logged (NewProof st i (ag_id (dom_next d)) # es) ?s), Inr ())"
        by (auto simp: new_entry_def)
      then show thesis
        using attempt l r by (intro added [of es l]) (simp_all add: run accepts_proof_def)
    next
      fix l e
      assume "reserve_currency cfg a (d, s) = ((d, s\<lparr>agg_ledger := l\<rparr>), Inl (TokenErr e))"
        and "ho_on_hold (agg_holds cfg) l = held cfg s"
      then show thesis
        using attempt by (intro refused [of InsufficientFunds l]) (simp_all add: run refuse_proof_def)
    qed
  qed
qed


section \<open>The invariant of the storage\<close>

definition published_ids :: "('l, 't) agg_storage \<Rightarrow> nat \<Rightarrow> nat set" where
  "published_ids s i = {ag_id a | a. (i, a) \<in> set (Published s)}"

definition unpublished :: "'t domain \<Rightarrow> nat set \<Rightarrow> bool" where
  "unpublished d ks \<longleftrightarrow> (\<forall>k\<in>ks. id_used d k \<and> k \<notin> fst ` set (dom_should_publish d))"

definition published_ok :: "('l, 't) agg_config \<Rightarrow> ('l, 't) agg_storage \<Rightarrow> bool" where
  "published_ok cfg s \<longleftrightarrow>
     distinct (map (\<lambda>(i, a). (i, ag_id a)) (Published s)) \<and>
     (\<forall>(i, a)\<in>set (Published s). i < NextDomainId s \<and> ag_statements a \<noteq> [] \<and>
        length (ag_statements a) \<le> AggregationSize cfg)"

fun slot_ok ::
  "('l, 't) agg_config \<Rightarrow> nat \<Rightarrow> account list \<Rightarrow> nat set \<Rightarrow> nat \<Rightarrow> 't domain option \<Rightarrow> bool"
where
  "slot_ok cfg n allowed published i None \<longleftrightarrow> allowed = []"
| "slot_ok cfg n allowed published i (Some d) \<longleftrightarrow>
     i < n \<and> dom_id d = i \<and> domain_ok cfg allowed d \<and> unpublished d published"

definition agg_inv :: "('l, 't) agg_config \<Rightarrow> ('l, 't) agg_storage \<Rightarrow> bool" where
  "agg_inv cfg s \<longleftrightarrow>
     NextDomainId s \<le> u32_max \<and> published_ok cfg s \<and>
     (\<forall>i. slot_ok cfg (NextDomainId s) (SubmittersAllowlist s i) (published_ids s i) i (Domains s i))"

lemma agg_invD:
  assumes "agg_inv cfg s" and "Domains s i = Some d"
  shows "i < NextDomainId s" and "dom_id d = i" and "domain_ok cfg (SubmittersAllowlist s i) d"
    and "unpublished d (published_ids s i)"
proof -
  have "slot_ok cfg (NextDomainId s) (SubmittersAllowlist s i) (published_ids s i) i (Some d)"
    using assms unfolding agg_inv_def by metis
  then show "i < NextDomainId s" and "dom_id d = i" and "domain_ok cfg (SubmittersAllowlist s i) d"
    and "unpublished d (published_ids s i)" by simp_all
qed

text \<open>A changed domain in a storage that otherwise only has new events, another ledger or another allowlist of it.\<close>

definition same_other_domains :: "nat \<Rightarrow> ('l, 't) agg_storage \<Rightarrow> ('l, 't) agg_storage \<Rightarrow> bool" where
  "same_other_domains i s s' \<longleftrightarrow>
     NextDomainId s' = NextDomainId s \<and> Domains s' = Domains s \<and>
     (\<forall>j. j \<noteq> i \<longrightarrow> SubmittersAllowlist s' j = SubmittersAllowlist s j \<and>
                  published_ids s' j = published_ids s j)"

lemma agg_inv_changed:
  assumes "agg_inv cfg s" and "Domains s i = Some d" and "same_other_domains i s s'"
    and "published_ok cfg s'" and "dom_id d' = i" and "domain_ok cfg (SubmittersAllowlist s' i) d'"
    and "unpublished d' (published_ids s' i)"
  shows "agg_inv cfg (s'\<lparr>Domains := (Domains s')(i := Some d')\<rparr>)"
proof -
  have pub: "published_ids (s'\<lparr>Domains := D\<rparr>) j = published_ids s' j" for D j
    by (simp add: published_ids_def)
  have "published_ok cfg (s'\<lparr>Domains := D\<rparr>)" for D using assms(4) by (simp add: published_ok_def)
  moreover have "i < NextDomainId s" using agg_invD(1) [OF assms(1,2)] .
  ultimately show ?thesis
    using assms unfolding agg_inv_def same_other_domains_def pub by auto
qed

lemma try_mutate_Inr:
  "try_mutate i m s = (s', Inr x) \<longleftrightarrow>
     (\<exists>d d' s1. Domains s i = Some d \<and> m (d, s) = ((d', s1), Inr x) \<and>
        s' = s1\<lparr>Domains := (Domains s1)(i := Some d')\<rparr>)"
  by (auto simp: try_mutate_def split: option.splits prod.splits sum.splits)

lemma same_other_domains_logged:
  "same_other_domains i s (logged es (s\<lparr>agg_ledger := l\<rparr>))"
  by (simp add: same_other_domains_def published_ids_def)

lemma published_logged:
  "published_ids (logged es (s\<lparr>agg_ledger := l\<rparr>)) i = published_ids s i"
  "published_ok cfg (logged es (s\<lparr>agg_ledger := l\<rparr>)) = published_ok cfg s"
  by (simp_all add: published_ids_def published_ok_def)

lemma unpublished_with_statement:
  assumes "domain_ok cfg al d" and "dom_state d = Ready" and "unpublished d ks"
  shows "unpublished (with_statement e d) ks"
proof -
  have i: "ag_id (dom_next d) \<noteq> 0" using assms(1,2) by (auto simp: domain_ok_def next_ok_def)
  have "id_used (with_statement e d) k" if "id_used d k" for k
    using that i by (auto simp: with_statement_def Let_def id_used_def enqueue_def)
  moreover have "k \<noteq> ag_id (dom_next d)" if "id_used d k" for k using that i by (auto simp: id_used_def)
  ultimately show ?thesis
    using assms(3) by (auto simp: unpublished_def with_statement_def Let_def enqueue_def btree_insert_keys)
qed

lemma unpublished_settle [simp]: "unpublished (settle al d) ks = unpublished d ks"
  by (simp add: unpublished_def id_used_def)

lemma with_statement_id [simp]: "dom_id (with_statement e d) = dom_id d"
  by (simp add: with_statement_def Let_def enqueue_def)

lemma on_proof_verified_inv:
  assumes laws: "hold_laws (agg_holds cfg)" and inv: "agg_inv cfg s"
    and run: "on_proof_verified cfg a i st s = (s', Inr ())"
  shows "agg_inv cfg s'"
proof -
  have log: "agg_inv cfg (logged es s)" for es
    using inv unfolding agg_inv_def published_ok_def published_ids_def by simp
  show ?thesis
  proof (cases "(\<exists>b j d. a = Some b \<and> i = Some j \<and> Domains s j = Some d)")
    case False
    then show ?thesis
      using run inv log by (auto simp: on_proof_verified_def split: option.splits)
  next
    case True
    then obtain b j d where a: "a = Some b" "i = Some j" and d: "Domains s j = Some d" by blast
    note D = agg_invD [OF inv d]
    have ok: "domain_ok cfg (SubmittersAllowlist s (dom_id d)) d" using D(2,3) by simp
    obtain d' s1 where m: "proof_for_domain cfg b j st (d, s) = ((d', s1), Inr ())"
      and s': "s' = s1\<lparr>Domains := (Domains s1)(j := Some d')\<rparr>"
      using run a d by (auto simp: on_proof_verified_def try_mutate_Inr)
    have pub: "published_ok cfg s" using inv by (simp add: agg_inv_def)
    show ?thesis
    proof (cases rule: proof_for_domain_cases [OF laws ok, of b j st, case_names panics refused added])
      case panics
      then show ?thesis using m by simp
    next
      case (refused l cause)
      then show ?thesis
        using m unfolding s'
        by (intro agg_inv_changed [OF inv d])
          (auto simp: same_other_domains_logged published_logged pub D)
    next
      case (added l es)
      have "domain_ok cfg (SubmittersAllowlist s j) (settle (SubmittersAllowlist s j)
          (with_statement (new_entry cfg d b st) d))"
        using added(3) D(3)
        by (intro domain_ok_settle domain_ok_with_statement) (simp_all add: accepts_proof_def)
      moreover have "unpublished (with_statement (new_entry cfg d b st) d) (published_ids s j)"
        using added(3) D(3,4) by (intro unpublished_with_statement) (simp_all add: accepts_proof_def)
      ultimately show ?thesis
        using m added(1) D(2) unfolding s'
        by (intro agg_inv_changed [OF inv d])
          (auto simp: same_other_domains_logged published_logged pub)
    qed
  qed
qed


section \<open>Publishing\<close>

definition origin_user :: "('l, 't) agg_config \<Rightarrow> origin \<Rightarrow> user option" where
  "origin_user cfg og =
     (if agg_manager cfg og then Some Manager
      else case og of Signed a \<Rightarrow> Some (Account a) | _ \<Rightarrow> None)"

lemma user_from_origin_eq:
  "user_from_origin cfg og s =
     (s, case origin_user cfg og of Some u \<Rightarrow> Inr u | None \<Rightarrow> Inl BadOrigin)"
  by (simp add: user_from_origin_def origin_user_def act_bind_def ensure_signed_def split: origin.splits)

text \<open>The aggregation that \<open>take_aggregation\<close> finds, and the domain without it.\<close>

definition takes :: "nat \<Rightarrow> 't domain \<Rightarrow> aggregation option" where
  "takes k d =
     (if ag_id (dom_next d) = k
      then (if ag_statements (dom_next d) = [] then None else Some (dom_next d))
      else map_of (dom_should_publish d) k)"

definition taken :: "nat \<Rightarrow> 't domain \<Rightarrow> 't domain" where
  "taken k d =
     (if ag_id (dom_next d) = k then popped d
      else d\<lparr>dom_should_publish := filter (\<lambda>e. fst e \<noteq> k) (dom_should_publish d)\<rparr>)"

lemma take_aggregation_eq:
  assumes "ag_size (dom_next d) \<le> AggregationSize cfg"
  shows "\<exists>es d'. take_aggregation cfg k (d, s) =
     (case takes k d of
        None \<Rightarrow> ((d', s), Inr None)
      | Some a \<Rightarrow> ((taken k d, logged es s), Inr (Some a)))"
proof (cases "ag_id (dom_next d) = k")
  case True
  obtain es where "pop_next_aggregation cfg (d, s) =
     (if ag_statements (dom_next d) = [] then ((d, s), Inr None)
      else ((popped d, logged es s), Inr (Some (dom_next d))))"
    using pop_next_aggregation_eq [OF assms] by blast
  then show ?thesis
    using True by (intro exI [of _ es] exI [of _ d]) (auto simp: take_aggregation_def takes_def taken_def)
next
  case False
  then show ?thesis
    by (intro exI [of _ "[]"] exI [of _ "taken k d"])
      (auto simp: take_aggregation_def takes_def taken_def split: option.splits)
qed

definition may_aggregate :: "user \<Rightarrow> 't domain \<Rightarrow> aggregation \<Rightarrow> bool" where
  "may_aggregate u d a \<longleftrightarrow>
     can_user_aggregate_it (dom_aggregate_rules d) u (dom_owner d) (dom_delivery_owner d) a"

lemma taken_sel [simp]:
  "dom_id (taken k d) = dom_id d" "dom_owner (taken k d) = dom_owner d"
  "dom_aggregate_rules (taken k d) = dom_aggregate_rules d"
  "dom_delivery_owner (taken k d) = dom_delivery_owner d" "dom_delivery (taken k d) = dom_delivery d"
  "dom_proof_rules (taken k d) = dom_proof_rules d"
  "dom_max_aggregation_size (taken k d) = dom_max_aggregation_size d"
  "dom_publish_queue_size (taken k d) = dom_publish_queue_size d"
  "may_aggregate u (taken k d) a = may_aggregate u d a"
  by (simp_all add: taken_def may_aggregate_def)

definition paid_out ::
  "('l, 't) agg_config \<Rightarrow> user \<Rightarrow> 't domain \<Rightarrow> nat \<Rightarrow> aggregation \<Rightarrow> ('l, 't) agg_storage \<Rightarrow> ('l, 't) agg_storage"
where
  "paid_out cfg u d i a s =
     s\<lparr>agg_ledger := fold (pay_statement cfg (user_account u) (dom_delivery_owner d)) (ag_statements a)
          (agg_ledger s),
       Published := Published s @ [(i, a)]\<rparr>"

lemma publish_aggregation_eq:
  assumes "ag_size (dom_next d) \<le> AggregationSize cfg"
  shows "\<exists>es w. publish_aggregation cfg u i k (d, s) =
     (case takes k d of
        None \<Rightarrow> (w, Inl (ModuleErr InvalidAggregationId))
      | Some a \<Rightarrow>
          if may_aggregate u d a
          then let d' = settle (SubmittersAllowlist s (dom_id d)) (taken k d) in
               ((d', logged es (paid_out cfg u d i a s)), Inr (compute_receipt cfg a, d'))
          else (w, Inl BadOrigin))"
proof -
  obtain es d1 where t: "take_aggregation cfg k (d, s) =
     (case takes k d of
        None \<Rightarrow> ((d1, s), Inr None)
      | Some a \<Rightarrow> ((taken k d, logged es s), Inr (Some a)))"
    using take_aggregation_eq [OF assms] by blast
  show ?thesis
  proof (cases "takes k d")
    case None
    then show ?thesis by (auto simp: publish_aggregation_def act_bind_def t)
  next
    case (Some a)
    let ?s = "paid_out cfg u d i a (logged es s)"
    obtain es' where h: "handle_hold_state (taken k d, ?s) =
        ((settle (SubmittersAllowlist s (dom_id d)) (taken k d), logged es' ?s), Inr ())"
      using handle_hold_state_eq [of "taken k d" ?s] by (auto simp: paid_out_def)
    have log: "logged es' ?s = logged (es @ es') (paid_out cfg u d i a s)"
      by (simp add: paid_out_def logged_def del: logged_fold)
    show ?thesis
    proof (cases "may_aggregate u d a")
      case True
      then have "publish_aggregation cfg u i k (d, s) =
          act_then handle_hold_state (act_bind (self (\<lambda>d. d)) (\<lambda>d. act_return (compute_receipt cfg a, d)))
            (taken k d, ?s)"
        using Some by (simp add: publish_aggregation_def act_bind_def t then_ensure may_aggregate_def
            paid_out_def)
      then show ?thesis
        using True Some h log by (intro exI [of _ "es @ es'"]) (simp add: act_then_def act_bind_def Let_def)
    next
      case False
      then show ?thesis
        using Some by (auto simp: publish_aggregation_def act_bind_def t then_ensure may_aggregate_def)
    qed
  qed
qed

lemma case_Inr:
  "(case x of Inl e \<Rightarrow> act_fail (f e) | Inr y \<Rightarrow> act_return y) s = (s', Inr z) \<longleftrightarrow> x = Inr z \<and> s' = s"
  by (cases x) auto

lemma agg_inv_sized:
  "agg_inv cfg s \<Longrightarrow> Domains s i = Some d \<Longrightarrow> ag_size (dom_next d) \<le> AggregationSize cfg"
  using agg_invD(3) by (fastforce simp: domain_ok_def next_ok_def)

lemma aggregate_Inr:
  assumes "agg_inv cfg s"
  shows "aggregate cfg og i k s = (s', Inr ()) \<longleftrightarrow>
     (\<exists>u d a es. origin_user cfg og = Some u \<and> Domains s i = Some d \<and> takes k d = Some a \<and>
        may_aggregate u d a \<and>
        dispatch_aggregation cfg i k (compute_receipt cfg a) (dl_destination (dom_delivery d))
          (dl_fee (dom_delivery d)) (dom_delivery_owner d) = Inr () \<and>
        publish_aggregation cfg u i k (d, s) =
          ((settle (SubmittersAllowlist s (dom_id d)) (taken k d), logged es (paid_out cfg u d i a s)),
           Inr (compute_receipt cfg a, settle (SubmittersAllowlist s (dom_id d)) (taken k d))) \<and>
        s' = logged (es @ [NewAggregationReceipt i k (compute_receipt cfg a)])
          ((paid_out cfg u d i a s)\<lparr>Domains := (Domains s)(i := Some
             (settle (SubmittersAllowlist s (dom_id d)) (taken k d)))\<rparr>))"
  (is "?L \<longleftrightarrow> ?R")
proof
  assume ?L
  then obtain u root dd s1 where u: "origin_user cfg og = Some u"
    and m: "try_mutate i (publish_aggregation cfg u i k) s = (s1, Inr (root, dd))"
    and rest: "dispatch_aggregation cfg i k root (dl_destination (dom_delivery dd))
        (dl_fee (dom_delivery dd)) (dom_delivery_owner dd) = Inr ()"
      "s' = logged [NewAggregationReceipt i k root] s1"
    by (auto simp: aggregate_def act_bind_eq_Inr act_then_eq_Inr user_from_origin_eq case_Inr
        split: option.splits)
  from m obtain d d' s2 where d: "Domains s i = Some d"
    and p: "publish_aggregation cfg u i k (d, s) = ((d', s2), Inr (root, dd))"
    and s1: "s1 = s2\<lparr>Domains := (Domains s2)(i := Some d')\<rparr>" by (auto simp: try_mutate_Inr)
  obtain es w where eq: "publish_aggregation cfg u i k (d, s) =
     (case takes k d of
        None \<Rightarrow> (w, Inl (ModuleErr InvalidAggregationId))
      | Some a \<Rightarrow>
          if may_aggregate u d a
          then let d' = settle (SubmittersAllowlist s (dom_id d)) (taken k d) in
               ((d', logged es (paid_out cfg u d i a s)), Inr (compute_receipt cfg a, d'))
          else (w, Inl BadOrigin))"
    using publish_aggregation_eq [OF agg_inv_sized [OF assms d], of u i k s] by blast
  then obtain a where a: "takes k d = Some a" "may_aggregate u d a"
    using p by (auto split: option.splits if_splits)
  have d': "d' = settle (SubmittersAllowlist s (dom_id d)) (taken k d)" "dd = d'"
    "s2 = logged es (paid_out cfg u d i a s)" "root = compute_receipt cfg a"
    using p eq a by (auto simp: Let_def)
  have "Domains (paid_out cfg u d i a s) = Domains s" by (simp add: paid_out_def)
  then have "s' = logged (es @ [NewAggregationReceipt i k (compute_receipt cfg a)])
      ((paid_out cfg u d i a s)\<lparr>Domains := (Domains s)(i := Some d')\<rparr>)"
    unfolding rest(2) s1 d' by (simp add: logged_def del: logged_fold)
  then show ?R
    using u d a rest(1) p unfolding d' by (intro exI conjI) auto
next
  assume ?R
  then obtain u d a es where u: "origin_user cfg og = Some u" and d: "Domains s i = Some d"
    and ok: "dispatch_aggregation cfg i k (compute_receipt cfg a) (dl_destination (dom_delivery d))
        (dl_fee (dom_delivery d)) (dom_delivery_owner d) = Inr ()"
    and p: "publish_aggregation cfg u i k (d, s) =
        ((settle (SubmittersAllowlist s (dom_id d)) (taken k d), logged es (paid_out cfg u d i a s)),
         Inr (compute_receipt cfg a, settle (SubmittersAllowlist s (dom_id d)) (taken k d)))"
    and s': "s' = logged (es @ [NewAggregationReceipt i k (compute_receipt cfg a)])
        ((paid_out cfg u d i a s)\<lparr>Domains := (Domains s)(i := Some
          (settle (SubmittersAllowlist s (dom_id d)) (taken k d)))\<rparr>)"
    by blast
  let ?d = "settle (SubmittersAllowlist s (dom_id d)) (taken k d)"
  let ?s = "logged es (paid_out cfg u d i a s)"
  let ?x = "(compute_receipt cfg a, ?d)"
  have "try_mutate i (publish_aggregation cfg u i k) s = (?s\<lparr>Domains := (Domains ?s)(i := Some ?d)\<rparr>, Inr ?x)"
    by (simp add: try_mutate_def d p)
  moreover have "Domains (paid_out cfg u d i a s) = Domains s" by (simp add: paid_out_def)
  ultimately show ?L
    using ok unfolding s' by (simp add: aggregate_def act_bind_def act_then_def user_from_origin_eq u
        ensure_apply)
qed

lemma takes_SomeD:
  assumes "domain_ok cfg al d" and "takes k d = Some a"
  shows "ag_id a = k" and "k \<noteq> 0" and "ag_statements a \<noteq> []"
    and "length (ag_statements a) \<le> AggregationSize cfg" and "\<not> no_statements d"
    and "ag_size a = dom_max_aggregation_size d"
proof -
  have nx: "next_ok d" and q: "queue_ok d" and size: "dom_max_aggregation_size d \<le> AggregationSize cfg"
    using assms(1) by (simp_all add: domain_ok_def)
  have "ag_id a = k \<and> k \<noteq> 0 \<and> ag_statements a \<noteq> [] \<and>
      length (ag_statements a) \<le> dom_max_aggregation_size d \<and> \<not> no_statements d \<and>
      ag_size a = dom_max_aggregation_size d"
  proof (cases "ag_id (dom_next d) = k")
    case True
    then show ?thesis
      using assms(2) nx by (auto simp: takes_def next_ok_def no_statements_def split: if_splits)
  next
    case False
    then have "(k, a) \<in> set (dom_should_publish d)"
      using assms(2) by (auto simp: takes_def intro: map_of_SomeD)
    then show ?thesis
      using q nx by (fastforce simp: queue_ok_def next_ok_def id_used_def no_statements_def)
  qed
  then show "ag_id a = k" and "k \<noteq> 0" and "ag_statements a \<noteq> []"
    and "length (ag_statements a) \<le> AggregationSize cfg" and "\<not> no_statements d"
    and "ag_size a = dom_max_aggregation_size d"
    using size by auto
qed

lemma btree_filter: "btree m \<Longrightarrow> btree (filter P m)"
  by (induction m) (auto simp: btree_def)

lemma domain_ok_taken:
  assumes ok: "domain_ok cfg al d" and t: "takes k d = Some a"
  shows "domain_ok cfg al (taken k d)"
proof -
  have nx: "next_ok d" and q: "queue_ok d" using ok by (simp_all add: domain_ok_def)
  have st: "dom_state d \<noteq> Removable" using takes_SomeD(5) [OF ok t] ok by (auto simp: domain_ok_def)
  show ?thesis
  proof (cases "ag_id (dom_next d) = k")
    case True
    then have "queue_ok (popped d)" using takes_SomeD(2) [OF ok t] by (intro queue_ok_popped [OF q]) simp
    then show ?thesis
      using ok st next_ok_popped [OF nx] True by (auto simp: taken_def domain_ok_def)
  next
    case False
    let ?q = "filter (\<lambda>e. fst e \<noteq> k) (dom_should_publish d)"
    have "length ?q \<le> dom_publish_queue_size d"
      using q length_filter_le [of "\<lambda>e. fst e \<noteq> k" "dom_should_publish d"]
      by (simp add: queue_ok_def del: length_filter_le)
    then show ?thesis
      using ok st nx q False
      by (auto simp: taken_def domain_ok_def queue_ok_def next_ok_def id_used_def btree_filter)
  qed
qed

lemma id_used_taken:
  "domain_ok cfg al d \<Longrightarrow> takes k d = Some a \<Longrightarrow> id_used d j \<Longrightarrow> id_used (taken k d) j"
  using takes_SomeD(2) by (fastforce simp: taken_def id_used_def)

lemma queue_ids: "queue_ok d \<Longrightarrow> j \<in> fst ` set (dom_should_publish d) \<Longrightarrow> id_used d j"
  by (fastforce simp: queue_ok_def)

lemma unpublished_taken:
  assumes ok: "domain_ok cfg al d" and t: "takes k d = Some a" and u: "unpublished d ks"
  shows "unpublished (taken k d) (insert k ks)" and "k \<notin> ks"
proof -
  have q: "queue_ok d" using ok by (simp add: domain_ok_def)
  note k = takes_SomeD(2) [OF ok t]
  have "id_used (taken k d) k \<and> k \<notin> fst ` set (dom_should_publish (taken k d)) \<and> k \<notin> ks"
  proof (cases "ag_id (dom_next d) = k")
    case True
    then have "\<not> id_used d k" using k by (simp add: id_used_def)
    then show ?thesis
      using True k u queue_ids [OF q, of k] by (auto simp: taken_def id_used_def unpublished_def)
  next
    case False
    then have "k \<in> fst ` set (dom_should_publish d)"
      using t by (auto simp: takes_def dest: map_of_SomeD intro: rev_image_eqI)
    then show ?thesis
      using False u queue_ids [OF q, of k] by (auto simp: taken_def id_used_def unpublished_def)
  qed
  moreover have "fst ` set (dom_should_publish (taken k d)) \<subseteq> fst ` set (dom_should_publish d)"
    by (auto simp: taken_def)
  ultimately show "unpublished (taken k d) (insert k ks)" and "k \<notin> ks"
    using u id_used_taken [OF ok t] by (auto simp: unpublished_def)
qed

lemma published_ids_paid_out:
  "published_ids (logged es (paid_out cfg u d i a s)) j =
     (if j = i then insert (ag_id a) (published_ids s j) else published_ids s j)"
  by (auto simp: published_ids_def paid_out_def)

lemma published_ok_paid_out:
  assumes "published_ok cfg s" and "ag_id a \<notin> published_ids s i" and "i < NextDomainId s"
    and "ag_statements a \<noteq> []" and "length (ag_statements a) \<le> AggregationSize cfg"
  shows "published_ok cfg (logged es (paid_out cfg u d i a s))"
  using assms by (force simp: published_ok_def paid_out_def published_ids_def)

lemma aggregate_inv:
  assumes inv: "agg_inv cfg s" and run: "aggregate cfg og i k s = (s', Inr ())"
  shows "agg_inv cfg s'"
proof -
  obtain u d a es where d: "Domains s i = Some d" and t: "takes k d = Some a"
    and s': "s' = logged es ((paid_out cfg u d i a s)\<lparr>Domains := (Domains s)(i := Some
             (settle (SubmittersAllowlist s (dom_id d)) (taken k d)))\<rparr>)"
    using run unfolding aggregate_Inr [OF inv] by blast
  note D = agg_invD [OF inv d]
  note T = takes_SomeD [OF D(3) t]
  let ?s = "logged es (paid_out cfg u d i a s)"
  have "s' = ?s\<lparr>Domains := (Domains ?s)(i := Some (settle (SubmittersAllowlist s (dom_id d)) (taken k d)))\<rparr>"
    unfolding s' by (simp add: logged_def paid_out_def del: logged_fold)
  moreover have "same_other_domains i s ?s"
    by (simp add: same_other_domains_def published_ids_paid_out) (simp add: paid_out_def)
  moreover have "published_ok cfg ?s"
    using inv unpublished_taken(2) [OF D(3) t D(4)] T D(1)
    by (intro published_ok_paid_out) (simp_all add: agg_inv_def)
  moreover have "domain_ok cfg (SubmittersAllowlist ?s i) (settle (SubmittersAllowlist s (dom_id d)) (taken k d))"
    using domain_ok_settle [OF domain_ok_taken [OF D(3) t]] D(2) by (simp add: paid_out_def)
  moreover have "unpublished (taken k d) (published_ids ?s i)"
    using unpublished_taken(1) [OF D(3) t D(4)] T(1) by (simp add: published_ids_paid_out)
  ultimately show ?thesis
    using agg_inv_changed [OF inv d, of ?s] D(2) by simp
qed


section \<open>The other calls\<close>

definition queue_size :: "('l, 't) agg_config \<Rightarrow> nat option \<Rightarrow> nat" where
  "queue_size cfg q = (case q of Some m \<Rightarrow> m | None \<Rightarrow> MaxPendingPublishQueueSize cfg)"

definition fresh_domain ::
  "nat \<Rightarrow> user \<Rightarrow> nat \<Rightarrow> nat \<Rightarrow> aggregate_rule \<Rightarrow> proof_rule \<Rightarrow> account \<Rightarrow> delivery \<Rightarrow>
   't option \<Rightarrow> ('t \<times> nat) option \<Rightarrow> 't domain"
where
  "fresh_domain i u n q ar pr owner dl td ta =
     \<lparr>dom_id = i, dom_owner = u, dom_state = Ready, dom_next = aggregation_create 1 n,
      dom_max_aggregation_size = n, dom_should_publish = [], dom_publish_queue_size = q,
      dom_ticket_domain = td, dom_ticket_allowlist = ta, dom_aggregate_rules = ar,
      dom_proof_rules = pr, dom_delivery_owner = owner, dom_delivery = dl\<rparr>"

lemma new_ticket_ledger:
  assumes "new_ticket c a m b s = (s', Inr t)"
  shows "\<exists>l. s' = s\<lparr>agg_ledger := l\<rparr>"
proof (cases a)
  case None
  then have "s' = s\<lparr>agg_ledger := agg_ledger s\<rparr>" using assms by (simp add: new_ticket_def)
  then show ?thesis by blast
next
  case (Some x)
  then show ?thesis using assms by (auto simp: new_ticket_def split: sum.splits prod.splits)
qed

lemma register_domain_Inr:
  assumes "register_domain cfg og n q ar pr dl ow s = (s', Inr ())"
  obtains u owner td ta l where "origin_user cfg og = Some u" and "NextDomainId s \<noteq> u32_max"
    and "can_create_domain u (dl_destination dl)"
    and "(case ow of Some a \<Rightarrow> Some a | None \<Rightarrow> user_account u) = Some owner"
    and "0 < n" and "n \<le> AggregationSize cfg"
    and "0 < queue_size cfg q" and "queue_size cfg q \<le> MaxPendingPublishQueueSize cfg"
    and "s' = logged [NewDomain (NextDomainId s)] (s\<lparr>agg_ledger := l, NextDomainId := NextDomainId s + 1,
      Domains := (Domains s)(NextDomainId s :=
        Some (fresh_domain (NextDomainId s) u n (queue_size cfg q) ar pr owner dl td ta))\<rparr>)"
proof -
  from assms obtain u owner s1 s2 td ta where u: "origin_user cfg og = Some u"
    and c: "can_create_domain u (dl_destination dl)"
    and ow: "(case ow of Some a \<Rightarrow> Some a | None \<Rightarrow> user_account u) = Some owner"
    and i: "NextDomainId s \<noteq> u32_max"
    and t1: "new_ticket (ConsiderationDomain cfg) (user_account u) 1
        (domain_encoded_size (encoded cfg) n (queue_size cfg q) (dl_destination dl)) s = (s1, Inr td)"
    and t2: "(if pr = ProofOnlyAllowlisted then new_ticket (ConsiderationAllowList cfg) (user_account u) 0 0
        else act_return None) s1 = (s2, Inr ta)"
    and sizes: "n \<noteq> 0 \<and> queue_size cfg q \<noteq> 0 \<and> n \<le> AggregationSize cfg \<and>
        queue_size cfg q \<le> MaxPendingPublishQueueSize cfg"
    and s': "s' = s2\<lparr>Domains := (Domains s2)(NextDomainId s := Some (fresh_domain (NextDomainId s) u n
          (queue_size cfg q) ar pr owner dl td (map_option (\<lambda>t. (t, 0)) ta))),
        NextDomainId := NextDomainId s + 1, agg_events := agg_events s2 @ [NewDomain (NextDomainId s)]\<rparr>"
    unfolding register_domain_def queue_size_def [symmetric] Let_def fresh_domain_def [symmetric]
    by (auto simp: act_bind_eq_Inr act_then_eq_Inr user_from_origin_eq split: option.splits)
  obtain l1 where l1: "s1 = s\<lparr>agg_ledger := l1\<rparr>" using new_ticket_ledger [OF t1] by blast
  have "\<exists>l. s2 = s1\<lparr>agg_ledger := l\<rparr>"
  proof (cases "pr = ProofOnlyAllowlisted")
    case True
    then show ?thesis using new_ticket_ledger t2 by simp
  next
    case False
    then have "s2 = s1\<lparr>agg_ledger := agg_ledger s1\<rparr>" using t2 by simp
    then show ?thesis by blast
  qed
  then obtain l where "s2 = s\<lparr>agg_ledger := l\<rparr>" using l1 by auto
  then have "s' = logged [NewDomain (NextDomainId s)] (s\<lparr>agg_ledger := l, NextDomainId := NextDomainId s + 1,
      Domains := (Domains s)(NextDomainId s := Some (fresh_domain (NextDomainId s) u n
        (queue_size cfg q) ar pr owner dl td (map_option (\<lambda>t. (t, 0)) ta)))\<rparr>)"
    unfolding s' by (simp add: logged_def del: logged_fold)
  then show thesis using u i c ow sizes by (intro that) simp_all
qed

lemma agg_inv_ledger: "agg_inv cfg (s\<lparr>agg_ledger := l\<rparr>) = agg_inv cfg s"
  by (simp add: agg_inv_def published_ok_def published_ids_def)

lemma agg_inv_logged [simp]: "agg_inv cfg (logged es s) = agg_inv cfg s"
  by (simp add: agg_inv_def published_ok_def published_ids_def)

lemma domain_ok_fresh:
  assumes "0 < n" "n \<le> AggregationSize cfg" "q \<le> MaxPendingPublishQueueSize cfg"
  shows "domain_ok cfg [] (fresh_domain i u n q ar pr owner dl td ta)"
  using assms
  by (simp add: domain_ok_def fresh_domain_def next_ok_def queue_ok_def btree_def aggregation_create_def
      u64_max_def)

lemma register_domain_inv:
  assumes inv: "agg_inv cfg s" and run: "register_domain cfg og n q ar pr dl ow s = (s', Inr ())"
  shows "agg_inv cfg s'"
proof -
  let ?i = "NextDomainId s"
  from run obtain u owner td ta l where i: "?i \<noteq> u32_max" and n: "0 < n" "n \<le> AggregationSize cfg"
    and q: "queue_size cfg q \<le> MaxPendingPublishQueueSize cfg"
    and s': "s' = logged [NewDomain ?i] (s\<lparr>agg_ledger := l, NextDomainId := ?i + 1,
      Domains := (Domains s)(?i := Some (fresh_domain ?i u n (queue_size cfg q) ar pr owner dl td ta))\<rparr>)"
    by (elim register_domain_Inr)
  let ?d = "fresh_domain ?i u n (queue_size cfg q) ar pr owner dl td ta"
  have none: "Domains s ?i = None" using agg_invD(1) [OF inv, of ?i] by (cases "Domains s ?i") auto
  have slots: "slot_ok cfg ?i (SubmittersAllowlist s j) (published_ids s j) j (Domains s j)" for j
    using inv by (simp add: agg_inv_def)
  have "SubmittersAllowlist s ?i = []" using slots [of ?i] none by simp
  moreover have "published_ids s ?i = {}"
    using inv by (force simp: agg_inv_def published_ok_def published_ids_def)
  moreover have "dom_id ?d = ?i" by (simp add: fresh_domain_def)
  ultimately have new: "slot_ok cfg (?i + 1) (SubmittersAllowlist s ?i) (published_ids s ?i) ?i (Some ?d)"
    using domain_ok_fresh [OF n q] by (simp add: unpublished_def)
  have old: "slot_ok cfg (?i + 1) (SubmittersAllowlist s j) (published_ids s j) j (Domains s j)" for j
    using slots [of j] by (cases "Domains s j") auto
  have pub: "published_ids (s\<lparr>agg_ledger := l, NextDomainId := m, Domains := D\<rparr>) j = published_ids s j" for m D j
    by (simp add: published_ids_def)
  have "published_ok cfg (s\<lparr>agg_ledger := l, NextDomainId := ?i + 1, Domains := D\<rparr>)" for D
    using inv by (force simp: agg_inv_def published_ok_def)
  moreover have "?i + 1 \<le> u32_max" using inv i by (simp add: agg_inv_def)
  ultimately show ?thesis
    using new old unfolding s' agg_inv_logged unfolding agg_inv_def pub by simp
qed

lemma hold_domain_Inr:
  "hold_domain cfg og i s = (s', Inr ()) \<longleftrightarrow>
     (\<exists>u d. origin_user cfg og = Some u \<and> Domains s i = Some d \<and> can_handle_domain u d \<and>
        dom_state d = Ready \<and>
        (let d' = settle (SubmittersAllowlist s (dom_id d)) (d\<lparr>dom_state := Hold\<rparr>) in
         s' = logged [DomainStateChanged (dom_id d) (dom_state d')]
           (s\<lparr>Domains := (Domains s)(i := Some d')\<rparr>)))"
  by (auto simp: hold_domain_def act_bind_eq_Inr act_then_eq_Inr user_from_origin_eq try_mutate_Inr
      update_hold_state_eq emit_eq settle_def Let_def logged_def simp del: logged_fold split: option.splits)

lemma domain_ok_held: "domain_ok cfg al d \<Longrightarrow> domain_ok cfg al (d\<lparr>dom_state := Hold\<rparr>)"
  by (auto simp: domain_ok_def next_ok_def queue_ok_def id_used_def)

lemma hold_domain_inv:
  assumes inv: "agg_inv cfg s" and run: "hold_domain cfg og i s = (s', Inr ())"
  shows "agg_inv cfg s'"
proof -
  obtain d es where d: "Domains s i = Some d"
    and s': "s' = logged es (s\<lparr>Domains := (Domains s)(i := Some
      (settle (SubmittersAllowlist s (dom_id d)) (d\<lparr>dom_state := Hold\<rparr>)))\<rparr>)"
    using run unfolding hold_domain_Inr Let_def by blast
  note D = agg_invD [OF inv d]
  have "unpublished (d\<lparr>dom_state := Hold\<rparr>) (published_ids s i)"
    using D(4) by (simp add: unpublished_def id_used_def)
  then show ?thesis
    unfolding s' using D(2) inv domain_ok_settle [OF domain_ok_held [OF D(3)]]
    by (simp add: agg_inv_changed [OF inv d] same_other_domains_def agg_inv_def [THEN iffD1, OF inv])
qed

lemma unregister_domain_Inr:
  "unregister_domain cfg og i s = (s', Inr ()) \<longleftrightarrow>
     (\<exists>u d payer. origin_user cfg og = Some u \<and> Domains s i = Some d \<and> can_handle_domain u d \<and>
        dom_state d = Removable \<and>
        payer = (case user_account u of Some a \<Rightarrow> Some a | None \<Rightarrow> user_account (dom_owner d)) \<and>
        s' = logged [DomainStateChanged (dom_id d) Removed] (s\<lparr>agg_ledger :=
             drop_ticket (ConsiderationAllowList cfg) payer (map_option fst (dom_ticket_allowlist d))
               (drop_ticket (ConsiderationDomain cfg) payer (dom_ticket_domain d) (agg_ledger s)),
           Domains := (Domains s)(i := None)\<rparr>))"
  by (auto simp: unregister_domain_def act_bind_eq_Inr user_from_origin_eq Let_def logged_def
      simp del: logged_fold split: option.splits if_splits)

lemma unregister_domain_inv:
  assumes inv: "agg_inv cfg s" and run: "unregister_domain cfg og i s = (s', Inr ())"
  shows "agg_inv cfg s'"
proof -
  obtain d l where d: "Domains s i = Some d" "dom_state d = Removable"
    and s': "s' = logged [DomainStateChanged (dom_id d) Removed]
      (s\<lparr>agg_ledger := l, Domains := (Domains s)(i := None)\<rparr>)"
    using run unfolding unregister_domain_Inr by blast
  have "SubmittersAllowlist s i = []" using agg_invD(3) [OF inv d(1)] d(2) by (simp add: domain_ok_def)
  then show ?thesis
    unfolding s' using inv by (simp add: agg_inv_def published_ok_def published_ids_def)
qed

text \<open>
  The calls that change neither the aggregations nor the rules of a domain: what they may change of it is
  its delivery fee and its ticket for the allowlist.
\<close>

definition same_work :: "'t domain \<Rightarrow> 't domain \<Rightarrow> bool" where
  "same_work d d' \<longleftrightarrow>
     dom_id d' = dom_id d \<and> dom_owner d' = dom_owner d \<and> dom_state d' = dom_state d \<and>
     dom_next d' = dom_next d \<and> dom_should_publish d' = dom_should_publish d \<and>
     dom_max_aggregation_size d' = dom_max_aggregation_size d \<and>
     dom_publish_queue_size d' = dom_publish_queue_size d \<and> dom_proof_rules d' = dom_proof_rules d \<and>
     dom_aggregate_rules d' = dom_aggregate_rules d \<and> dom_delivery_owner d' = dom_delivery_owner d"

lemma same_work_ok:
  "same_work d d' \<Longrightarrow> domain_ok cfg al d' = domain_ok cfg al d"
  "same_work d d' \<Longrightarrow> unpublished d' ks = unpublished d ks"
  by (auto simp: same_work_def domain_ok_def next_ok_def queue_ok_def id_used_def no_statements_def
      unpublished_def)

lemma set_total_delivery_fee_Inr:
  "set_total_delivery_fee cfg og i fee tip s = (s', Inr ()) \<longleftrightarrow>
     (\<exists>u d. origin_user cfg og = Some u \<and> Domains s i = Some d \<and> can_set_total_delivery_fee u d \<and>
        s' = s\<lparr>Domains := (Domains s)(i := Some
          (d\<lparr>dom_delivery := (dom_delivery d)\<lparr>dl_fee := fee, dl_owner_tip := tip\<rparr>\<rparr>))\<rparr>)"
  by (auto simp: set_total_delivery_fee_def act_bind_eq_Inr act_then_eq_Inr user_from_origin_eq
      try_mutate_Inr split: option.splits)

lemma set_total_delivery_fee_inv:
  assumes inv: "agg_inv cfg s" and run: "set_total_delivery_fee cfg og i fee tip s = (s', Inr ())"
  shows "agg_inv cfg s'"
proof -
  obtain d where d: "Domains s i = Some d"
    and s': "s' = s\<lparr>Domains := (Domains s)(i := Some
          (d\<lparr>dom_delivery := (dom_delivery d)\<lparr>dl_fee := fee, dl_owner_tip := tip\<rparr>\<rparr>))\<rparr>"
    using run unfolding set_total_delivery_fee_Inr by blast
  note D = agg_invD [OF inv d]
  have "same_work d (d\<lparr>dom_delivery := (dom_delivery d)\<lparr>dl_fee := fee, dl_owner_tip := tip\<rparr>\<rparr>)"
    by (simp add: same_work_def)
  then show ?thesis
    unfolding s' using D inv
    by (intro agg_inv_changed [OF inv d]) (simp_all add: same_work_ok same_other_domains_def agg_inv_def)
qed

lemma update_footprint_Inr:
  assumes "update_footprint cfg f (d, s) = (w, Inr ())"
  obtains t l where "w = (d\<lparr>dom_ticket_allowlist := t\<rparr>, s\<lparr>agg_ledger := l\<rparr>)"
proof -
  have "\<exists>t l. w = (d\<lparr>dom_ticket_allowlist := t\<rparr>, s\<lparr>agg_ledger := l\<rparr>)"
  proof (cases "user_account (dom_owner d) = None \<or> dom_ticket_allowlist d = None")
    case True
    then have "w = (d, s)" using assms by (auto simp: update_footprint_def split: option.splits)
    then have "w = (d\<lparr>dom_ticket_allowlist := dom_ticket_allowlist d\<rparr>, s\<lparr>agg_ledger := agg_ledger s\<rparr>)"
      by simp
    then show ?thesis by blast
  next
    case False
    then obtain a t old where "user_account (dom_owner d) = Some a" "dom_ticket_allowlist d = Some (t, old)"
      by auto
    then show ?thesis
      using assms by (auto simp: update_footprint_def act_bind_eq_Inr on_ledger_def
          split: option.splits sum.splits prod.splits)
  qed
  then show thesis using that by blast
qed

definition listed :: "nat \<Rightarrow> account list \<Rightarrow> ('l, 't) agg_storage \<Rightarrow> ('l, 't) agg_storage" where
  "listed i al s = s\<lparr>SubmittersAllowlist := (SubmittersAllowlist s)(i := al)\<rparr>"

lemma change_allowlist_apply:
  "change_allowlist f (d, s) =
     ((d, listed (dom_id d) (fst (f (SubmittersAllowlist s (dom_id d)))) s),
      Inr (snd (f (SubmittersAllowlist s (dom_id d)))))"
  by (simp add: change_allowlist_def listed_def case_prod_beta)

lemma allowlist_proof_submitters_Inr:
  assumes "allowlist_proof_submitters cfg og i as s = (s', Inr ())"
  obtains u d d' l where "origin_user cfg og = Some u" and "Domains s i = Some d"
    and "can_handle_domain u d" and "dom_state d = Ready" and "dom_proof_rules d = ProofOnlyAllowlisted"
    and "same_work d d'"
    and "s' = (listed (dom_id d) (fst (allow_new as (SubmittersAllowlist s (dom_id d)))) s)
      \<lparr>agg_ledger := l, Domains := (Domains s)(i := Some d')\<rparr>"
proof -
  from assms obtain u d d' s1 where u: "origin_user cfg og = Some u" "Domains s i = Some d"
      "can_handle_domain u d" "dom_state d = Ready" "dom_proof_rules d = ProofOnlyAllowlisted"
    and f: "increase_footprint_count cfg (snd (allow_new as (SubmittersAllowlist s (dom_id d))))
      (d, listed (dom_id d) (fst (allow_new as (SubmittersAllowlist s (dom_id d)))) s) = ((d', s1), Inr ())"
    and s': "s' = s1\<lparr>Domains := (Domains s1)(i := Some d')\<rparr>"
    by (auto simp: allowlist_proof_submitters_def act_bind_eq_Inr act_then_eq_Inr user_from_origin_eq
        try_mutate_Inr change_allowlist_apply split: option.splits)
  from f obtain t l where w: "(d', s1) = (d\<lparr>dom_ticket_allowlist := t\<rparr>,
      (listed (dom_id d) (fst (allow_new as (SubmittersAllowlist s (dom_id d)))) s)\<lparr>agg_ledger := l\<rparr>)"
    unfolding increase_footprint_count_def by (rule update_footprint_Inr)
  show thesis
    by (rule that [OF u, of d' l]) (use w s' in \<open>simp_all add: same_work_def listed_def\<close>)
qed

lemma remove_proof_submitters_Inr:
  assumes "remove_proof_submitters cfg og i as s = (s', Inr ())"
  obtains u d d' l es where "origin_user cfg og = Some u" and "Domains s i = Some d"
    and "can_handle_domain u d" and "dom_proof_rules d = ProofOnlyAllowlisted" and "same_work d d'"
    and "s' = logged es ((listed (dom_id d) (fst (disallow as (SubmittersAllowlist s (dom_id d)))) s)
      \<lparr>agg_ledger := l, Domains := (Domains s)(i := Some
         (settle (fst (disallow as (SubmittersAllowlist s (dom_id d)))) d'))\<rparr>)"
proof -
  from assms obtain u d d1 d' s1 s2 where u: "origin_user cfg og = Some u" "Domains s i = Some d"
      "can_handle_domain u d" "dom_proof_rules d = ProofOnlyAllowlisted"
    and f: "decrease_footprint_count cfg (snd (disallow as (SubmittersAllowlist s (dom_id d))))
      (d, listed (dom_id d) (fst (disallow as (SubmittersAllowlist s (dom_id d)))) s) = ((d1, s1), Inr ())"
    and h: "handle_hold_state (d1, s1) = ((d', s2), Inr ())"
    and s': "s' = s2\<lparr>Domains := (Domains s2)(i := Some d')\<rparr>"
    by (auto simp: remove_proof_submitters_def act_bind_eq_Inr act_then_eq_Inr user_from_origin_eq
        try_mutate_Inr change_allowlist_apply split: option.splits)
  from f obtain t l where w: "(d1, s1) = (d\<lparr>dom_ticket_allowlist := t\<rparr>,
      (listed (dom_id d) (fst (disallow as (SubmittersAllowlist s (dom_id d)))) s)\<lparr>agg_ledger := l\<rparr>)"
    unfolding decrease_footprint_count_def by (rule update_footprint_Inr)
  obtain es where "handle_hold_state (d1, s1) =
      ((settle (SubmittersAllowlist s1 (dom_id d1)) d1, logged es s1), Inr ())"
    using handle_hold_state_eq by blast
  then have d': "d' = settle (SubmittersAllowlist s1 (dom_id d1)) d1" "s2 = logged es s1"
    using h by auto
  show thesis
    by (rule that [OF u, of d1 es l]) (use w s' d' in \<open>simp_all add: same_work_def listed_def logged_def
        del: logged_fold\<close>)
qed

lemma agg_inv_listed:
  assumes inv: "agg_inv cfg s" and d: "Domains s i = Some d" and w: "same_work d d'"
    and ok: "domain_ok cfg al d''" and d'': "d'' = settle al d'"
  shows "agg_inv cfg ((listed i al s)\<lparr>agg_ledger := l, Domains := (Domains s)(i := Some d'')\<rparr>)"
proof -
  note D = agg_invD [OF inv d]
  let ?s = "(listed i al s)\<lparr>agg_ledger := l\<rparr>"
  have pub: "published_ids ?s j = published_ids s j" for j by (simp add: published_ids_def listed_def)
  have "same_other_domains i s ?s" by (simp add: same_other_domains_def pub) (simp add: listed_def)
  moreover have "published_ok cfg ?s" using inv by (simp add: agg_inv_def published_ok_def listed_def)
  moreover have "dom_id d'' = i" using w D(2) d'' by (simp add: same_work_def settle_def)
  moreover have "unpublished d'' (published_ids ?s i)"
    using D(4) d'' same_work_ok(2) [OF w] by (simp add: pub)
  ultimately have "agg_inv cfg (?s\<lparr>Domains := (Domains ?s)(i := Some d'')\<rparr>)"
    using ok by (intro agg_inv_changed [OF inv d]) (simp_all add: listed_def)
  then show ?thesis by (simp add: listed_def)
qed

lemma domain_ok_relisted:
  assumes "domain_ok cfg al d" and "dom_proof_rules d = ProofOnlyAllowlisted"
    and "dom_state d = Removable \<Longrightarrow> al' = []"
  shows "domain_ok cfg al' d"
  using assms by (auto simp: domain_ok_def)

lemma disallow_Nil [simp]: "fst (disallow as []) = []"
  by (induction as) auto

lemma allowlist_proof_submitters_inv:
  assumes inv: "agg_inv cfg s" and run: "allowlist_proof_submitters cfg og i as s = (s', Inr ())"
  shows "agg_inv cfg s'"
proof -
  from run obtain u d d' l where
    d: "Domains s i = Some d" "dom_state d = Ready" "dom_proof_rules d = ProofOnlyAllowlisted"
    and w: "same_work d d'"
    and s': "s' = (listed (dom_id d) (fst (allow_new as (SubmittersAllowlist s (dom_id d)))) s)
      \<lparr>agg_ledger := l, Domains := (Domains s)(i := Some d')\<rparr>"
    by (elim allowlist_proof_submitters_Inr)
  let ?al = "fst (allow_new as (SubmittersAllowlist s (dom_id d)))"
  note D = agg_invD [OF inv d(1)]
  have "domain_ok cfg ?al d'"
    unfolding same_work_ok(1) [OF w] using domain_ok_relisted [OF D(3) d(3)] d(2) by simp
  moreover have "settle ?al d' = d'"
    using w d(2) by (cases d') (simp add: settle_def settled_state_def same_work_def)
  ultimately show ?thesis
    unfolding s' using agg_inv_listed [OF inv d(1) w, of ?al d'] D(2) by simp
qed

lemma remove_proof_submitters_inv:
  assumes inv: "agg_inv cfg s" and run: "remove_proof_submitters cfg og i as s = (s', Inr ())"
  shows "agg_inv cfg s'"
proof -
  from run obtain u d d' l es where d: "Domains s i = Some d" "dom_proof_rules d = ProofOnlyAllowlisted"
    and w: "same_work d d'"
    and s': "s' = logged es ((listed (dom_id d) (fst (disallow as (SubmittersAllowlist s (dom_id d)))) s)
      \<lparr>agg_ledger := l, Domains := (Domains s)(i := Some
         (settle (fst (disallow as (SubmittersAllowlist s (dom_id d)))) d'))\<rparr>)"
    by (elim remove_proof_submitters_Inr)
  let ?al = "fst (disallow as (SubmittersAllowlist s (dom_id d)))"
  note D = agg_invD [OF inv d(1)]
  have "dom_state d = Removable \<Longrightarrow> ?al = []" using D(2,3) by (simp add: domain_ok_def)
  then have "domain_ok cfg ?al d'"
    unfolding same_work_ok(1) [OF w] by (rule domain_ok_relisted [OF D(3) d(2)])
  then have "domain_ok cfg ?al (settle ?al d')" by (rule domain_ok_settle)
  then show ?thesis
    unfolding s' using agg_inv_listed [OF inv d(1) w, of ?al "settle ?al d'"] D(2) by simp
qed

lemma agg_body_inv:
  assumes "hold_laws (agg_holds cfg)" and "agg_inv cfg s" and "agg_call_body cfg c s = (s', Inr ())"
  shows "agg_inv cfg s'"
  using assms(3)
  by (cases c) (auto intro: aggregate_inv register_domain_inv hold_domain_inv unregister_domain_inv
      set_total_delivery_fee_inv allowlist_proof_submitters_inv remove_proof_submitters_inv
      on_proof_verified_inv assms)

end
