(* ===== verification/AggregateChain.thy ===== *)
theory AggregateChain
  imports AggregateInv "HOL-Library.Multiset"
begin

text \<open>
  The aggregation pallet over the life of the chain. Aggregations that were published in former blocks
  are no longer in the storage, and no call looks at the ones that are: this makes the invariant of the
  storage one of the whole history. Then the effect of every call on the statements that wait for
  publication, and the properties that follow for every reachable state.
\<close>


section \<open>No call looks at what is published\<close>

definition recall :: "(nat \<times> aggregation) list \<Rightarrow> ('l, 't) agg_storage \<Rightarrow> ('l, 't) agg_storage" where
  "recall h s = s\<lparr>Published := h @ Published s\<rparr>"

abbreviation recall2 ::
  "(nat \<times> aggregation) list \<Rightarrow> 't domain \<times> ('l, 't) agg_storage \<Rightarrow> 't domain \<times> ('l, 't) agg_storage"
where
  "recall2 h \<equiv> map_prod (\<lambda>d. d) (recall h)"

lemma recall_sel [simp]:
  "NextDomainId (recall h s) = NextDomainId s" "Domains (recall h s) = Domains s"
  "SubmittersAllowlist (recall h s) = SubmittersAllowlist s" "Published (recall h s) = h @ Published s"
  "agg_events (recall h s) = agg_events s" "agg_ledger (recall h s) = agg_ledger s"
  "(recall h s)\<lparr>agg_events := es\<rparr> = recall h (s\<lparr>agg_events := es\<rparr>)"
  "(recall h s)\<lparr>agg_ledger := l\<rparr> = recall h (s\<lparr>agg_ledger := l\<rparr>)"
  "(recall h s)\<lparr>Domains := D\<rparr> = recall h (s\<lparr>Domains := D\<rparr>)"
  "(recall h s)\<lparr>NextDomainId := i\<rparr> = recall h (s\<lparr>NextDomainId := i\<rparr>)"
  "(recall h s)\<lparr>SubmittersAllowlist := al\<rparr> = recall h (s\<lparr>SubmittersAllowlist := al\<rparr>)"
  by (simp_all add: recall_def)

lemma commutes_self [commutes_intros]:
  "commutes (recall2 h) (self f)" "commutes (recall2 h) (set_self g)" "commutes (recall2 h) (deposit e)"
  "commutes (recall h) (agg_deposit e)"
  by (auto simp: commutes_def self_def set_self_def deposit_def agg_deposit_def split_beta
      simp del: logged_fold)

lemma commutes_option [commutes_intros]:
  "commutes f m \<Longrightarrow> (\<And>x. commutes f (k x)) \<Longrightarrow> commutes f (case y of None \<Rightarrow> m | Some x \<Rightarrow> k x)"
  by (cases y) auto

lemma commutes_ledger [commutes_intros]: "commutes (recall2 h) (on_ledger f)"
  by (auto simp: commutes_def on_ledger_def split: sum.splits)

lemma commutes_try_mutate [commutes_intros]:
  assumes "commutes (recall2 h) m"
  shows "commutes (recall h) (try_mutate i m)"
proof -
  have "m (d, recall h s) = map_prod (recall2 h) (\<lambda>r. r) (m (d, s))" for d s
    using assms by (simp add: commutes_def)
  then show ?thesis
    by (auto simp: commutes_def try_mutate_def split: option.splits prod.splits sum.splits)
qed

lemma commutes_methods [commutes_intros]:
  "commutes (recall2 h) emit_state_changed_event"
  "commutes (recall2 h) update_hold_state"
  by (auto simp: emit_state_changed_event_def update_hold_state_def is_allowlist_empty_def
      intro!: commutes_intros)

lemma commutes_hold_state [commutes_intros]: "commutes (recall2 h) handle_hold_state"
  unfolding handle_hold_state_def by (intro commutes_intros)

lemma commutes_pop [commutes_intros]: "commutes (recall2 h) (pop_next_aggregation cfg)"
  unfolding pop_next_aggregation_def by (intro commutes_intros)

lemma commutes_append [commutes_intros]: "commutes (recall2 h) (append_statement cfg a r st)"
  unfolding append_statement_def by (intro commutes_intros)

lemma commutes_available [commutes_intros]: "commutes (recall2 h) (available_aggregation cfg a)"
  unfolding available_aggregation_def by (intro commutes_intros)

lemma commutes_take [commutes_intros]: "commutes (recall2 h) (take_aggregation cfg k)"
  unfolding take_aggregation_def by (intro commutes_intros)

lemma commutes_authorized [commutes_intros]: "commutes (recall2 h) (is_authorized_to_add_proof a)"
  by (auto simp: commutes_def authorized_eq)

lemma commutes_hold_funds [commutes_intros]: "commutes (recall2 h) (hold_funds cfg r a n)"
  unfolding hold_funds_def by (intro commutes_intros)

lemma commutes_reserve [commutes_intros]: "commutes (recall2 h) (reserve_currency cfg a)"
  by (auto simp: commutes_def reserve_currency_def Let_def act_then_def act_bind_def hold_funds_def
      ensure_apply on_ledger_def split: sum.splits)

lemma commutes_proof [commutes_intros]: "commutes (recall2 h) (proof_for_domain cfg a i st)"
proof -
  have add: "commutes (recall2 h) (add_verified_proof cfg a i st r)" for r
    unfolding add_verified_proof_def by (intro commutes_intros)
  have "commutes (recall2 h) (\<lambda>w. case reserve_currency cfg a w of
      (w', Inr reserve) \<Rightarrow> add_verified_proof cfg a i st reserve w'
    | (w', Inl (PanicErr msg)) \<Rightarrow> (w', Inl (PanicErr msg))
    | (w', Inl _) \<Rightarrow> refuse_proof st InsufficientFunds w')"
    using commutes_reserve [of h cfg a] add commutes_self(3) [of h]
    by (auto simp: commutes_def refuse_proof_def split: prod.splits sum.splits dispatch_error.splits)
  then show ?thesis
    unfolding proof_for_domain_def refuse_proof_def by (intro commutes_intros)
qed

lemma commutes_verified: "commutes (recall h) (on_proof_verified cfg a i st)"
proof -
  have "commutes (recall h) (\<lambda>s. case Domains s j of
      None \<Rightarrow> agg_deposit (CannotAggregate st (DomainNotRegistered j)) s
    | Some _ \<Rightarrow> try_mutate j (proof_for_domain cfg b j st) s)" for b j
    using commutes_self(4) [of h] commutes_try_mutate [OF commutes_proof, of h j cfg b j st]
    by (auto simp: commutes_def split: option.splits)
  then show ?thesis unfolding on_proof_verified_def by (intro commutes_intros)
qed

lemma commutes_user [commutes_intros]: "commutes f (user_from_origin cfg og)"
  by (simp add: commutes_def user_from_origin_eq)

lemma commutes_publish [commutes_intros]: "commutes (recall2 h) (publish_aggregation cfg u i k)"
  unfolding publish_aggregation_def
  by (intro commutes_intros) (auto simp: recall_def)

lemma commutes_aggregate: "commutes (recall h) (aggregate cfg og i k)"
  unfolding aggregate_def by (auto intro!: commutes_intros split: sum.splits)

lemma commutes_ticket [commutes_intros]: "commutes (recall h) (new_ticket c a m b)"
  by (auto simp: commutes_def new_ticket_def split: option.splits sum.splits)

lemma commutes_register: "commutes (recall h) (register_domain cfg og n q ar pr dl ow)"
  unfolding register_domain_def Let_def by (intro commutes_intros) simp_all

lemma commutes_hold: "commutes (recall h) (hold_domain cfg og i)"
  unfolding hold_domain_def by (intro commutes_intros)

lemma commutes_unregister: "commutes (recall h) (unregister_domain cfg og i)"
  by (auto simp: commutes_def unregister_domain_def act_bind_def user_from_origin_eq Let_def
      simp del: logged_fold split: option.splits)

lemma commutes_fee: "commutes (recall h) (set_total_delivery_fee cfg og i fee tip)"
  unfolding set_total_delivery_fee_def by (intro commutes_intros)

lemma commutes_footprint [commutes_intros]: "commutes (recall2 h) (update_footprint cfg f)"
  unfolding update_footprint_def by (auto intro!: commutes_intros split: option.splits)

lemma commutes_listing [commutes_intros]: "commutes (recall2 h) (change_allowlist f)"
  by (auto simp: commutes_def change_allowlist_apply listed_def)

lemma commutes_allow:
  "commutes (recall h) (allowlist_proof_submitters cfg og i as)"
  "commutes (recall h) (remove_proof_submitters cfg og i as)"
  unfolding allowlist_proof_submitters_def remove_proof_submitters_def increase_footprint_count_def
    decrease_footprint_count_def by (intro commutes_intros)+

lemma commutes_body: "commutes (recall h) (agg_call_body cfg c)"
  by (cases c) (simp_all add: commutes_aggregate commutes_register commutes_hold commutes_unregister
      commutes_fee commutes_allow commutes_verified)

lemma dispatch_recall: "agg_dispatch cfg c (recall h s) = map_prod (recall h) (\<lambda>r. r) (agg_dispatch cfg c s)"
  using commutes_body [of h cfg c]
  by (auto simp: commutes_def agg_dispatch_def transactional_def split: prod.splits sum.splits)


section \<open>The states of the chain\<close>

interpretation aggregates: pallet "agg_dispatch cfg"
  "\<lambda>s. hold_laws (agg_holds cfg) \<longrightarrow> agg_inv cfg s" for cfg :: "('l, 't) agg_config"
  by unfold_locales (auto simp: agg_dispatch_def transactional_eq_Inl dest: agg_body_inv)

text \<open>
  What the pallet relies on: the holds, and that the deposits for domains and allowlists are held for
  reasons of their own.
\<close>

definition tickets_apart :: "'l holds \<Rightarrow> ('l, 't) consideration \<Rightarrow> bool" where
  "tickets_apart h c \<longleftrightarrow>
     (\<forall>l a m b t l'. co_new c l a m b = Inr (t, l') \<longrightarrow> ho_on_hold h l' = ho_on_hold h l) \<and>
     (\<forall>l t a m b t' l'. co_update c l t a m b = Inr (t', l') \<longrightarrow> ho_on_hold h l' = ho_on_hold h l) \<and>
     (\<forall>l t a l'. co_drop c l t a = Inr l' \<longrightarrow> ho_on_hold h l' = ho_on_hold h l)"

definition agg_config_ok :: "('l, 't) agg_config \<Rightarrow> bool" where
  "agg_config_ok cfg \<longleftrightarrow> hold_laws (agg_holds cfg) \<and>
     tickets_apart (agg_holds cfg) (ConsiderationDomain cfg) \<and>
     tickets_apart (agg_holds cfg) (ConsiderationAllowList cfg)"

definition agg_start :: "'l \<Rightarrow> ('l, 't) agg_storage" where
  "agg_start l =
     \<lparr>NextDomainId = 0, Domains = (\<lambda>_. None), SubmittersAllowlist = (\<lambda>_. []), Published = [],
      agg_events = [], agg_ledger = l\<rparr>"

text \<open>
  The chain starts with no domain; then come calls of anybody and verified proofs, new blocks, and the
  other pallets, which do not touch the holds of this one. The list holds what was published in
  former blocks.
\<close>

inductive agg_chain ::
  "('l, 't) agg_config \<Rightarrow> (nat \<times> aggregation) list \<Rightarrow> ('l, 't) agg_storage \<Rightarrow> bool" for cfg
where
  start: "agg_chain cfg [] (agg_start l)"
| call: "agg_chain cfg h s \<Longrightarrow> agg_chain cfg h (fst (agg_dispatch cfg c s))"
| block: "agg_chain cfg h s \<Longrightarrow> agg_chain cfg (h @ Published s) (agg_on_initialize s)"
| others: "agg_chain cfg h s \<Longrightarrow>
    ho_on_hold (agg_holds cfg) l = ho_on_hold (agg_holds cfg) (agg_ledger s) \<Longrightarrow>
    agg_chain cfg h (s\<lparr>agg_ledger := l\<rparr>)"

lemma agg_chain_inv:
  assumes "agg_chain cfg h s" and laws: "hold_laws (agg_holds cfg)"
  shows "agg_inv cfg (recall h s)"
  using assms(1)
proof induction
  case (start l)
  show ?case
    by (simp add: agg_inv_def agg_start_def published_ok_def recall_def)
next
  case (call h s c)
  then show ?case
    using aggregates.dispatch_inv [of cfg "recall h s" c] laws by (simp add: dispatch_recall)
next
  case (block h s)
  have "recall (h @ Published s) (agg_on_initialize s) = recall h s"
    by (simp add: recall_def agg_on_initialize_def)
  then show ?case using block by simp
next
  case (others h s l)
  have "recall h (s\<lparr>agg_ledger := l\<rparr>) = (recall h s)\<lparr>agg_ledger := l\<rparr>" by (simp add: recall_def)
  then show ?case using others by (simp only: agg_inv_ledger)
qed

text \<open>A sequence of calls, as a block has them.\<close>

definition run_calls ::
  "('l, 't) agg_config \<Rightarrow> agg_call list \<Rightarrow> ('l, 't) agg_storage \<Rightarrow> ('l, 't) agg_storage"
where
  "run_calls cfg cs s = fold (\<lambda>c s. fst (agg_dispatch cfg c s)) cs s"

lemma run_calls_simps [simp]:
  "run_calls cfg [] s = s"
  "run_calls cfg (c # cs) s = run_calls cfg cs (fst (agg_dispatch cfg c s))"
  "run_calls cfg (cs @ cs') s = run_calls cfg cs' (run_calls cfg cs s)"
  by (simp_all add: run_calls_def)

lemma agg_chain_run: "agg_chain cfg h s \<Longrightarrow> agg_chain cfg h (run_calls cfg cs s)"
  by (induction cs arbitrary: s) (auto intro: agg_chain.call)

lemma agg_inv_recall: "agg_inv cfg (recall h s) \<Longrightarrow> agg_inv cfg s"
proof -
  assume inv: "agg_inv cfg (recall h s)"
  have "slot_ok cfg (NextDomainId s) (SubmittersAllowlist s i) (published_ids s i) i (Domains s i)" for i
  proof -
    have "slot_ok cfg (NextDomainId s) (SubmittersAllowlist s i) (published_ids (recall h s) i) i (Domains s i)"
      using inv by (simp add: agg_inv_def)
    moreover have "published_ids s i \<subseteq> published_ids (recall h s) i"
      by (auto simp: published_ids_def recall_def)
    ultimately show ?thesis by (cases "Domains s i") (auto simp: unpublished_def)
  qed
  then show ?thesis using inv by (simp add: agg_inv_def published_ok_def)
qed


section \<open>The effect of the calls on the work of the pallet\<close>

definition dom_entries :: "'t domain \<Rightarrow> statement_entry list" where
  "dom_entries d = ag_statements (dom_next d) @ concat (map (\<lambda>e. ag_statements (snd e)) (dom_should_publish d))"

fun slot_work :: "nat \<Rightarrow> 't domain option \<Rightarrow> (nat \<times> statement_entry) multiset" where
  "slot_work i None = {#}"
| "slot_work i (Some d) = image_mset (Pair i) (mset (dom_entries d))"

text \<open>The statements that wait for publication, each with its domain.\<close>

definition work :: "('l, 't) agg_storage \<Rightarrow> (nat \<times> statement_entry) multiset" where
  "work s = (\<Sum>i<NextDomainId s. slot_work i (Domains s i))"

lemma work_changed:
  fixes s s' :: "('l, 'd) agg_storage"
  assumes "i < NextDomainId s" and "NextDomainId s' = NextDomainId s"
    and "Domains s' = (Domains s)(i := slot)"
  shows "work s' + slot_work i (Domains s i) = work s + slot_work i slot"
proof -
  let ?A = "{..<NextDomainId s} - {i}"
  have split: "(\<Sum>j<NextDomainId s. slot_work j (D j)) = slot_work i (D i) + (\<Sum>j\<in>?A. slot_work j (D j))"
    for D :: "nat \<Rightarrow> 'd domain option"
    using assms(1) by (subst sum.remove [of _ i]) auto
  have "(\<Sum>j\<in>?A. slot_work j (Domains s' j)) = (\<Sum>j\<in>?A. slot_work j (Domains s j))"
    by (rule sum.cong) (auto simp: assms(3))
  then show ?thesis
    using split [of "Domains s"] split [of "Domains s'"] assms(2,3)
    by (simp add: work_def union_ac)
qed

lemma entries_popped:
  "mset (dom_entries d) = mset (ag_statements (dom_next d)) + mset (dom_entries (popped d))"
  by (simp add: dom_entries_def)

lemma entries_push: "mset (dom_entries (push_statement e d)) = add_mset e (mset (dom_entries d))"
  by (simp add: dom_entries_def)

lemma concat_mset: "mset (concat (map f xs)) = (\<Sum>x\<in>#mset xs. mset (f x))"
  by (induction xs) auto

lemma entries_with_statement:
  assumes "domain_ok cfg al d" and "dom_state d = Ready"
  shows "mset (dom_entries (with_statement e d)) = add_mset e (mset (dom_entries d))"
proof (cases "is_next_aggregation_complete (push_statement e d)")
  case False
  then show ?thesis by (simp add: with_statement_def Let_def entries_push)
next
  case True
  let ?p = "push_statement e d"
  have "next_ok d" and q: "queue_ok d" using assms(1) by (simp_all add: domain_ok_def)
  then have "\<not> id_used d (ag_id (dom_next d))" using assms(2) by (auto simp: next_ok_def id_used_def)
  then have "ag_id (dom_next d) \<notin> fst ` set (dom_should_publish d)" using queue_ids [OF q] by blast
  then have "mset (dom_should_publish (with_statement e d)) =
      add_mset (ag_id (dom_next d), dom_next ?p) (mset (dom_should_publish d))"
    using True by (simp add: with_statement_def Let_def enqueue_def btree_insert_mset)
  then have "mset (dom_entries (with_statement e d)) = mset (ag_statements (dom_next ?p)) +
      (mset (ag_statements (dom_next (with_statement e d))) +
       mset (concat (map (\<lambda>e. ag_statements (snd e)) (dom_should_publish d))))"
    by (simp add: dom_entries_def concat_mset)
  moreover have "ag_statements (dom_next (with_statement e d)) = []"
    using True by (simp add: with_statement_def Let_def enqueue_def)
  ultimately show ?thesis by (simp add: dom_entries_def)
qed

lemma mset_remove_key:
  "distinct (map fst q) \<Longrightarrow> map_of q k = Some a \<Longrightarrow>
   mset q = add_mset (k, a) (mset (filter (\<lambda>e. fst e \<noteq> k) q))"
proof (induction q)
  case (Cons e q)
  show ?case
  proof (cases "fst e = k")
    case True
    then have "k \<notin> fst ` set q" using Cons.prems(1) by simp
    then have "\<forall>x\<in>set q. fst x \<noteq> k" by blast
    then have "filter (\<lambda>e. fst e \<noteq> k) q = q" by simp
    then show ?thesis using True Cons.prems(2) by (cases e) (simp del: mset_filter)
  next
    case False
    then show ?thesis using Cons by (cases e) simp
  qed
qed simp

lemma concat_mset_remove:
  "mset q = add_mset (k, a) (mset q') \<Longrightarrow>
   mset (concat (map (\<lambda>e. f (snd e)) q)) = mset (f a) + mset (concat (map (\<lambda>e. f (snd e)) q'))"
  by (simp add: concat_mset)

lemma entries_taken:
  assumes ok: "domain_ok cfg al d" and t: "takes k d = Some a"
  shows "mset (dom_entries d) = mset (ag_statements a) + mset (dom_entries (taken k d))"
proof (cases "ag_id (dom_next d) = k")
  case True
  then have "a = dom_next d" using t by (auto simp: takes_def split: if_splits)
  then show ?thesis using True entries_popped by (simp add: taken_def)
next
  case False
  let ?q = "dom_should_publish d"
  have "distinct (map fst ?q)" using ok by (simp add: domain_ok_def queue_ok_def btree_distinct)
  moreover have "map_of ?q k = Some a" using t False by (simp add: takes_def)
  ultimately have "mset ?q = add_mset (k, a) (mset (filter (\<lambda>e. fst e \<noteq> k) ?q))"
    by (rule mset_remove_key)
  then have "mset (concat (map (\<lambda>e. ag_statements (snd e)) ?q)) = mset (ag_statements a) +
      mset (concat (map (\<lambda>e. ag_statements (snd e)) (filter (\<lambda>e. fst e \<noteq> k) ?q)))"
    by (rule concat_mset_remove)
  then show ?thesis using False by (simp add: dom_entries_def taken_def)
qed

text \<open>The proofs that were accepted, as the events report them.\<close>

fun new_proof_event :: "agg_event \<Rightarrow> (nat \<times> h256) option" where
  "new_proof_event (NewProof st i k) = Some (i, st)"
| "new_proof_event e = None"

definition accepted :: "('l, 't) agg_storage \<Rightarrow> (nat \<times> h256) list" where
  "accepted s = List.map_filter new_proof_event (agg_events s)"

lemma accepted_simps [simp]:
  "accepted (logged es s) = accepted s @ List.map_filter new_proof_event es"
  "accepted (s\<lparr>agg_ledger := l\<rparr>) = accepted s" "accepted (s\<lparr>Domains := D\<rparr>) = accepted s"
  "accepted (s\<lparr>NextDomainId := n\<rparr>) = accepted s" "accepted (s\<lparr>SubmittersAllowlist := al\<rparr>) = accepted s"
  "accepted (s\<lparr>Published := P\<rparr>) = accepted s"
  "accepted (s\<lparr>agg_events := agg_events s @ es\<rparr>) = accepted s @ List.map_filter new_proof_event es"
  by (simp_all add: accepted_def map_filter_def del: logged_fold)

abbreviation accepted2 :: "'t domain \<times> ('l, 't) agg_storage \<Rightarrow> (nat \<times> h256) list" where
  "accepted2 w \<equiv> accepted (snd w)"

lemma keeps_self [keeps_intros]:
  "keeps v (self f)" "(\<And>d s. v (g d, s) = v (d, s)) \<Longrightarrow> keeps v (set_self g)"
  "new_proof_event e = None \<Longrightarrow> keeps accepted2 (deposit e)"
  by (auto simp: keeps_def self_def set_self_def deposit_def map_filter_def)

lemma keeps_option [keeps_intros]:
  "keeps v m \<Longrightarrow> (\<And>x. keeps v (k x)) \<Longrightarrow> keeps v (case y of None \<Rightarrow> m | Some x \<Rightarrow> k x)"
  by (cases y) auto

lemma keeps_emit [keeps_intros]: "keeps accepted2 emit_state_changed_event"
  unfolding emit_state_changed_event_def by (intro keeps_intros) (auto intro: keeps_intros)

lemma keeps_update [keeps_intros]: "keeps accepted2 update_hold_state"
  unfolding update_hold_state_def by (intro keeps_intros) auto

lemma keeps_hold_state [keeps_intros]: "keeps accepted2 handle_hold_state"
  unfolding handle_hold_state_def by (intro keeps_intros)

lemma keeps_pop [keeps_intros]: "keeps accepted2 (pop_next_aggregation cfg)"
  unfolding pop_next_aggregation_def by (intro keeps_intros) simp_all

lemma keeps_append [keeps_intros]: "keeps accepted2 (append_statement cfg a r st)"
  unfolding append_statement_def by (intro keeps_intros) simp_all

lemma keeps_available [keeps_intros]: "keeps accepted2 (available_aggregation cfg a)"
  unfolding available_aggregation_def by (intro keeps_intros) simp_all

lemma keeps_take [keeps_intros]: "keeps accepted2 (take_aggregation cfg k)"
  unfolding take_aggregation_def by (intro keeps_intros) simp_all

lemma keeps_publish: "keeps accepted2 (publish_aggregation cfg u i k)"
  unfolding publish_aggregation_def by (intro keeps_intros) auto

lemma add_verified_proof_accepted:
  assumes "add_verified_proof cfg a i st r (d, s) = ((d', s'), x)"
  shows "accepted s' = accepted s @ [(i, st)]"
proof -
  have "keeps accepted2 (act_bind (append_statement cfg a r st) (\<lambda>to_publish.
         act_then (case to_publish of
             Some aggregation \<Rightarrow> available_aggregation cfg aggregation
           | None \<Rightarrow> act_return ())
         handle_hold_state))" (is "keeps _ ?m")
    by (intro keeps_intros)
  moreover have "?m (d, s\<lparr>agg_events := agg_events s @ [NewProof st i (ag_id (dom_next d))]\<rparr>) = ((d', s'), x)"
    using assms by (simp add: add_verified_proof_def del: logged_fold)
  ultimately have "accepted s' = accepted (s\<lparr>agg_events := agg_events s @ [NewProof st i (ag_id (dom_next d))]\<rparr>)"
    using keepsD by fastforce
  then show ?thesis by (simp add: map_filter_def)
qed

text \<open>Calls that neither take nor give work: what they keep besides.\<close>

definition ledger_view ::
  "('l, 't) agg_config \<Rightarrow> ('l, 't) agg_storage \<Rightarrow>
   (nat \<times> h256) list \<times> (nat \<times> aggregation) list \<times> (hold_reason \<Rightarrow> account \<Rightarrow> nat)"
where
  "ledger_view cfg s = (accepted s, Published s, held cfg s)"

lemma ledger_view_simps [simp]:
  "ledger_view cfg (s\<lparr>Domains := D\<rparr>) = ledger_view cfg s"
  "ledger_view cfg (s\<lparr>NextDomainId := n\<rparr>) = ledger_view cfg s"
  "ledger_view cfg (s\<lparr>SubmittersAllowlist := al\<rparr>) = ledger_view cfg s"
  "ho_on_hold (agg_holds cfg) l = held cfg s \<Longrightarrow>
     ledger_view cfg (s\<lparr>agg_ledger := l\<rparr>) = ledger_view cfg s"
  "new_proof_event e = None \<Longrightarrow> ledger_view cfg (s\<lparr>agg_events := agg_events s @ [e]\<rparr>) = ledger_view cfg s"
  by (simp_all add: ledger_view_def held_def map_filter_def del: logged_fold)

abbreviation ledger_view2 ::
  "('l, 't) agg_config \<Rightarrow> 't domain \<times> ('l, 't) agg_storage \<Rightarrow>
   (nat \<times> h256) list \<times> (nat \<times> aggregation) list \<times> (hold_reason \<Rightarrow> account \<Rightarrow> nat)"
where
  "ledger_view2 cfg w \<equiv> ledger_view cfg (snd w)"

lemma keeps_mutate [keeps_intros]:
  assumes "keeps (ledger_view2 cfg) m"
  shows "keeps (ledger_view cfg) (try_mutate i m)"
proof -
  have "ledger_view cfg s' = ledger_view cfg s" if "m (d, s) = ((d', s'), r)" for d s d' s' r
    using keepsD [OF assms that] by simp
  then show ?thesis
    by (auto simp: keeps_def try_mutate_def split: option.splits prod.splits sum.splits)
qed

lemma keeps_deposit [keeps_intros]:
  "new_proof_event e = None \<Longrightarrow> keeps (ledger_view2 cfg) (deposit e)"
  "new_proof_event e = None \<Longrightarrow> keeps (ledger_view cfg) (agg_deposit e)"
  by (auto simp: keeps_def deposit_def agg_deposit_def simp del: logged_fold)

lemma keeps_hold_states [keeps_intros]:
  "keeps (ledger_view2 cfg) emit_state_changed_event" "keeps (ledger_view2 cfg) update_hold_state"
  "keeps (ledger_view2 cfg) handle_hold_state"
proof -
  show emit: "keeps (ledger_view2 cfg) emit_state_changed_event"
    unfolding emit_state_changed_event_def by (intro keeps_intros) (auto intro: keeps_intros)
  show upd: "keeps (ledger_view2 cfg) update_hold_state"
    unfolding update_hold_state_def by (intro keeps_intros) auto
  show "keeps (ledger_view2 cfg) handle_hold_state"
    unfolding handle_hold_state_def by (intro keeps_intros emit upd)
qed

lemma keeps_user [keeps_intros]: "keeps v (user_from_origin cfg og)"
  by (simp add: keeps_def user_from_origin_eq)

lemma keeps_ledger [keeps_intros]:
  "(\<And>l x l'. f l = Inr (x, l') \<Longrightarrow> ho_on_hold (agg_holds cfg) l' = ho_on_hold (agg_holds cfg) l) \<Longrightarrow>
   keeps (ledger_view2 cfg) (on_ledger f)"
  by (auto simp: keeps_def on_ledger_def held_def split: sum.splits)

lemma keeps_ticket [keeps_intros]:
  "tickets_apart (agg_holds cfg) c \<Longrightarrow> keeps (ledger_view cfg) (new_ticket c a m b)"
  by (auto simp: keeps_def new_ticket_def tickets_apart_def held_def split: option.splits sum.splits)

lemma keeps_register:
  "agg_config_ok cfg \<Longrightarrow> keeps (ledger_view cfg) (register_domain cfg og n q ar pr dl ow)"
  unfolding register_domain_def Let_def agg_config_ok_def by (intro keeps_intros) simp_all

lemma keeps_hold: "keeps (ledger_view cfg) (hold_domain cfg og i)"
  unfolding hold_domain_def by (intro keeps_intros)

lemma drop_ticket_held:
  "tickets_apart (agg_holds cfg) c \<Longrightarrow>
   ho_on_hold (agg_holds cfg) (drop_ticket c a t l) = ho_on_hold (agg_holds cfg) l"
  by (auto simp: drop_ticket_def tickets_apart_def split: option.splits sum.splits)

lemma keeps_fee: "keeps (ledger_view cfg) (set_total_delivery_fee cfg og i fee tip)"
  unfolding set_total_delivery_fee_def by (intro keeps_intros) simp_all

lemma keeps_footprint [keeps_intros]:
  "agg_config_ok cfg \<Longrightarrow> keeps (ledger_view2 cfg) (update_footprint cfg f)"
  unfolding update_footprint_def agg_config_ok_def tickets_apart_def
  by (auto intro!: keeps_intros split: option.splits)

lemma keeps_listing [keeps_intros]: "keeps (ledger_view2 cfg) (change_allowlist f)"
  by (auto simp: keeps_def change_allowlist_apply listed_def)

lemma keeps_allow:
  assumes "agg_config_ok cfg"
  shows "keeps (ledger_view cfg) (allowlist_proof_submitters cfg og i as)"
    and "keeps (ledger_view cfg) (remove_proof_submitters cfg og i as)"
  unfolding allowlist_proof_submitters_def remove_proof_submitters_def increase_footprint_count_def
    decrease_footprint_count_def by (intro keeps_intros assms)+

text \<open>What is reserved for statements: how much an account must have on hold, and for which reason.\<close>

fun reserve_part :: "hold_reason \<Rightarrow> reserve \<Rightarrow> nat" where
  "reserve_part AggregationReason r = rs_aggregate r"
| "reserve_part DeliveryReason r = rs_delivery r"

definition due_entry :: "hold_reason \<Rightarrow> account \<Rightarrow> statement_entry \<Rightarrow> nat" where
  "due_entry r a e = (if se_account e = a then reserve_part r (se_reserve e) else 0)"

definition due :: "hold_reason \<Rightarrow> account \<Rightarrow> (nat \<times> statement_entry) multiset \<Rightarrow> nat" where
  "due r a m = (\<Sum>(i, e)\<in>#m. due_entry r a e)"

lemma due_simps [simp]:
  "due r a {#} = 0" "due r a (m + m') = due r a m + due r a m'"
  "due r a (add_mset (i, e) m) = due_entry r a e + due r a m"
  "due r a (image_mset (Pair i) (mset es)) = (\<Sum>e\<leftarrow>es. due_entry r a e)"
  by (simp_all add: due_def image_mset.compositionality comp_def sum_mset_sum_list flip: mset_map)

lemma add_reserve_due:
  "add_reserve (se_account e) (se_reserve e) h r a = h r a + due_entry r a e"
  by (cases r) (auto simp: add_reserve_def held_change_def due_entry_def)

lemma handle_held_funds_bound:
  assumes "hold_laws (agg_holds cfg)"
  shows "ho_on_hold (agg_holds cfg) l r' b \<le>
    ho_on_hold (agg_holds cfg) (handle_held_funds cfg r a dest n l) r' b + (if r' = r \<and> b = a then n else 0)"
proof -
  note laws = hold_lawsD(4,5) [OF assms]
  have rel: "ho_on_hold (agg_holds cfg) l r' b \<le> ho_on_hold (agg_holds cfg)
      (case ho_release (agg_holds cfg) l r a n of Inr (x, l') \<Rightarrow> l' | Inl _ \<Rightarrow> l) r' b +
      (if r' = r \<and> b = a then n else 0)"
    by (auto simp: held_change_def dest!: laws(1) split: sum.splits)
  have trans: "ho_on_hold (agg_holds cfg) l r' b \<le> ho_on_hold (agg_holds cfg) l' r' b +
      (if r' = r \<and> b = a then n else 0)" if "ho_transfer_on_hold (agg_holds cfg) l r a c n = Inr (x, l')" for c x l'
    using laws(2) [OF that] by (auto simp: held_change_def)
  show ?thesis
    unfolding handle_held_funds_def Let_def
    using rel trans by (auto split: option.splits sum.splits)
qed

lemma pay_statement_bound:
  assumes "hold_laws (agg_holds cfg)"
  shows "ho_on_hold (agg_holds cfg) l r b \<le>
    ho_on_hold (agg_holds cfg) (pay_statement cfg u ow e l) r b + due_entry r b e"
proof -
  let ?l = "handle_held_funds cfg AggregationReason (se_account e) u (rs_aggregate (se_reserve e)) l"
  have "ho_on_hold (agg_holds cfg) l r b \<le> ho_on_hold (agg_holds cfg) ?l r b +
      (if r = AggregationReason \<and> b = se_account e then rs_aggregate (se_reserve e) else 0)"
    by (rule handle_held_funds_bound [OF assms])
  moreover have "ho_on_hold (agg_holds cfg) ?l r b \<le> ho_on_hold (agg_holds cfg) (pay_statement cfg u ow e l) r b +
      (if r = DeliveryReason \<and> b = se_account e then rs_delivery (se_reserve e) else 0)"
    unfolding pay_statement_def by (rule handle_held_funds_bound [OF assms])
  ultimately show ?thesis by (cases r) (auto simp: due_entry_def split: if_splits)
qed

lemma pay_statements_bound:
  assumes "hold_laws (agg_holds cfg)"
  shows "ho_on_hold (agg_holds cfg) l r b \<le>
    ho_on_hold (agg_holds cfg) (fold (pay_statement cfg u ow) es l) r b + (\<Sum>e\<leftarrow>es. due_entry r b e)"
proof (induction es arbitrary: l)
  case (Cons e es)
  show ?case
    using pay_statement_bound [OF assms, of l r b u ow e] Cons.IH [of "pay_statement cfg u ow e l"] by simp
qed simp

lemma work_same:
  fixes s s' :: "('l, 'd) agg_storage"
  assumes "i < NextDomainId s" and "Domains s i = Some d"
    and "NextDomainId s' = NextDomainId s" and "Domains s' = (Domains s)(i := Some d')"
    and "mset (dom_entries d') = mset (dom_entries d)"
  shows "work s' = work s"
  using work_changed [OF assms(1,3,4)] assms(2,5) by simp

lemma same_work_entries: "same_work d d' \<Longrightarrow> dom_entries d' = dom_entries d"
  by (simp add: same_work_def dom_entries_def)

lemma settle_entries [simp]: "dom_entries (settle al d) = dom_entries d"
  by (simp add: dom_entries_def)

lemma entries_fresh [simp]: "dom_entries (fresh_domain i u n q ar pr owner dl td ta) = []"
  by (simp add: dom_entries_def fresh_domain_def aggregation_create_def)

lemma work_register:
  assumes inv: "agg_inv cfg s" and run: "register_domain cfg og n q ar pr dl ow s = (s', Inr ())"
  shows "work s' = work s"
proof -
  from run obtain d where d: "dom_entries d = []" and n: "NextDomainId s' = NextDomainId s + 1"
    and D: "Domains s' = (Domains s)(NextDomainId s := Some d)"
    by (elim register_domain_Inr) (auto intro: entries_fresh)
  have "(\<Sum>i<NextDomainId s. slot_work i (Domains s' i)) = (\<Sum>i<NextDomainId s. slot_work i (Domains s i))"
    by (rule sum.cong) (auto simp: D)
  then show ?thesis using d by (simp add: work_def n D)
qed

lemma work_quiet:
  assumes inv: "agg_inv cfg s"
  shows "hold_domain cfg og i s = (s', Inr ()) \<Longrightarrow> work s' = work s"
    and "unregister_domain cfg og i s = (s', Inr ()) \<Longrightarrow> work s' = work s"
    and "set_total_delivery_fee cfg og i fee tip s = (s', Inr ()) \<Longrightarrow> work s' = work s"
    and "allowlist_proof_submitters cfg og i as s = (s', Inr ()) \<Longrightarrow> work s' = work s"
    and "remove_proof_submitters cfg og i as s = (s', Inr ()) \<Longrightarrow> work s' = work s"
proof -
  note D = agg_invD [OF inv]
  { assume "hold_domain cfg og i s = (s', Inr ())"
    then show "work s' = work s"
      unfolding hold_domain_Inr Let_def
      by (auto intro!: work_same D simp: dom_entries_def) }
  { assume "unregister_domain cfg og i s = (s', Inr ())"
    then obtain d where d: "Domains s i = Some d" "dom_state d = Removable"
      and s': "NextDomainId s' = NextDomainId s" "Domains s' = (Domains s)(i := None)"
      unfolding unregister_domain_Inr by auto
    have "dom_entries d = []"
      using D(3) [OF d(1)] d(2) by (simp add: domain_ok_def no_statements_def dom_entries_def)
    then show "work s' = work s" using work_changed [OF D(1) [OF d(1)] s'] d(1) by simp }
  { assume "set_total_delivery_fee cfg og i fee tip s = (s', Inr ())"
    then show "work s' = work s"
      unfolding set_total_delivery_fee_Inr by (auto intro!: work_same D simp: dom_entries_def) }
  { assume "allowlist_proof_submitters cfg og i as s = (s', Inr ())"
    then show "work s' = work s"
      by (elim allowlist_proof_submitters_Inr)
        (auto intro!: work_same D simp: same_work_entries listed_def) }
  { assume "remove_proof_submitters cfg og i as s = (s', Inr ())"
    then show "work s' = work s"
      by (elim remove_proof_submitters_Inr)
        (auto intro!: work_same D simp: same_work_entries listed_def) }
qed

lemma verified_effect:
  assumes laws: "hold_laws (agg_holds cfg)" and inv: "agg_inv cfg s"
    and run: "on_proof_verified cfg a i st s = (s', Inr ())"
  obtains (refused) "Domains s' = Domains s" "work s' = work s" "ledger_view cfg s' = ledger_view cfg s"
      "NextDomainId s' = NextDomainId s" "SubmittersAllowlist s' = SubmittersAllowlist s"
  | (added) b j d where "a = Some b" "i = Some j" "Domains s j = Some d"
      "accepts_proof (SubmittersAllowlist s j) d b"
      "Domains s' = (Domains s)(j := Some (settle (SubmittersAllowlist s j)
         (with_statement (new_entry cfg d b st) d)))"
      "work s' = add_mset (j, new_entry cfg d b st) (work s)" "Published s' = Published s"
      "accepted s' = accepted s @ [(j, st)]" "held cfg s' = add_reserve b (reserve_of cfg d) (held cfg s)"
      "NextDomainId s' = NextDomainId s" "SubmittersAllowlist s' = SubmittersAllowlist s"
proof (cases "\<exists>b j d. a = Some b \<and> i = Some j \<and> Domains s j = Some d")
  case False
  then have "Domains s' = Domains s \<and> NextDomainId s' = NextDomainId s \<and>
      SubmittersAllowlist s' = SubmittersAllowlist s \<and> ledger_view cfg s' = ledger_view cfg s"
    using run by (auto simp: on_proof_verified_def agg_deposit_def simp del: logged_fold split: option.splits)
  then show thesis using refused by (simp add: work_def)
next
  case True
  then obtain b j d where a: "a = Some b" "i = Some j" and d: "Domains s j = Some d" by blast
  note D = agg_invD [OF inv d]
  have ok: "domain_ok cfg (SubmittersAllowlist s (dom_id d)) d" using D(2,3) by simp
  obtain d' s1 where m: "proof_for_domain cfg b j st (d, s) = ((d', s1), Inr ())"
    and s': "s' = s1\<lparr>Domains := (Domains s1)(j := Some d')\<rparr>"
    using run a d by (auto simp: on_proof_verified_def try_mutate_Inr)
  show thesis
  proof (cases rule: proof_for_domain_cases [OF laws ok, of b j st, case_names panics refused added])
    case panics
    then show thesis using m by simp
  next
    case (refused l cause)
    then have "Domains s' = Domains s" "NextDomainId s' = NextDomainId s"
      "SubmittersAllowlist s' = SubmittersAllowlist s"
      using m d unfolding s' by auto
    moreover have "ledger_view cfg s' = ledger_view cfg s"
      using m refused(1,2) unfolding s' by (auto simp: ledger_view_def held_def map_filter_def)
    ultimately show thesis using that(1) by (simp add: work_def)
  next
    case (added l es)
    let ?e = "new_entry cfg d b st"
    have s1: "d' = settle (SubmittersAllowlist s j) (with_statement ?e d)"
      "s1 = logged (NewProof st j (ag_id (dom_next d)) # es) (s\<lparr>agg_ledger := l\<rparr>)"
      using m added(1) D(2) by auto
    have entries: "mset (dom_entries d') = add_mset ?e (mset (dom_entries d))"
      using added(3) entries_with_statement [OF ok, of ?e] by (simp add: s1 accepts_proof_def)
    have "work s' + slot_work j (Domains s j) = work s + slot_work j (Some d')"
      by (rule work_changed [OF D(1)]) (simp_all add: s' s1)
    then have "work s' = add_mset (j, ?e) (work s)" by (simp add: d entries)
    moreover have "accepted s1 = accepted s @ [(j, st)]"
      using add_verified_proof_accepted [of cfg b j st "reserve_of cfg d" d "s\<lparr>agg_ledger := l\<rparr>"] m added(5)
      by simp
    ultimately show thesis
      using that(2) [OF a d] added(2,3) D(2) s1 unfolding s' by (simp add: held_def)
  qed
qed

lemma aggregate_effect:
  assumes laws: "hold_laws (agg_holds cfg)" and inv: "agg_inv cfg s"
    and run: "aggregate cfg og i k s = (s', Inr ())"
  obtains u d a where "origin_user cfg og = Some u" "Domains s i = Some d" "takes k d = Some a"
      "may_aggregate u d a"
      "Domains s' = (Domains s)(i := Some (settle (SubmittersAllowlist s i) (taken k d)))"
      "work s = work s' + image_mset (Pair i) (mset (ag_statements a))"
      "Published s' = Published s @ [(i, a)]" "accepted s' = accepted s"
      "\<And>r b. held cfg s r b \<le> held cfg s' r b + due r b (image_mset (Pair i) (mset (ag_statements a)))"
      "NextDomainId s' = NextDomainId s"
proof -
  from run obtain u d a es where u: "origin_user cfg og = Some u" and d: "Domains s i = Some d"
    and t: "takes k d = Some a" and may: "may_aggregate u d a"
    and p: "publish_aggregation cfg u i k (d, s) =
          ((settle (SubmittersAllowlist s (dom_id d)) (taken k d), logged es (paid_out cfg u d i a s)),
           Inr (compute_receipt cfg a, settle (SubmittersAllowlist s (dom_id d)) (taken k d)))"
    and s': "s' = logged (es @ [NewAggregationReceipt i k (compute_receipt cfg a)])
          ((paid_out cfg u d i a s)\<lparr>Domains := (Domains s)(i := Some
             (settle (SubmittersAllowlist s (dom_id d)) (taken k d)))\<rparr>)"
    unfolding aggregate_Inr [OF inv] by blast
  note D = agg_invD [OF inv d]
  have dom: "Domains s' = (Domains s)(i := Some (settle (SubmittersAllowlist s i) (taken k d)))"
    using D(2) by (simp add: s')
  have "work s' + slot_work i (Domains s i) =
      work s + slot_work i (Some (settle (SubmittersAllowlist s i) (taken k d)))"
    by (rule work_changed [OF D(1) _ dom]) (simp add: s' paid_out_def)
  then have w: "work s = work s' + image_mset (Pair i) (mset (ag_statements a))"
    using entries_taken [OF D(3) t] by (simp add: d)
  have "accepted (logged es (paid_out cfg u d i a s)) = accepted s"
    using keepsD [OF keeps_publish p] by simp
  then have acc: "accepted s' = accepted s"
    by (simp add: s' accepted_def map_filter_def paid_out_def)
  have "held cfg s r b \<le> held cfg s' r b + due r b (image_mset (Pair i) (mset (ag_statements a)))" for r b
    using pay_statements_bound [OF laws, of "agg_ledger s" r b "user_account u" "dom_delivery_owner d"
        "ag_statements a"] by (simp add: held_def s' paid_out_def)
  then show thesis
    using u d t may dom w acc by (intro that) (simp_all add: s' paid_out_def)
qed

lemma agg_effect:
  assumes ok: "agg_config_ok cfg" and inv: "agg_inv cfg s" and run: "agg_call_body cfg c s = (s', Inr ())"
  obtains (quiet) "work s' = work s" "ledger_view cfg s' = ledger_view cfg s"
  | (added) i e where "work s' = add_mset (i, e) (work s)" "Published s' = Published s"
      "accepted s' = accepted s @ [(i, se_statement e)]"
      "held cfg s' = add_reserve (se_account e) (se_reserve e) (held cfg s)"
      "\<exists>a. c = ProofVerified a (Some i) (se_statement e)"
  | (published) i a where "work s = work s' + image_mset (Pair i) (mset (ag_statements a))"
      "Published s' = Published s @ [(i, a)]" "accepted s' = accepted s"
      "\<And>r b. held cfg s r b \<le> held cfg s' r b + due r b (image_mset (Pair i) (mset (ag_statements a)))"
proof -
  have laws: "hold_laws (agg_holds cfg)"
    and apart: "tickets_apart (agg_holds cfg) (ConsiderationDomain cfg)"
      "tickets_apart (agg_holds cfg) (ConsiderationAllowList cfg)"
    using ok by (simp_all add: agg_config_ok_def)
  show thesis
  proof (cases c)
    case (Aggregate og i k)
    then have "aggregate cfg og i k s = (s', Inr ())" using run by simp
    then show thesis by (rule aggregate_effect [OF laws inv]) (rule published)
  next
    case (RegisterDomain og n q ar pr dl ow)
    then have r: "register_domain cfg og n q ar pr dl ow s = (s', Inr ())" using run by simp
    show thesis by (rule quiet [OF work_register [OF inv r] keepsD [OF keeps_register [OF ok] r]])
  next
    case (HoldDomain og i)
    then have r: "hold_domain cfg og i s = (s', Inr ())" using run by simp
    show thesis by (rule quiet [OF work_quiet(1) [OF inv r] keepsD [OF keeps_hold r]])
  next
    case (UnregisterDomain og i)
    then have r: "unregister_domain cfg og i s = (s', Inr ())" using run by simp
    then have "ledger_view cfg s' = ledger_view cfg s"
      by (auto simp: unregister_domain_Inr ledger_view_def held_def drop_ticket_held [OF apart(1)]
          drop_ticket_held [OF apart(2)] map_filter_def)
    then show thesis by (rule quiet [OF work_quiet(2) [OF inv r]])
  next
    case (SetTotalDeliveryFee og i fee tip)
    then have r: "set_total_delivery_fee cfg og i fee tip s = (s', Inr ())" using run by simp
    show thesis by (rule quiet [OF work_quiet(3) [OF inv r] keepsD [OF keeps_fee r]])
  next
    case (AllowlistProofSubmitters og i as)
    then have r: "allowlist_proof_submitters cfg og i as s = (s', Inr ())" using run by simp
    show thesis by (rule quiet [OF work_quiet(4) [OF inv r] keepsD [OF keeps_allow(1) [OF ok] r]])
  next
    case (RemoveProofSubmitters og i as)
    then have r: "remove_proof_submitters cfg og i as s = (s', Inr ())" using run by simp
    show thesis by (rule quiet [OF work_quiet(5) [OF inv r] keepsD [OF keeps_allow(2) [OF ok] r]])
  next
    case (ProofVerified a i st)
    then have r: "on_proof_verified cfg a i st s = (s', Inr ())" using run by simp
    show thesis
    proof (cases rule: verified_effect [OF laws inv r, case_names refused added])
      case refused
      show thesis by (rule quiet) (fact refused)+
    next
      case new: (added b j d)
      show thesis
        by (rule added [of j "new_entry cfg d b st"]) (use new in \<open>simp_all add: new_entry_def ProofVerified\<close>)
    qed
  qed
qed

end
