(* ===== verification/AggregateSample.thy ===== *)
theory AggregateSample
  imports AggregateChain Merkle
begin

text \<open>
  A ledger with free balances and holds that satisfies the laws, and a run of the pallet on it: a domain
  with aggregations of two statements, three accepted proofs, one of them still pending, and one
  published aggregation.
\<close>

type_synonym held_ledger = "(account \<Rightarrow> nat) \<times> (hold_reason \<Rightarrow> account \<Rightarrow> nat)"

definition ledger_holds :: "held_ledger holds" where
  "ledger_holds =
     \<lparr>ho_on_hold = snd,
      ho_hold = (\<lambda>(f, h) r a n.
        if n \<le> f a then Inr (f(a := f a - n), held_change h r a (\<lambda>x. x + n)) else Inl FundsUnavailable),
      ho_release_exact = (\<lambda>(f, h) r a n.
        if n \<le> h r a then Inr (f(a := f a + n), held_change h r a (\<lambda>x. x - n)) else Inl FundsUnavailable),
      ho_release = (\<lambda>(f, h) r a n.
        let x = min n (h r a) in Inr (x, (f(a := f a + x), held_change h r a (\<lambda>y. y - x)))),
      ho_transfer_on_hold = (\<lambda>(f, h) r a b n.
        let x = min n (h r a) in Inr (x, (f(b := f b + x), held_change h r a (\<lambda>y. y - x))))\<rparr>"

definition ledger_tickets :: "(held_ledger, nat) consideration" where
  "ledger_tickets =
     \<lparr>co_new = (\<lambda>(f, h) a m b. if m \<le> f a then Inr (m, (f(a := f a - m), h)) else Inl FundsUnavailable),
      co_update = (\<lambda>(f, h) t a m b.
        if m \<le> f a + t then Inr (m, (f(a := f a + t - m), h)) else Inl FundsUnavailable),
      co_drop = (\<lambda>(f, h) t a. Inr (f(a := f a + t), h))\<rparr>"

definition sample_agg_config :: "(held_ledger, nat) agg_config" where
  "sample_agg_config =
     \<lparr>AggregationSize = 2, MaxPendingPublishQueueSize = 1, agg_manager = (\<lambda>og. og = Root),
      agg_holds = ledger_holds, ConsiderationDomain = ledger_tickets, ConsiderationAllowList = ledger_tickets,
      estimate_call_fee = (\<lambda>n. 10 * n), compute_tip = (\<lambda>_. Some 4),
      encoded = \<lparr>len_usize_max = 1000, len_domain = 90, len_aggregation = 40, len_statements = 30,
        len_statement = 30, len_compact_size = 1, len_queue = 20, len_queue_key = 8, len_compact_queue = 1,
        len_destination_max = 1, len_destination = (\<lambda>_. 1)\<rparr>,
      tree_root = (\<lambda>ls. ''0x'' @ merkle_root last64 (map last64 ls)), tree_proof = path_of last64,
      dispatch_aggregation = (\<lambda>_ _ _ _ _ _. Inr ())\<rparr>"

definition sample_agg_calls :: "agg_call list" where
  "sample_agg_calls =
     [RegisterDomain (Signed ''o'') 2 (Some 1) AggUntrusted ProofUntrusted
        \<lparr>dl_destination = NoDestination, dl_fee = 6, dl_owner_tip = 2\<rparr> None,
      ProofVerified (Some ''a'') (Some 0) ''x'', ProofVerified (Some ''b'') (Some 0) ''y'',
      Aggregate (Signed ''p'') 0 1, ProofVerified (Some ''a'') (Some 0) ''z'']"

definition sample_agg :: "(held_ledger, nat) agg_storage" where
  "sample_agg = run_calls sample_agg_config sample_agg_calls (agg_start (\<lambda>_. 100, \<lambda>_ _. 0))"

lemma ledger_holds_laws: "hold_laws ledger_holds"
  unfolding hold_laws_def ledger_holds_def
  by (auto simp: Let_def split: if_splits)

lemma sample_agg_ok: "agg_config_ok sample_agg_config" "hold_laws (agg_holds sample_agg_config)"
proof -
  have "tickets_apart ledger_holds ledger_tickets"
    unfolding tickets_apart_def ledger_tickets_def ledger_holds_def by (auto split: if_splits)
  then show "agg_config_ok sample_agg_config" "hold_laws (agg_holds sample_agg_config)"
    by (simp_all add: agg_config_ok_def sample_agg_config_def ledger_holds_laws)
qed

lemma sample_agg_chain: "agg_chain sample_agg_config [] sample_agg"
  unfolding sample_agg_def by (intro agg_chain_run agg_chain.start)

lemmas agg_eval = agg_dispatch_def transactional_def act_bind_def act_then_def ensure_apply
  user_from_origin_def ensure_signed_def register_domain_def new_ticket_def can_create_domain_def
  agg_deposit_def on_proof_verified_def try_mutate_def proof_for_domain_def can_add_statement_def
  space_left_def is_authorized_to_add_proof_def reserve_currency_def hold_funds_def on_ledger_def
  add_verified_proof_def append_statement_def push_statement_def is_next_aggregation_complete_def
  pop_next_aggregation_def create_next_def aggregation_create_def available_aggregation_def
  handle_hold_state_def aggregate_def publish_aggregation_def take_aggregation_def
  pay_statement_def handle_held_funds_def u32_max_def u64_max_def u128_max_def total_fee_def
  saturating_add_def held_change_def

lemmas sample_defs = sample_agg_config_def sample_agg_calls_def agg_start_def ledger_tickets_def
  ledger_holds_def Let_def sample_agg_def

lemma sample_agg_facts: "map_option dom_entries (Domains sample_agg 0) =
     Some [\<lparr>se_account = ''a'', se_reserve = \<lparr>rs_aggregate = 12, rs_delivery = 4\<rparr>, se_statement = ''z''\<rparr>]"
  by (simp add: agg_eval sample_defs dom_entries_def)

lemma sample_agg_facts2: "accepted sample_agg = [(0, ''x''), (0, ''y''), (0, ''z'')]"
  by (simp add: agg_eval sample_defs accepted_def map_filter_def)

lemma sample_agg_facts3: "map (\<lambda>(i, a). (i, ag_id a)) (Published sample_agg) = [(0, 1)]"
  by (simp add: agg_eval sample_defs)

lemma sample_due: "due AggregationReason ''a'' (work sample_agg) = 12"
  by (simp add: agg_eval sample_defs work_def dom_entries_def due_entry_def)

definition sample_held :: "(held_ledger, nat) agg_storage" where
  "sample_held = run_calls sample_agg_config [HoldDomain Root 0] sample_agg"

definition sample_full :: "(held_ledger, nat) agg_storage" where
  "sample_full = run_calls sample_agg_config (take 3 sample_agg_calls) (agg_start (\<lambda>_. 100, \<lambda>_ _. 0))"

definition sample_managed :: "(held_ledger, nat) agg_storage" where
  "sample_managed = run_calls sample_agg_config
     [RegisterDomain Root 2 (Some 1) AggUntrusted ProofOnlyOwner
        \<lparr>dl_destination = NoDestination, dl_fee = 6, dl_owner_tip = 2\<rparr> (Some ''o'')]
     (agg_start (\<lambda>_. 100, \<lambda>_ _. 0))"

lemma sample_chains:
  "agg_chain sample_agg_config [] sample_held" "agg_chain sample_agg_config [] sample_full"
  "agg_chain sample_agg_config [] sample_managed"
  unfolding sample_held_def sample_full_def sample_managed_def
  by (intro agg_chain_run agg_chain.start sample_agg_chain)+

end
