(* ===== verification/AggregateProps.thy ===== *)
theory AggregateProps
  imports AggregateSample
begin

text \<open>
  The properties of the aggregation pallet over every reachable state: well-formed domains, no aggregation
  published twice, statements neither lost nor duplicated, reserves that stay on hold, a life cycle of
  domains that never goes back, the one panic, and the Merkle paths that the verifying code accepts.
\<close>


section \<open>Well-formed storage\<close>

lemma chain_slots:
  assumes "agg_chain cfg h s" and "hold_laws (agg_holds cfg)" and "Domains s i = Some d"
  shows "i < NextDomainId s" "dom_id d = i" "domain_ok cfg (SubmittersAllowlist s i) d"
    and "\<And>a. (i, a) \<in> set (h @ Published s) \<Longrightarrow>
      ag_id a \<noteq> ag_id (dom_next d) \<and> ag_id a \<notin> fst ` set (dom_should_publish d)"
proof -
  have inv: "agg_inv cfg (recall h s)" by (rule agg_chain_inv [OF assms(1,2)])
  have "Domains (recall h s) i = Some d" using assms(3) by simp
  note D = agg_invD [OF inv this]
  show "i < NextDomainId s" "dom_id d = i" "domain_ok cfg (SubmittersAllowlist s i) d"
    using D by simp_all
  fix a
  assume "(i, a) \<in> set (h @ Published s)"
  then have "ag_id a \<in> published_ids (recall h s) i" by (auto simp: published_ids_def)
  then show "ag_id a \<noteq> ag_id (dom_next d) \<and> ag_id a \<notin> fst ` set (dom_should_publish d)"
    using D(4) by (auto simp: unpublished_def id_used_def)
qed

lemma chain_published:
  assumes "agg_chain cfg h s" and "hold_laws (agg_holds cfg)"
  shows "distinct (map (\<lambda>(i, a). (i, ag_id a)) (h @ Published s))"
    and "\<And>i a. (i, a) \<in> set (h @ Published s) \<Longrightarrow>
      ag_statements a \<noteq> [] \<and> length (ag_statements a) \<le> AggregationSize cfg"
  using agg_chain_inv [OF assms] unfolding agg_inv_def published_ok_def by auto

text \<open>
  C28: in every reachable state, each registered domain has an aggregation in progress that is not yet
  full, at most \<open>publish_queue_size\<close> complete ones that wait under their own identifiers, and it is
  removable only with no statement left and an empty allowlist. Over the whole life of the chain no
  aggregation identifier of a domain is published twice, and none that is pending has been published.
\<close>

theorem agg_storage_well_formed:
  assumes "agg_chain cfg h s" and "hold_laws (agg_holds cfg)"
  shows "(\<forall>i d. Domains s i = Some d \<longrightarrow>
      i < NextDomainId s \<and> dom_id d = i \<and>
      length (ag_statements (dom_next d)) < dom_max_aggregation_size d \<and>
      dom_max_aggregation_size d \<le> AggregationSize cfg \<and>
      length (dom_should_publish d) \<le> dom_publish_queue_size d \<and>
      distinct (map fst (dom_should_publish d)) \<and>
      (\<forall>(k, a)\<in>set (dom_should_publish d). ag_id a = k \<and> k \<noteq> ag_id (dom_next d) \<and>
         length (ag_statements a) = dom_max_aggregation_size d) \<and>
      (dom_state d = Removable \<longrightarrow> dom_should_publish d = [] \<and> ag_statements (dom_next d) = [] \<and>
         SubmittersAllowlist s i = []) \<and>
      (\<forall>a. (i, a) \<in> set (h @ Published s) \<longrightarrow>
         ag_id a \<noteq> ag_id (dom_next d) \<and> ag_id a \<notin> fst ` set (dom_should_publish d))) \<and>
    distinct (map (\<lambda>(i, a). (i, ag_id a)) (h @ Published s))"
proof (intro conjI allI impI)
  show "distinct (map (\<lambda>(i, a). (i, ag_id a)) (h @ Published s))" by (rule chain_published(1) [OF assms])
next
  fix i d
  assume d: "Domains s i = Some d"
  note S = chain_slots [OF assms d]
  show "i < NextDomainId s" "dom_id d = i" by (rule S)+
  show "length (ag_statements (dom_next d)) < dom_max_aggregation_size d"
    "dom_max_aggregation_size d \<le> AggregationSize cfg"
    "length (dom_should_publish d) \<le> dom_publish_queue_size d" "distinct (map fst (dom_should_publish d))"
    using S(3) by (simp_all add: domain_ok_def next_ok_def queue_ok_def btree_distinct)
  have "k \<noteq> ag_id (dom_next d)" if "id_used d k" for k using that by (auto simp: id_used_def)
  then show "\<forall>(k, a)\<in>set (dom_should_publish d). ag_id a = k \<and> k \<noteq> ag_id (dom_next d) \<and>
      length (ag_statements a) = dom_max_aggregation_size d"
    using S(3) by (fastforce simp: domain_ok_def queue_ok_def)
  show "dom_should_publish d = []" "ag_statements (dom_next d) = []" "SubmittersAllowlist s i = []"
    if "dom_state d = Removable" using S(3) that by (simp_all add: domain_ok_def no_statements_def)
  show "ag_id a \<noteq> ag_id (dom_next d)" "ag_id a \<notin> fst ` set (dom_should_publish d)"
    if "(i, a) \<in> set (h @ Published s)" for a using S(4) [OF that] by blast+
qed

theorem agg_storage_well_formed_witness:
  "\<exists>d. Domains sample_agg 0 = Some d \<and> length (ag_statements (dom_next d)) < dom_max_aggregation_size d \<and>
     dom_max_aggregation_size d \<le> 2 \<and> length (dom_should_publish d) \<le> dom_publish_queue_size d \<and>
     length (Published sample_agg) = 1 \<and>
     distinct (map (\<lambda>(i, a). (i, ag_id a)) ([] @ Published sample_agg))"
proof -
  obtain d where d: "Domains sample_agg 0 = Some d" using sample_agg_facts by auto
  have "length (Published sample_agg) = 1" using sample_agg_facts3 by (auto dest: map_eq_Cons_D)
  moreover have "AggregationSize sample_agg_config = 2" by (simp add: sample_agg_config_def)
  ultimately show ?thesis
    using agg_storage_well_formed [OF sample_agg_chain sample_agg_ok(2)] d by auto
qed


section \<open>Conservation\<close>

definition published_work :: "(nat \<times> aggregation) list \<Rightarrow> (nat \<times> statement_entry) multiset" where
  "published_work ps = (\<Sum>(i, a)\<leftarrow>ps. image_mset (Pair i) (mset (ag_statements a)))"

lemma published_work_simps [simp]:
  "published_work [] = {#}" "published_work (ps @ qs) = published_work ps + published_work qs"
  "published_work [(i, a)] = image_mset (Pair i) (mset (ag_statements a))"
  by (simp_all add: published_work_def)

definition statement_of :: "nat \<times> statement_entry \<Rightarrow> nat \<times> h256" where
  "statement_of = (\<lambda>(i, e). (i, se_statement e))"

lemma chain_effects:
  assumes "agg_chain cfg h s" and ok: "agg_config_ok cfg"
  shows "mset (accepted s) = image_mset statement_of (work s + published_work (h @ Published s)) \<and>
    (\<forall>r a. due r a (work s) \<le> held cfg s r a)"
  using assms(1)
proof induction
  case (start l)
  show ?case by (simp add: agg_start_def accepted_def work_def map_filter_def)
next
  case (call h s c)
  have inv: "agg_inv cfg s"
    using agg_inv_recall agg_chain_inv [OF call.hyps] ok by (auto simp: agg_config_ok_def)
  let ?s = "fst (agg_dispatch cfg c s)"
  show ?case
  proof (cases "agg_call_body cfg c s")
    case (Pair s' r)
    show ?thesis
    proof (cases r)
      case (Inl e)
      then have "?s = s" using Pair by (simp add: agg_dispatch_def transactional_def)
      then show ?thesis using call.IH by simp
    next
      case (Inr u)
      then have run: "agg_call_body cfg c s = (s', Inr ())" and s: "?s = s'"
        using Pair by (simp_all add: agg_dispatch_def transactional_def)
      show ?thesis
      proof (cases rule: agg_effect [OF ok inv run, case_names quiet added published])
        case quiet
        then show ?thesis using call.IH s by (simp add: ledger_view_def)
      next
        case (added i e)
        then show ?thesis using call.IH s by (simp add: statement_of_def add_reserve_due add.commute)
      next
        case (published i a)
        have "due r b (work s') \<le> held cfg s' r b" for r b
        proof -
          have "due r b (work s) \<le> held cfg s r b" using call.IH by simp
          then show ?thesis using published(1) published(4) [of r b] by simp
        qed
        then show ?thesis using call.IH published(1-3) s by (simp add: union_ac)
      qed
    qed
  qed
next
  case (block h s)
  have "work (agg_on_initialize s) = work s" "accepted (agg_on_initialize s) = accepted s"
    "held cfg (agg_on_initialize s) = held cfg s"
    by (simp_all add: agg_on_initialize_def work_def held_def)
  then show ?case using block.IH by (simp add: agg_on_initialize_def)
next
  case (others h s l)
  then show ?case by (simp add: work_def held_def)
qed

text \<open>
  C29: no proof is lost and none is aggregated twice. At any time the proofs that the pallet accepted,
  as its events report them, are exactly the statements that wait in a domain and those of the
  aggregations that were published.
\<close>

theorem statements_conserved:
  assumes "agg_chain cfg h s" and "agg_config_ok cfg"
  shows "mset (accepted s) =
    image_mset statement_of (work s) + image_mset statement_of (published_work (h @ Published s))"
  using chain_effects [OF assms] by simp

theorem statements_conserved_witness:
  "accepted sample_agg = [(0, ''x''), (0, ''y''), (0, ''z'')] \<and>
   mset (accepted sample_agg) = image_mset statement_of (work sample_agg) +
     image_mset statement_of (published_work ([] @ Published sample_agg))"
  using statements_conserved [OF sample_agg_chain sample_agg_ok(1)] sample_agg_facts2 by blast

text \<open>
  C30: what an account owes for its statements that wait for publication, for the aggregation and for
  the delivery, is on hold at any time. Publishing takes from the holds of an account no more than
  what its own published statements had reserved.
\<close>

theorem reserves_stay_on_hold:
  assumes "agg_chain cfg h s" and "agg_config_ok cfg"
  shows "due r a (work s) \<le> ho_on_hold (agg_holds cfg) (agg_ledger s) r a"
  using chain_effects [OF assms] by (simp add: held_def)

theorem reserves_stay_on_hold_witness:
  "due AggregationReason ''a'' (work sample_agg) = 12 \<and>
   12 \<le> ho_on_hold (agg_holds sample_agg_config) (agg_ledger sample_agg) AggregationReason ''a''"
  using reserves_stay_on_hold [OF sample_agg_chain sample_agg_ok(1), of AggregationReason "''a''"] sample_due
  by simp


section \<open>Panics\<close>

lemma panic_free_mutate:
  assumes "\<And>d. Domains s i = Some d \<Longrightarrow> panic_free m (d, s)"
  shows "panic_free (try_mutate i m) s"
  using assms by (auto simp: panic_free_def try_mutate_def split: option.splits prod.splits sum.splits)

lemma panic_free_user [panic_intros]: "panic_free (user_from_origin cfg og) s"
  by (auto simp: panic_free_def user_from_origin_eq split: option.splits)

lemma panic_free_methods [panic_intros]:
  "panic_free (self f) w" "panic_free (set_self g) w" "panic_free (deposit e) w"
  "panic_free (agg_deposit e) s" "panic_free (on_ledger k) w" "panic_free (change_allowlist c) w"
  "panic_free (new_ticket co a m b) s"
  by (auto simp: panic_free_def self_def set_self_def deposit_def agg_deposit_def on_ledger_def
      change_allowlist_def new_ticket_def split: prod.splits sum.splits option.splits)

lemma panic_free_option [panic_intros]:
  "(y = None \<Longrightarrow> panic_free m s) \<Longrightarrow> (\<And>x. y = Some x \<Longrightarrow> panic_free (k x) s) \<Longrightarrow>
   panic_free (case y of None \<Rightarrow> m | Some x \<Rightarrow> k x) s"
  by (cases y) auto

lemma panic_free_if [panic_intros]:
  "(b \<Longrightarrow> panic_free m s) \<Longrightarrow> (\<not> b \<Longrightarrow> panic_free k s) \<Longrightarrow> panic_free (if b then m else k) s"
  by simp

lemma panic_free_hold_state [panic_intros]:
  "panic_free handle_hold_state w" "panic_free update_hold_state w" "panic_free emit_state_changed_event w"
  using handle_hold_state_eq [of "fst w" "snd w"]
  by (cases w; auto simp: panic_free_def update_hold_state_eq emit_eq)+

lemma panic_free_footprint [panic_intros]: "panic_free (update_footprint cfg f) w"
  unfolding update_footprint_def by (intro panic_intros) (auto intro!: panic_intros split: option.splits)

lemma panic_free_calls:
  "agg_inv cfg s \<Longrightarrow> panic_free (aggregate cfg og i k) s"
  "panic_free (register_domain cfg og n q ar pr dl ow) s"
  "panic_free (hold_domain cfg og i) s"
  "panic_free (unregister_domain cfg og i) s"
  "panic_free (set_total_delivery_fee cfg og i fee tip) s"
  "panic_free (allowlist_proof_submitters cfg og i as) s"
  "panic_free (remove_proof_submitters cfg og i as) s"
proof -
  have pub: "panic_free (publish_aggregation cfg u i k) (d, s')"
    if "ag_size (dom_next d) \<le> AggregationSize cfg" for u d s'
    using publish_aggregation_eq [OF that, of u i k s']
    by (auto simp: panic_free_def Let_def split: option.splits if_splits)
  show "panic_free (aggregate cfg og i k) s" if "agg_inv cfg s"
    unfolding aggregate_def
    by (auto intro!: panic_intros panic_free_mutate pub simp: user_from_origin_eq
        dest: agg_inv_sized [OF that] split: sum.splits option.splits)
  show "panic_free (register_domain cfg og n q ar pr dl ow) s"
    unfolding register_domain_def Let_def by (intro panic_intros) simp_all
  show "panic_free (hold_domain cfg og i) s"
    unfolding hold_domain_def by (intro panic_intros panic_free_mutate) simp_all
  show "panic_free (unregister_domain cfg og i) s"
    by (auto simp: panic_free_def unregister_domain_def act_bind_def user_from_origin_eq Let_def
        split: option.splits)
  show "panic_free (set_total_delivery_fee cfg og i fee tip) s"
    unfolding set_total_delivery_fee_def by (intro panic_intros panic_free_mutate) simp_all
  show "panic_free (allowlist_proof_submitters cfg og i as) s"
    "panic_free (remove_proof_submitters cfg og i as) s"
    unfolding allowlist_proof_submitters_def remove_proof_submitters_def increase_footprint_count_def
      decrease_footprint_count_def by (intro panic_intros panic_free_mutate; simp)+
qed

lemma verified_panics_iff:
  assumes laws: "hold_laws (agg_holds cfg)" and inv: "agg_inv cfg s"
  shows "(\<exists>msg. snd (on_proof_verified cfg a i st s) = Inl (PanicErr msg)) \<longleftrightarrow>
    (\<exists>b j d. a = Some b \<and> i = Some j \<and> Domains s j = Some d \<and> dom_state d = Ready \<and>
       can_add_statement d \<and> dom_proof_rules d = ProofOnlyOwner \<and> dom_owner d = Manager)"
proof (cases "\<exists>b j d. a = Some b \<and> i = Some j \<and> Domains s j = Some d")
  case False
  then show ?thesis by (auto simp: on_proof_verified_def split: option.splits)
next
  case True
  then obtain b j d where a: "a = Some b" "i = Some j" and d: "Domains s j = Some d" by blast
  note D = agg_invD [OF inv d]
  have ok: "domain_ok cfg (SubmittersAllowlist s (dom_id d)) d" using D(2,3) by simp
  have "(\<exists>msg. snd (proof_for_domain cfg b j st (d, s)) = Inl (PanicErr msg)) \<longleftrightarrow>
      dom_state d = Ready \<and> can_add_statement d \<and> ownerless d"
    by (cases rule: proof_for_domain_cases [OF laws ok, of b j st, case_names panics refused added])
      (auto simp: accepts_proof_def)
  moreover have "snd (on_proof_verified cfg a i st s) = snd (proof_for_domain cfg b j st (d, s))"
    using a d by (simp add: on_proof_verified_def try_mutate_def split: prod.splits sum.splits)
  ultimately show ?thesis using a d by (simp add: ownerless_def)
qed

text \<open>
  C31: the one panic of the pallet. No reachable state lets a call panic, with one exception: a verified
  proof for a domain that the manager registered with the rule that only its owner may submit, while
  the domain is ready and has room. Such a domain has no owner account, and any account can run into the
  \<open>expect\<close>; no other \<open>expect\<close> of the pallet can fail.
\<close>

theorem agg_panics_iff:
  assumes "agg_chain cfg h s" and "hold_laws (agg_holds cfg)"
  shows "(\<exists>msg. snd (agg_dispatch cfg c s) = Inl (PanicErr msg)) \<longleftrightarrow>
    (\<exists>a i st d. c = ProofVerified (Some a) (Some i) st \<and> Domains s i = Some d \<and> dom_state d = Ready \<and>
       can_add_statement d \<and> dom_proof_rules d = ProofOnlyOwner \<and> dom_owner d = Manager)"
proof -
  have inv: "agg_inv cfg s" using agg_inv_recall agg_chain_inv [OF assms] by blast
  show ?thesis
  proof (cases "\<exists>a i st. c = ProofVerified a i st")
  case True
  then obtain a i st where c: "c = ProofVerified a i st" by blast
  from verified_panics_iff [OF assms(2) inv, of a i st] show ?thesis
    by (auto simp: c agg_dispatch_def)
next
  case False
  then have "panic_free (agg_call_body cfg c) s" by (cases c) (auto intro: panic_free_calls inv)
  then show ?thesis using False by (auto simp: panic_free_def agg_dispatch_def)
  qed
qed

theorem agg_panics_iff_witness:
  "\<exists>msg. snd (agg_dispatch sample_agg_config (ProofVerified (Some ''a'') (Some 0) ''x'') sample_managed) =
     Inl (PanicErr msg)"
proof -
  have "\<exists>d. Domains sample_managed 0 = Some d \<and> dom_state d = Ready \<and> can_add_statement d \<and>
      dom_proof_rules d = ProofOnlyOwner \<and> dom_owner d = Manager"
    by (simp add: sample_managed_def agg_eval sample_defs)
  then show ?thesis
    using agg_panics_iff [OF sample_chains(3) sample_agg_ok(2)] by blast
qed


section \<open>The life cycle of domains\<close>

fun state_rank :: "domain_state \<Rightarrow> nat" where
  "state_rank Ready = 1"
| "state_rank Hold = 2"
| "state_rank Removable = 3"
| "state_rank Removed = 4"

text \<open>Not yet registered, then the states of the domain, then gone.\<close>

definition life :: "('l, 't) agg_storage \<Rightarrow> nat \<Rightarrow> nat" where
  "life s i = (case Domains s i of
     Some d \<Rightarrow> state_rank (dom_state d)
   | None \<Rightarrow> if i < NextDomainId s then 4 else 0)"

lemma settle_rank:
  assumes "domain_ok cfg al d" and "dom_state d = Removable \<Longrightarrow> al' = []"
  shows "state_rank (dom_state d) \<le> state_rank (settled_state al' d)"
  using assms by (cases "dom_state d") (auto simp: settled_state_def domain_ok_def)

text \<open>How a call may change the domain of an identifier.\<close>

definition slot_step :: "nat \<Rightarrow> ('l, 't) agg_storage \<Rightarrow> ('l, 't) agg_storage \<Rightarrow> bool" where
  "slot_step i s s' \<longleftrightarrow>
     life s i \<le> life s' i \<and> (2 \<le> life s i \<longrightarrow> slot_work i (Domains s' i) \<subseteq># slot_work i (Domains s i))"

lemma slot_step_same:
  "Domains s' i = Domains s i \<Longrightarrow> NextDomainId s' = NextDomainId s \<Longrightarrow> slot_step i s s'"
  by (simp add: slot_step_def life_def)

lemma slot_step_changed:
  assumes "Domains s j = Some d" and "Domains s' = (Domains s)(j := Some d')"
    and "NextDomainId s' = NextDomainId s" and "state_rank (dom_state d) \<le> state_rank (dom_state d')"
    and "dom_state d \<noteq> Ready \<Longrightarrow> mset (dom_entries d') \<subseteq># mset (dom_entries d)"
  shows "slot_step i s s'"
proof (cases "i = j")
  case True
  have "2 \<le> state_rank (dom_state d) \<Longrightarrow> dom_state d \<noteq> Ready" by auto
  then show ?thesis
    using True assms by (auto simp: slot_step_def life_def intro: image_mset_subseteq_mono)
next
  case False
  then show ?thesis using assms by (intro slot_step_same) auto
qed

lemma settled_step:
  assumes ok: "domain_ok cfg al d" and d: "Domains s j = Some d"
    and s': "Domains s' = (Domains s)(j := Some (settle al' d'))" "NextDomainId s' = NextDomainId s"
    and ok': "domain_ok cfg al d'" and rank: "state_rank (dom_state d) \<le> state_rank (dom_state d')"
    and al: "dom_state d' = Removable \<Longrightarrow> al' = []"
    and entries: "dom_state d \<noteq> Ready \<Longrightarrow> mset (dom_entries d') \<subseteq># mset (dom_entries d)"
  shows "slot_step i s s'"
  using settle_rank [OF ok' al] rank entries
  by (intro slot_step_changed [OF d s']) simp_all

lemma same_work_rank: "same_work d d' \<Longrightarrow> dom_state d' = dom_state d"
  by (simp add: same_work_def)

lemma removable_unlisted: "domain_ok cfg al d \<Longrightarrow> dom_state d = Removable \<Longrightarrow> al = []"
  by (simp add: domain_ok_def)

lemma agg_body_step:
  assumes laws: "hold_laws (agg_holds cfg)" and inv: "agg_inv cfg s" and run: "agg_call_body cfg c s = (s', Inr ())"
  shows "slot_step i s s'"
proof -
  note D = agg_invD [OF inv]
  show ?thesis
  proof (cases c)
    case (Aggregate og j k)
    then have "aggregate cfg og j k s = (s', Inr ())" using run by simp
    then obtain d a where d: "Domains s j = Some d" and t: "takes k d = Some a"
      and s': "Domains s' = (Domains s)(j := Some (settle (SubmittersAllowlist s j) (taken k d)))"
      and n: "NextDomainId s' = NextDomainId s"
      by (rule aggregate_effect [OF laws inv])
    note ok = D(3) [OF d]
    have "state_rank (dom_state d) \<le> state_rank (dom_state (taken k d))"
      using takes_SomeD(5) [OF ok t] ok by (cases "dom_state d") (auto simp: taken_def domain_ok_def)
    then show ?thesis
      using entries_taken [OF ok t] removable_unlisted [OF domain_ok_taken [OF ok t]] n
      by (intro settled_step [OF ok d s' _ domain_ok_taken [OF ok t]]) simp_all
  next
    case (RegisterDomain og m q ar pr dl ow)
    then have "register_domain cfg og m q ar pr dl ow s = (s', Inr ())" using run by simp
    then obtain d where d: "Domains s' = (Domains s)(NextDomainId s := Some d)"
      "NextDomainId s' = NextDomainId s + 1" by (elim register_domain_Inr) auto
    have "Domains s (NextDomainId s) = None" using D(1) [of "NextDomainId s"] by (cases "Domains s (NextDomainId s)") auto
    then show ?thesis using d by (auto simp: slot_step_def life_def split: option.splits)
  next
    case (HoldDomain og j)
    then obtain d where d: "Domains s j = Some d" "dom_state d = Ready"
      and s': "Domains s' = (Domains s)(j := Some (settle (SubmittersAllowlist s (dom_id d)) (d\<lparr>dom_state := Hold\<rparr>)))"
      and n: "NextDomainId s' = NextDomainId s"
      using run by (auto simp: hold_domain_Inr Let_def)
    show ?thesis
      using d(2) n
      by (intro settled_step [OF D(3) [OF d(1)] d(1) s' _ domain_ok_held [OF D(3) [OF d(1)]]]) simp_all
  next
    case (UnregisterDomain og j)
    then obtain d where d: "Domains s j = Some d" and s': "Domains s' = (Domains s)(j := None)"
      and n: "NextDomainId s' = NextDomainId s"
      using run by (auto simp: unregister_domain_Inr)
    have "state_rank (dom_state d) \<le> 4" by (cases "dom_state d") auto
    then show ?thesis
      using d s' D(1) [OF d] n by (auto simp: slot_step_def life_def split: option.splits)
  next
    case (SetTotalDeliveryFee og j fee tip)
    then obtain d where d: "Domains s j = Some d" and s': "Domains s' = (Domains s)(j := Some
          (d\<lparr>dom_delivery := (dom_delivery d)\<lparr>dl_fee := fee, dl_owner_tip := tip\<rparr>\<rparr>))"
      and n: "NextDomainId s' = NextDomainId s"
      using run by (auto simp: set_total_delivery_fee_Inr)
    show ?thesis
      using n by (intro slot_step_changed [OF d s']) (simp_all add: dom_entries_def)
  next
    case (AllowlistProofSubmitters og j as)
    then have "allowlist_proof_submitters cfg og j as s = (s', Inr ())" using run by simp
    then obtain d d' where d: "Domains s j = Some d" and w: "same_work d d'"
      and s': "Domains s' = (Domains s)(j := Some d')" and n: "NextDomainId s' = NextDomainId s"
      by (elim allowlist_proof_submitters_Inr) (auto simp: listed_def)
    show ?thesis
      using n same_work_rank [OF w] same_work_entries [OF w]
      by (intro slot_step_changed [OF d s']) simp_all
  next
    case (RemoveProofSubmitters og j as)
    then have "remove_proof_submitters cfg og j as s = (s', Inr ())" using run by simp
    then obtain d d' where d: "Domains s j = Some d" and w: "same_work d d'"
      and s': "Domains s' = (Domains s)(j := Some (settle (fst (disallow as (SubmittersAllowlist s (dom_id d)))) d'))"
      and n: "NextDomainId s' = NextDomainId s"
      by (elim remove_proof_submitters_Inr) (auto simp: listed_def)
    note ok = D(3) [OF d]
    have "fst (disallow as (SubmittersAllowlist s (dom_id d))) = []" if "dom_state d' = Removable"
      using removable_unlisted [OF ok] that same_work_rank [OF w] D(2) [OF d] by simp
    moreover have "domain_ok cfg (SubmittersAllowlist s j) d'" using ok same_work_ok(1) [OF w, of cfg] by simp
    ultimately show ?thesis
      using n same_work_rank [OF w] same_work_entries [OF w]
      by (intro settled_step [OF ok d s']) simp_all
  next
    case (ProofVerified a j st)
    then have r: "on_proof_verified cfg a j st s = (s', Inr ())" using run by simp
    show ?thesis
    proof (cases rule: verified_effect [OF laws inv r, case_names refused added])
      case refused
      then show ?thesis by (intro slot_step_same) simp_all
    next
      case (added b j d)
      note ok = D(3) [OF added(3)]
      have ready: "dom_state d = Ready" and can: "can_add_statement d"
        using added(4) by (simp_all add: accepts_proof_def)
      note ok' = domain_ok_with_statement [OF ok ready can]
      have "1 \<le> state_rank x" for x by (cases x) auto
      then show ?thesis
        using added(10) ready removable_unlisted [OF ok']
        by (intro settled_step [OF ok added(3) added(5) _ ok']) simp_all
    qed
  qed
qed


lemma dispatch_ok: "agg_call_body cfg c s = (s', Inr ()) \<Longrightarrow> fst (agg_dispatch cfg c s) = s'"
  by (simp add: agg_dispatch_def transactional_def)

lemma dispatch_life:
  assumes "hold_laws (agg_holds cfg)" and "agg_inv cfg s"
  shows "slot_step i s (fst (agg_dispatch cfg c s))"
proof (cases "agg_call_body cfg c s")
  case (Pair s' r)
  then show ?thesis
    using agg_body_step [OF assms, of c s' i]
    by (cases r) (auto simp: agg_dispatch_def transactional_def intro: slot_step_same)
qed

text \<open>
  C32: the life of a domain only goes forward, whatever calls anybody sends: registered, ready, on hold,
  removable, removed. A removed identifier is never used again. Once a domain is on hold no
  statement enters it any more; what waits there only becomes less.
\<close>

theorem domain_life_forward:
  assumes "agg_chain cfg h s" and "hold_laws (agg_holds cfg)"
  shows "let s' = run_calls cfg cs s in
    life s i \<le> life s' i \<and>
    (2 \<le> life s i \<longrightarrow> slot_work i (Domains s' i) \<subseteq># slot_work i (Domains s i))"
  unfolding Let_def using assms(1)
proof (induction cs arbitrary: s)
  case (Cons c cs)
  let ?s = "fst (agg_dispatch cfg c s)"
  have "agg_inv cfg s" using agg_inv_recall agg_chain_inv [OF Cons.prems assms(2)] by blast
  from dispatch_life [OF assms(2) this, of i c] Cons.IH [OF agg_chain.call [OF Cons.prems, of c]]
  show ?case unfolding slot_step_def by (auto intro: subset_mset.trans)
qed simp

theorem domain_life_forward_witness:
  "life sample_held 0 = 2 \<and>
   2 \<le> life (run_calls sample_agg_config [ProofVerified (Some ''b'') (Some 0) ''w''] sample_held) 0 \<and>
   slot_work 0 (Domains (run_calls sample_agg_config [ProofVerified (Some ''b'') (Some 0) ''w''] sample_held) 0)
     \<subseteq># slot_work 0 (Domains sample_held 0)"
proof -
  have "life sample_held 0 = 2"
    by (simp add: life_def sample_held_def agg_eval sample_defs hold_domain_def update_hold_state_eq emit_eq
        settled_state_def no_statements_def)
  then show ?thesis
    using domain_life_forward [OF sample_chains(1) sample_agg_ok(2),
        of "[ProofVerified (Some ''b'') (Some 0) ''w'']" 0] unfolding Let_def by simp
qed


section \<open>A domain can be drained and removed\<close>

text \<open>The identifiers under which the statements of a domain can be published.\<close>

definition pending_ids :: "'t domain \<Rightarrow> nat list" where
  "pending_ids d = map fst (dom_should_publish d) @
     (if ag_statements (dom_next d) = [] then [] else [ag_id (dom_next d)])"

lemma pending_taken:
  assumes ok: "domain_ok cfg al d" and k: "pending_ids d = k # ks"
  shows "\<exists>a. takes k d = Some a" and "pending_ids (taken k d) = ks"
proof -
  have q: "queue_ok d" using ok by (simp add: domain_ok_def)
  have "(\<exists>a. takes k d = Some a) \<and> pending_ids (taken k d) = ks"
  proof (cases "dom_should_publish d")
    case Nil
    then show ?thesis using k by (auto simp: pending_ids_def takes_def taken_def split: if_splits)
  next
    case (Cons e es)
    then have e: "fst e = k" using k by (simp add: pending_ids_def)
    then have "id_used d k" using queue_ids [OF q] Cons by auto
    then have neq: "ag_id (dom_next d) \<noteq> k" by (auto simp: id_used_def)
    have "distinct (map fst (dom_should_publish d))" using q by (simp add: queue_ok_def btree_distinct)
    then have "k \<notin> fst ` set es" using e Cons by simp
    then have "filter (\<lambda>x. fst x \<noteq> k) es = es" by (intro filter_True) auto
    then show ?thesis
      using k Cons e neq by (cases e) (auto simp: pending_ids_def takes_def taken_def)
  qed
  then show "\<exists>a. takes k d = Some a" and "pending_ids (taken k d) = ks" by auto
qed

lemma pending_settle [simp]: "pending_ids (settle al d) = pending_ids d"
  by (simp add: pending_ids_def)

lemma no_pending: "pending_ids d = [] \<longleftrightarrow> no_statements d"
  by (auto simp: pending_ids_def no_statements_def)

definition drainable :: "('l, 't) agg_config \<Rightarrow> ('l, 't) agg_storage \<Rightarrow> nat \<Rightarrow> 't domain \<Rightarrow> bool" where
  "drainable cfg s i d \<longleftrightarrow> agg_inv cfg s \<and> Domains s i = Some d \<and> SubmittersAllowlist s i = [] \<and>
     dom_state d = settled_state [] d \<and> dom_state d \<noteq> Ready"

lemma settled_settle [simp]: "settled_state al (settle al d) = settled_state al d"
  by (auto simp: settled_state_def no_statements_def)

text \<open>Every domain is in the state that its statements and its allowlist call for.\<close>

definition all_settled :: "('l, 't) agg_storage \<Rightarrow> bool" where
  "all_settled s \<longleftrightarrow>
     (\<forall>i d. Domains s i = Some d \<longrightarrow> dom_state d = settled_state (SubmittersAllowlist s i) d)"

lemma all_settled_changed:
  assumes "all_settled s" and "Domains s' = (Domains s)(j := Some d)"
    and "\<And>i. i \<noteq> j \<Longrightarrow> SubmittersAllowlist s' i = SubmittersAllowlist s i"
    and "dom_state d = settled_state (SubmittersAllowlist s' j) d"
  shows "all_settled s'"
  using assms by (auto simp: all_settled_def)

lemma settled_same: "same_work d d' \<Longrightarrow> settled_state al d' = settled_state al d"
  by (simp add: settled_state_def no_statements_def same_work_def)

lemma settled_Ready: "dom_state d = Ready \<Longrightarrow> settled_state al d = Ready"
  by (simp add: settled_state_def)

lemma agg_body_settled:
  assumes laws: "hold_laws (agg_holds cfg)" and inv: "agg_inv cfg s" and st: "all_settled s"
    and run: "agg_call_body cfg c s = (s', Inr ())"
  shows "all_settled s'"
proof -
  note D = agg_invD [OF inv]
  show ?thesis
  proof (cases c)
    case (Aggregate og j k)
    then show ?thesis
      using run D(2) by (auto simp: aggregate_Inr [OF inv] paid_out_def
          intro!: all_settled_changed [OF st])
  next
    case (RegisterDomain og m q ar pr dl ow)
    then have "register_domain cfg og m q ar pr dl ow s = (s', Inr ())" using run by simp
    then show ?thesis
      by (elim register_domain_Inr)
        (auto intro!: all_settled_changed [OF st] simp: settled_Ready fresh_domain_def)
  next
    case (HoldDomain og j)
    then show ?thesis
      using run D(2) by (auto simp: hold_domain_Inr Let_def
          intro!: all_settled_changed [OF st])
  next
    case (UnregisterDomain og j)
    then show ?thesis using run st by (auto simp: unregister_domain_Inr all_settled_def split: if_splits)
  next
    case (SetTotalDeliveryFee og j fee tip)
    then obtain d where d: "Domains s j = Some d" and s': "s' = s\<lparr>Domains := (Domains s)(j := Some
          (d\<lparr>dom_delivery := (dom_delivery d)\<lparr>dl_fee := fee, dl_owner_tip := tip\<rparr>\<rparr>))\<rparr>"
      using run by (auto simp: set_total_delivery_fee_Inr)
    let ?d = "d\<lparr>dom_delivery := (dom_delivery d)\<lparr>dl_fee := fee, dl_owner_tip := tip\<rparr>\<rparr>"
    have "settled_state (SubmittersAllowlist s j) ?d = settled_state (SubmittersAllowlist s j) d"
      by (rule settled_same) (simp add: same_work_def)
    moreover have "dom_state d = settled_state (SubmittersAllowlist s j) d"
      using st d by (simp add: all_settled_def)
    ultimately show ?thesis
      using all_settled_changed [OF st, of s' j ?d] by (simp add: s')
  next
    case (AllowlistProofSubmitters og j as)
    then have "allowlist_proof_submitters cfg og j as s = (s', Inr ())" using run by simp
    then show ?thesis
      by (elim allowlist_proof_submitters_Inr)
        (auto intro!: all_settled_changed [OF st] simp: D(2) settled_Ready same_work_rank listed_def)
  next
    case (RemoveProofSubmitters og j as)
    then have "remove_proof_submitters cfg og j as s = (s', Inr ())" using run by simp
    then show ?thesis
      by (elim remove_proof_submitters_Inr)
        (auto intro!: all_settled_changed [OF st] simp: D(2) listed_def)
  next
    case (ProofVerified a j st')
    then have r: "on_proof_verified cfg a j st' s = (s', Inr ())" using run by simp
    show ?thesis
    proof (cases rule: verified_effect [OF laws inv r, case_names refused added])
      case refused
      then show ?thesis using st by (simp add: all_settled_def)
    next
      case (added b j d)
      show ?thesis by (rule all_settled_changed [OF st added(5)]) (simp_all add: added(11))
    qed
  qed
qed

lemma chain_settled:
  assumes "agg_chain cfg h s" and laws: "hold_laws (agg_holds cfg)"
  shows "all_settled s"
  using assms(1)
proof induction
  case (call h s c)
  have inv: "agg_inv cfg s" using agg_inv_recall agg_chain_inv [OF call.hyps laws] by blast
  obtain s' r where body: "agg_call_body cfg c s = (s', r)" by (cases "agg_call_body cfg c s")
  then show ?case
    using agg_body_settled [OF laws inv call.IH, of c s'] call.IH
    by (cases r) (auto simp: agg_dispatch_def transactional_def)
qed (simp_all add: all_settled_def agg_start_def agg_on_initialize_def)

lemma manager_aggregates:
  assumes man: "agg_manager cfg Root" and ok: "\<And>i k r ds fee ow. dispatch_aggregation cfg i k r ds fee ow = Inr ()"
    and dr: "drainable cfg s i d" and k: "pending_ids d = k # ks"
  shows "drainable cfg (fst (agg_dispatch cfg (Aggregate Root i k) s)) i (settle [] (taken k d))"
    and "dom_state (taken k d) = dom_state d"
proof -
  have inv: "agg_inv cfg s" and d: "Domains s i = Some d" and al: "SubmittersAllowlist s i = []"
    and st: "dom_state d = settled_state [] d" "dom_state d \<noteq> Ready"
    using dr by (auto simp: drainable_def)
  note D = agg_invD [OF inv d]
  obtain a where t: "takes k d = Some a" using pending_taken(1) [OF D(3) k] by blast
  obtain es w where p: "publish_aggregation cfg Manager i k (d, s) =
     (case takes k d of
        None \<Rightarrow> (w, Inl (ModuleErr InvalidAggregationId))
      | Some a \<Rightarrow>
          if may_aggregate Manager d a
          then let d' = settle (SubmittersAllowlist s (dom_id d)) (taken k d) in
               ((d', logged es (paid_out cfg Manager d i a s)), Inr (compute_receipt cfg a, d'))
          else (w, Inl BadOrigin))"
    using publish_aggregation_eq [OF agg_inv_sized [OF inv d], of Manager i k s] by blast
  have may: "may_aggregate Manager d a"
    by (cases "dom_aggregate_rules d") (simp_all add: may_aggregate_def is_owner_auth_def)
  obtain s' where run: "aggregate cfg Root i k s = (s', Inr ())"
    unfolding aggregate_Inr [OF inv] using p t may ok man d by (auto simp: origin_user_def Let_def)
  have s': "agg_inv cfg s'" by (rule aggregate_inv [OF inv run])
  have doms: "Domains s' i = Some (settle [] (taken k d))" "SubmittersAllowlist s' i = []"
    using run al d t D(2) by (auto simp: aggregate_Inr [OF inv] paid_out_def)
  have "dom_state d = Hold" using st takes_SomeD(5) [OF D(3) t] by (simp add: settled_state_def split: if_splits)
  then have hold: "dom_state (taken k d) = Hold" by (simp add: taken_def)
  then show "dom_state (taken k d) = dom_state d" using \<open>dom_state d = Hold\<close> by simp
  have "fst (agg_dispatch cfg (Aggregate Root i k) s) = s'" by (rule dispatch_ok) (simp add: run)
  then show "drainable cfg (fst (agg_dispatch cfg (Aggregate Root i k) s)) i (settle [] (taken k d))"
    using s' doms hold by (simp add: drainable_def) (simp add: settled_state_def)
qed

lemma drain:
  assumes man: "agg_manager cfg Root" and ok: "\<And>i k r ds fee ow. dispatch_aggregation cfg i k r ds fee ow = Inr ()"
    and "drainable cfg s i d"
  shows "\<exists>d'. drainable cfg (run_calls cfg (map (Aggregate Root i) (pending_ids d)) s) i d' \<and>
    pending_ids d' = []"
  using assms(3)
proof (induction "pending_ids d" arbitrary: s d)
  case Nil
  then show ?case by auto
next
  case (Cons k ks)
  let ?d = "settle [] (taken k d)"
  have inv: "agg_inv cfg s" and d: "Domains s i = Some d" using Cons.prems by (simp_all add: drainable_def)
  have "pending_ids ?d = ks" using pending_taken(2) [OF agg_invD(3) [OF inv d] Cons.hyps(2) [symmetric]] by simp
  then show ?case
    using Cons.hyps(1) [of ?d, OF _ manager_aggregates(1) [OF man ok Cons.prems Cons.hyps(2) [symmetric]]]
      Cons.hyps(2) by (metis run_calls_simps(2) list.simps(9))
qed

lemma hold_drainable:
  assumes man: "agg_manager cfg Root" and inv: "agg_inv cfg s" and d: "Domains s i = Some d"
    and al: "SubmittersAllowlist s i = []" and st: "all_settled s"
  shows "\<exists>d'. drainable cfg (fst (agg_dispatch cfg (HoldDomain Root i) s)) i d' \<and> pending_ids d' = pending_ids d"
proof (cases "dom_state d = Ready")
  case True
  let ?d = "settle [] (d\<lparr>dom_state := Hold\<rparr>)"
  obtain s' where run: "hold_domain cfg Root i s = (s', Inr ())"
    and s': "Domains s' i = Some ?d" "SubmittersAllowlist s' i = []"
    using True man d al agg_invD(2) [OF inv d] by (auto simp: hold_domain_Inr origin_user_def Let_def)
  have "fst (agg_dispatch cfg (HoldDomain Root i) s) = s'" by (rule dispatch_ok) (simp add: run)
  then have "drainable cfg (fst (agg_dispatch cfg (HoldDomain Root i) s)) i ?d"
    using s' hold_domain_inv [OF inv run] by (simp add: drainable_def) (simp add: settled_state_def)
  moreover have "pending_ids ?d = pending_ids d" by (simp add: pending_ids_def)
  ultimately show ?thesis by blast
next
  case False
  have "\<not> (\<exists>s'. hold_domain cfg Root i s = (s', Inr ()))" using False d by (simp add: hold_domain_Inr)
  then have "fst (agg_dispatch cfg (HoldDomain Root i) s) = s"
    by (cases "hold_domain cfg Root i s"; cases "snd (hold_domain cfg Root i s)")
      (auto simp: agg_dispatch_def transactional_def)
  moreover have "drainable cfg s i d"
    using inv d al False st by (auto simp: drainable_def all_settled_def)
  ultimately show ?thesis by auto
qed

text \<open>
  Nothing gets stuck in a domain. From every reachable state, a registered domain whose allowlist is
  empty can be removed by the manager: put it on hold, publish each pending aggregation, unregister
  it. This needs no help from the owner, and works in every state of the domain, provided the dispatch
  to the Destination accepts what is published.
\<close>

theorem domain_can_be_removed:
  assumes "agg_chain cfg h s" and "hold_laws (agg_holds cfg)" and "agg_manager cfg Root"
    and "\<And>i k r ds fee ow. dispatch_aggregation cfg i k r ds fee ow = Inr ()"
    and "Domains s i = Some d" and "SubmittersAllowlist s i = []"
  shows "Domains (run_calls cfg
    (HoldDomain Root i # map (Aggregate Root i) (pending_ids d) @ [UnregisterDomain Root i]) s) i = None"
proof -
  have inv: "agg_inv cfg s" using agg_inv_recall agg_chain_inv [OF assms(1,2)] by blast
  let ?s = "fst (agg_dispatch cfg (HoldDomain Root i) s)"
  obtain d1 where "drainable cfg ?s i d1" and "pending_ids d1 = pending_ids d"
    using hold_drainable [OF assms(3) inv assms(5,6) chain_settled [OF assms(1,2)]] by blast
  with drain [OF assms(3,4)] obtain d2 where
    dr: "drainable cfg (run_calls cfg (map (Aggregate Root i) (pending_ids d)) ?s) i d2"
    and p: "pending_ids d2 = []" by metis
  let ?t = "run_calls cfg (map (Aggregate Root i) (pending_ids d)) ?s"
  have d2: "Domains ?t i = Some d2" "dom_state d2 = Removable"
    using dr p by (auto simp: drainable_def settled_state_def no_pending)
  obtain t' where run: "unregister_domain cfg Root i ?t = (t', Inr ())" and t': "Domains t' i = None"
    using d2 assms(3) by (auto simp: unregister_domain_Inr origin_user_def)
  have "fst (agg_dispatch cfg (UnregisterDomain Root i) ?t) = t'" by (rule dispatch_ok) (simp add: run)
  then show ?thesis using t' by simp
qed

theorem domain_can_be_removed_witness:
  "Domains (run_calls sample_agg_config
     [HoldDomain Root 0, Aggregate Root 0 2, UnregisterDomain Root 0] sample_agg) 0 = None"
proof -
  obtain d where d: "Domains sample_agg 0 = Some d" "pending_ids d = [2]"
    by (simp add: agg_eval sample_defs pending_ids_def)
  have "SubmittersAllowlist sample_agg 0 = []" by (simp add: agg_eval sample_defs)
  moreover have "agg_manager sample_agg_config Root"
    "\<And>i k r ds fee ow. dispatch_aggregation sample_agg_config i k r ds fee ow = Inr ()"
    by (simp_all add: sample_agg_config_def)
  ultimately show ?thesis
    using domain_can_be_removed [OF sample_agg_chain sample_agg_ok(2) _ _ d(1)] d(2) by simp
qed


section \<open>Paths of published statements\<close>

lemma position_Some:
  assumes "e \<in> set es" and "P e"
  shows "\<exists>i. position P es = Some i \<and> i < length es \<and> P (es ! i)"
  using assms
proof (induction es)
  case (Cons x es)
  show ?case
  proof (cases "P x")
    case False
    then have "e \<in> set es" using Cons.prems by auto
    then show ?thesis using False Cons by auto
  qed simp
qed simp

lemma find_distinct:
  assumes "distinct (map f xs)" and "x \<in> set xs"
  shows "find (\<lambda>y. f y = f x) xs = Some x"
  using assms by (induction xs) auto

lemma path_of_published:
  assumes chain: "agg_chain cfg h s" and laws: "hold_laws (agg_holds cfg)"
    and root: "\<And>ls. tree_root cfg ls = ''0x'' @ merkle_root K (map K ls)"
    and paths: "\<And>ls j. j < length ls \<Longrightarrow> tree_proof cfg ls j = path_of K ls j"
    and size: "AggregationSize cfg \<le> u32_max"
    and a: "(i, a) \<in> set (Published s)" and e: "e \<in> set (ag_statements a)"
  shows "\<exists>p. get_statement_path cfg s i (ag_id a) (se_statement e) = Inr p \<and>
    mp_leaf p = se_statement e \<and> verifyProof K p (compute_receipt cfg a)"
proof -
  let ?ls = "map se_statement (ag_statements a)"
  have "distinct (map (\<lambda>(i, a). (i, ag_id a)) (Published s))"
    using chain_published(1) [OF chain laws] by simp
  then have found: "find (\<lambda>(j, b). j = i \<and> ag_id b = ag_id a) (Published s) = Some (i, a)"
    using find_distinct [of "\<lambda>(i, a). (i, ag_id a)" "Published s" "(i, a)"] a
    by (simp add: case_prod_unfold)
  have len: "length ?ls \<le> u32_max" using chain_published(2) [OF chain laws, of i a] a size by simp
  obtain j where j: "position (\<lambda>x. se_statement x = se_statement e) (ag_statements a) = Some j"
    "j < length ?ls" "?ls ! j = se_statement e"
    using position_Some [OF e, of "\<lambda>x. se_statement x = se_statement e"] by auto
  have "get_statement_path cfg s i (ag_id a) (se_statement e) = Inr (path_of K ?ls j)"
    using found j len paths [of j ?ls] by (simp add: get_statement_path_def)
  moreover have "mp_leaf (path_of K ?ls j) = se_statement e" using j(3) by (simp add: path_of_def)
  moreover have "verifyProof K (path_of K ?ls j) (compute_receipt cfg a)"
    using path_of_accepted [OF j(2)] len by (simp add: compute_receipt_def root u32_max_def)
  ultimately show ?thesis by blast
qed

lemma dispatch_published:
  assumes "agg_config_ok cfg" and "agg_inv cfg s"
  shows "set (Published s) \<subseteq> set (Published (fst (agg_dispatch cfg c s)))"
proof (cases "agg_call_body cfg c s")
  case (Pair s' r)
  show ?thesis
  proof (cases r)
    case (Inl e)
    then show ?thesis using Pair by (simp add: agg_dispatch_def transactional_def)
  next
    case (Inr u)
    then have run: "agg_call_body cfg c s = (s', Inr ())" using Pair by simp
    show ?thesis
      by (cases rule: agg_effect [OF assms run, case_names quiet added published])
        (use run in \<open>auto simp: agg_dispatch_def transactional_def ledger_view_def\<close>)
  qed
qed

lemma chain_published_fold:
  assumes "agg_config_ok cfg" and "agg_chain cfg h s"
  shows "set (Published s) \<subseteq> set (Published (run_calls cfg cs s))"
  using assms(2)
proof (induction cs arbitrary: s)
  case (Cons c cs)
  have "agg_inv cfg s"
    using agg_inv_recall agg_chain_inv [OF Cons.prems] assms(1) by (auto simp: agg_config_ok_def)
  from dispatch_published [OF assms(1) this, of c] Cons.IH [OF agg_chain.call [OF Cons.prems]]
  show ?case by auto
qed simp

text \<open>
  C38: what the chain publishes, the client can check. After a successful call of \<open>aggregate\<close>, and after
  any further calls of the same block, the runtime answers the request for the path of each statement
  of that aggregation with a path whose leaf is the statement, and the verification of the end-to-end
  tests (\<open>verifyProof\<close>) accepts the path for the receipt that the event \<open>NewAggregationReceipt\<close> carries. The
  hypotheses say that the tree of the chain and the one of the client use the same hash function.
\<close>

theorem published_paths_verify:
  assumes "agg_chain cfg h s" and "agg_config_ok cfg"
    and "\<And>ls. tree_root cfg ls = ''0x'' @ merkle_root K (map K ls)"
    and "\<And>ls j. j < length ls \<Longrightarrow> tree_proof cfg ls j = path_of K ls j"
    and "AggregationSize cfg \<le> u32_max"
    and "agg_dispatch cfg (Aggregate og i k) s = (s', Inr ())"
  shows "\<exists>d a receipt. Domains s i = Some d \<and> takes k d = Some a \<and>
    last (agg_events s') = NewAggregationReceipt i k receipt \<and>
    (\<forall>e\<in>set (ag_statements a). \<exists>p.
       get_statement_path cfg (run_calls cfg cs s') i k (se_statement e) = Inr p \<and>
       mp_leaf p = se_statement e \<and> verifyProof K p receipt)"
proof -
  have laws: "hold_laws (agg_holds cfg)" using assms(2) by (simp add: agg_config_ok_def)
  have inv: "agg_inv cfg s" using agg_inv_recall agg_chain_inv [OF assms(1) laws] by blast
  have run: "aggregate cfg og i k s = (s', Inr ())" using assms(6) by (simp add: agg_dispatch_def)
  then obtain d a where d: "Domains s i = Some d" and t: "takes k d = Some a"
    and pub: "(i, a) \<in> set (Published s')"
    and ev: "last (agg_events s') = NewAggregationReceipt i k (compute_receipt cfg a)"
    by (auto simp: aggregate_Inr [OF inv] paid_out_def)
  have k: "ag_id a = k" by (rule takes_SomeD(1) [OF agg_invD(3) [OF inv d] t])
  have chain: "agg_chain cfg h s'" using agg_chain.call [OF assms(1), of "Aggregate og i k"] assms(6) by simp
  let ?t = "run_calls cfg cs s'"
  have "(i, a) \<in> set (Published ?t)" using chain_published_fold [OF assms(2) chain] pub by blast
  then have "\<exists>p. get_statement_path cfg ?t i k (se_statement e) = Inr p \<and> mp_leaf p = se_statement e \<and>
      verifyProof K p (compute_receipt cfg a)" if "e \<in> set (ag_statements a)" for e
    using path_of_published [OF agg_chain_run [OF chain, of cs] laws assms(3,4,5) _ that] k by simp
  then show ?thesis using d t ev by blast
qed

theorem published_paths_verify_witness:
  "\<exists>p receipt.
     last (agg_events (run_calls sample_agg_config [Aggregate (Signed ''p'') 0 1] sample_full)) =
       NewAggregationReceipt 0 1 receipt \<and>
     get_statement_path sample_agg_config sample_agg 0 1 ''y'' = Inr p \<and> mp_leaf p = ''y'' \<and>
     verifyProof last64 p receipt"
proof -
  let ?c = "Aggregate (Signed ''p'') 0 1"
  let ?s = "fst (agg_dispatch sample_agg_config ?c sample_full)"
  have run: "agg_dispatch sample_agg_config ?c sample_full = (?s, Inr ())"
    by (simp add: sample_full_def agg_eval sample_defs)
  have later: "sample_agg = run_calls sample_agg_config [ProofVerified (Some ''a'') (Some 0) ''z''] ?s"
    by (simp add: sample_agg_def sample_full_def sample_agg_calls_def)
  obtain d a where "Domains sample_full 0 = Some d" "takes 1 d = Some a" "''y'' \<in> se_statement ` set (ag_statements a)"
    by (simp add: sample_full_def agg_eval sample_defs takes_def)
  moreover have "tree_root sample_agg_config ls = ''0x'' @ merkle_root last64 (map last64 ls)"
    "tree_proof sample_agg_config ls j = path_of last64 ls j" "AggregationSize sample_agg_config \<le> u32_max" for ls j
    by (simp_all add: sample_agg_config_def u32_max_def)
  ultimately show ?thesis
    using published_paths_verify [OF sample_chains(2) sample_agg_ok(1) _ _ _ run,
        of last64 "[ProofVerified (Some ''a'') (Some 0) ''z'']"] unfolding later by fastforce
qed

end
