(* ===== verification/ProofPipeline.thy ===== *)
theory ProofPipeline
  imports ProofVerifiersProps RuntimeConfig AggregateProps
begin

text \<open>
  The way of a proof through the chain: a verifier accepts it, its statement is reported to the pallet
  of the aggregations, and a published aggregation contains it. The theorems go the way back: what is
  published was proved, a statement says what was proved, and attestations were checked against the
  revocation lists of their time.
\<close>


section \<open>The states of the chain\<close>

text \<open>
  Calls that can be sent: not the callback of the verified proofs, and the hash that a submission names has
  the 32 bytes of its type.
\<close>

fun h256_named :: "('x, 'vk, 'proof, 'pubs) proof_verifier \<Rightarrow> ('vk, 'proof, 'pubs) vf_call \<Rightarrow> bool" where
  "h256_named V (SubmitProof og voh pf pubs i) = (length (named_hash V voh) = 32)"
| "h256_named V _ = True"

fun sendable :: "('l, 't, 'v) runtime_config \<Rightarrow> runtime_call \<Rightarrow> bool" where
  "sendable rc (TeeCall c) = h256_named (vf_verifier (tee_pallet rc)) c"
| "sendable rc (EzklCall c) = h256_named (vf_verifier (ezkl_pallet rc)) c"
| "sendable rc (FflonkCall c) = h256_named (vf_verifier (fflonk_pallet rc)) c"
| "sendable rc (Groth16Call c) = h256_named (vf_verifier (groth16_pallet rc)) c"
| "sendable rc (Sp1Call c) = h256_named (vf_verifier (sp1_pallet rc)) c"
| "sendable rc (Risc0Call c) = h256_named (vf_verifier (risc0_pallet rc)) c"
| "sendable rc (UltrahonkCall c) = h256_named (vf_verifier (ultrahonk_pallet rc)) c"
| "sendable rc (UltraplonkCall c) = h256_named (vf_verifier (ultraplonk_pallet rc)) c"
| "sendable rc (Plonky2Call c) = h256_named (vf_verifier (plonky2_pallet rc)) c"
| "sendable rc (AggregateCall c) = (case c of ProofVerified a i st \<Rightarrow> False | _ \<Rightarrow> True)"
| "sendable rc (CrlCall c) = True"

text \<open>Other pallets change the ledger, but not what the aggregations have on hold.\<close>

inductive rt_chain ::
  "('l, 't, 'v) runtime_config \<Rightarrow> (nat \<times> aggregation) list \<Rightarrow> ('l, 't) runtime \<Rightarrow> bool" for rc
where
  start: "rt_chain rc [] (runtime_start l t)"
| call: "rt_chain rc h s \<Longrightarrow> sendable rc c \<Longrightarrow> rt_chain rc h (fst (runtime_dispatch rc c s))"
| block: "rt_chain rc h s \<Longrightarrow> rt_chain rc (h @ Published (hub_agg (rt_hub s))) (new_block t s)"
| others: "rt_chain rc h s \<Longrightarrow>
    ho_on_hold (agg_holds (rt_agg rc)) l = ho_on_hold (agg_holds (rt_agg rc)) (agg_ledger (hub_agg (rt_hub s))) \<Longrightarrow>
    rt_chain rc h (s\<lparr>rt_hub := set_ledger l (rt_hub s)\<rparr>)"

definition runtime_ok :: "('l, 't, 'v) runtime_config \<Rightarrow> bool" where
  "runtime_ok rc \<longleftrightarrow> agg_config_ok (rt_agg rc) \<and> tickets_apart (agg_holds (rt_agg rc)) (rt_deposits rc)"

lemma runtime_okD:
  assumes "runtime_ok rc"
  shows "agg_config_ok (rt_agg rc)" "tickets_apart (agg_holds (rt_agg rc)) (rt_deposits rc)"
    "hold_laws (agg_holds (rt_agg rc))"
  using assms by (simp_all add: runtime_ok_def agg_config_ok_def)


section \<open>A call of one instance\<close>

lemma instance_of_simps [simp]:
  "vf_verifier (instance_of rc V W z) = V" "vf_keccak (instance_of rc V W z) = rt_keccak rc"
  "vf_ticket (instance_of rc V W z) = hub_tickets (rt_deposits rc)" "vf_weights (instance_of rc V W z) = W"
  "vf_callback (instance_of rc V W z) = aggregate_callback (rt_agg rc) (rt_callback_weight rc)"
  by (simp_all add: instance_of_def)

definition verified_of :: "('t, 'vk) vf_storage \<Rightarrow> h256 list" where
  "verified_of p = List.map_filter (\<lambda>e. case e of ProofWasVerified st \<Rightarrow> Some st | _ \<Rightarrow> None) (vf_events p)"

lemma verified_of_simps [simp]:
  "verified_of (p\<lparr>vf_events := vf_events p @ [ProofWasVerified st]\<rparr>) = verified_of p @ [st]"
  "verified_of (p\<lparr>Tickets := T, Vks := v, vf_events := vf_events p @ [VkRegistered h]\<rparr>) = verified_of p"
  "verified_of (p\<lparr>Tickets := T, Vks := v, vf_events := vf_events p @ (if b then [VkUnregistered h] else [])\<rparr>) = verified_of p"
  "verified_of (p\<lparr>Disabled := d\<rparr>) = verified_of p" "verified_of vf_start = []"
  by (simp_all add: verified_of_def map_filter_def vf_start_def)

text \<open>The callback is the step of the other pallet: it panics or succeeds.\<close>

lemma callback_step:
  assumes "cb_on_proof_verified (aggregate_callback cfg w) a i st x = (x', None)"
    and laws: "hold_laws (agg_holds cfg)" and inv: "agg_inv cfg (hub_agg x)"
  shows "x' = x\<lparr>hub_agg := fst (agg_dispatch cfg (ProofVerified a i st) (hub_agg x))\<rparr>"
proof -
  obtain s r where run: "on_proof_verified cfg a i st (hub_agg x) = (s, r)" by force
  have "(\<exists>msg. r = Inl (PanicErr msg)) \<or> r = Inr ()"
  proof (cases "\<exists>b j d. a = Some b \<and> i = Some j \<and> Domains (hub_agg x) j = Some d")
    case False
    then show ?thesis using run by (auto simp: on_proof_verified_def agg_deposit_def split: option.splits)
  next
    case True
    then obtain b j d where a: "a = Some b" "i = Some j" and d: "Domains (hub_agg x) j = Some d" by blast
    note D = agg_invD [OF inv d]
    have ok: "domain_ok cfg (SubmittersAllowlist (hub_agg x) (dom_id d)) d" using D(2,3) by simp
    show ?thesis
      by (cases rule: proof_for_domain_cases [OF laws ok, of b j st, case_names panics refused added])
        (use run a d in \<open>auto simp: on_proof_verified_def try_mutate_def\<close>)
  qed
  then show ?thesis
    using assms(1) run by (auto simp: aggregate_callback_def agg_dispatch_def transactional_def)
qed

lemma hub_tickets_Inr:
  "co_new (hub_tickets c) x a n b = Inr (t, x') \<Longrightarrow>
     \<exists>l. co_new c (agg_ledger (hub_agg x)) a n b = Inr (t, l) \<and> x' = set_ledger l x"
  "co_drop (hub_tickets c) x t a = Inr x' \<Longrightarrow>
     \<exists>l. co_drop c (agg_ledger (hub_agg x)) t a = Inr l \<and> x' = set_ledger l x"
  by (auto simp: hub_tickets_def split: sum.splits)

text \<open>Either a proof was verified and reported, or at most the ledger changed, for a deposit.\<close>

lemma instance_step:
  fixes p :: "('t, 'vk) vf_storage" and x :: "('l, 't) hub"
  assumes ok: "runtime_ok rc" and agg: "agg_inv (rt_agg rc) (hub_agg x)" and inv: "vf_inv V p"
    and run: "vf_dispatch (instance_of rc V W z) c (p, x) = ((p', x'), r)"
  obtains (quiet) l where "x' = set_ledger l x" "verified_of p' = verified_of p"
      "ho_on_hold (agg_holds (rt_agg rc)) l = ho_on_hold (agg_holds (rt_agg rc)) (agg_ledger (hub_agg x))"
  | (verified) og voh pf pubs i vk w where "c = SubmitProof og voh pf pubs i"
      "verify_proof V x vk pf pubs = Accepted w" "vk_hash V vk = named_hash V voh"
      "\<exists>x0. validate_vk V x0 vk = Accepted ()"
      "verified_of p' = verified_of p @ [compute_statement_hash (instance_of rc V W z) voh pf pubs]"
      "x' = x\<lparr>hub_agg := fst (agg_dispatch (rt_agg rc)
        (ProofVerified (signer og) i (compute_statement_hash (instance_of rc V W z) voh pf pubs)) (hub_agg x))\<rparr>"
proof (cases r)
  case (Inl e)
  then have "p' = p" "x' = x" using run by (auto simp: vf_dispatch_def transactional_eq_Inl)
  then show thesis using quiet [of "agg_ledger (hub_agg x)"] by (simp add: set_ledger_def)
next
  case (Inr u)
  let ?cfg = "instance_of rc V W z"
  have body: "vf_call_body ?cfg c (p, x) = ((p', x'), Inr ())" using run Inr by (simp add: vf_dispatch_def)
  note apart = runtime_okD(2) [OF ok]
  show thesis
  proof (cases c)
    case (SubmitProof og voh pf pubs i)
    then obtain w where "submit_proof ?cfg og voh pf pubs i (p, x) = ((p', x'), Inr w)"
      using body by (auto simp: act_bind_eq_Inr)
    then obtain vk account ow where og: "ensure_signed_or_root og (p, x) = ((p, x), Inr account)"
      and vk: "case voh of Hash h \<Rightarrow> map_option ve_vk (Vks p h) = Some vk
         | Vk k \<Rightarrow> k = vk \<and> validate_vk V x k = Accepted ()"
      and acc: "verify_proof V x vk pf pubs = Accepted ow"
      and p': "p' = p\<lparr>vf_events := vf_events p @ [ProofWasVerified (compute_statement_hash ?cfg voh pf pubs)]\<rparr>"
      and cb: "cb_on_proof_verified (aggregate_callback (rt_agg rc) (rt_callback_weight rc)) account i
          (compute_statement_hash ?cfg voh pf pubs) x = (x', None)"
      by (rule submit_proof_Inr, unfold instance_of_simps) (rule that)
    have "account = signer og" using og by (cases og) (simp_all add: ensure_signed_or_root_def)
    moreover have "vk_hash V vk = named_hash V voh \<and> (\<exists>x0. validate_vk V x0 vk = Accepted ())"
    proof (cases voh)
      case (Hash h)
      then obtain e where "Vks p h = Some e" "vk = ve_vk e" using vk by auto
      then show ?thesis using vf_inv_slot [OF inv, of h] Hash by (simp add: vk_slot_ok_def named_hash_def)
    qed (use vk in \<open>auto simp: named_hash_def\<close>)
    ultimately show thesis
      using verified [OF SubmitProof acc] callback_step [OF cb runtime_okD(3) [OF ok] agg] p' by simp
  next
    case (RegisterVk og vk)
    then have "register_vk ?cfg og vk (p, x) = ((p', x'), Inr ())" using body by simp
    then show thesis
      by (rule register_vk_Inr)
        (use apart quiet in \<open>fastforce dest!: hub_tickets_Inr simp: tickets_apart_def\<close>)
  next
    case (Disable og b)
    then have "p' = p\<lparr>Disabled := Some b\<rparr>" "x' = x"
      using body by (auto simp: disable_def ensure_root_def then_ensure split: if_splits)
    then show thesis using quiet [of "agg_ledger (hub_agg x)"] by (simp add: set_ledger_def)
  next
    case (UnregisterVk og h)
    then have "unregister_vk ?cfg og h (p, x) = ((p', x'), Inr ())" using body by simp
    then show thesis
      by (rule unregister_vk_Inr)
        (use apart quiet in \<open>fastforce dest!: hub_tickets_Inr simp: tickets_apart_def\<close>)
  qed
qed


section \<open>What was proved\<close>

text \<open>
  What a statement says: the name of a verifier, the hash of a key, the hash of a version and the bytes of the
  public inputs. It is proved in a state of the chain when the verifier accepts a proof of it there, with a key
  that it has found valid, then or before.
\<close>

type_synonym proof_claim = "string \<times> h256 \<times> h256 \<times> string"

fun claim_data :: "(string \<Rightarrow> h256) \<Rightarrow> proof_claim \<Rightarrow> string" where
  "claim_data keccak (ctx, key, version, inputs) = keccak ctx @ key @ version @ keccak inputs"

definition proves :: "('x, 'vk, 'proof, 'pubs) proof_verifier \<Rightarrow> 'x \<Rightarrow> proof_claim \<Rightarrow> bool" where
  "proves V x cl \<longleftrightarrow>
     (\<exists>vk pf pubs w. verify_proof V x vk pf pubs = Accepted w \<and> (\<exists>x0. validate_vk V x0 vk = Accepted ()) \<and>
        cl = (hash_context_data V, vk_hash V vk, verifier_version_hash V pf, pubs_bytes V pubs))"

definition proved :: "('l, 't, 'v) runtime_config \<Rightarrow> ('l, 't) hub \<Rightarrow> proof_claim \<Rightarrow> bool" where
  "proved rc x cl \<longleftrightarrow>
     proves (tee_verifier (tee_of rc)) x cl \<or>
     proves (ezkl_verifier (ezkl_of rc)) x cl \<or>
     proves (fflonk_verifier (fflonk_of rc)) x cl \<or>
     proves (groth16_verifier (groth16_of rc)) x cl \<or>
     proves (sp1_verifier (sp1_of rc)) x cl \<or>
     proves (risc0_verifier (risc0_of rc)) x cl \<or>
     proves (ultrahonk_verifier (ultrahonk_of rc)) x cl \<or>
     proves (ultraplonk_verifier (ultraplonk_of rc)) x cl \<or>
     proves (plonky2_verifier (plonky2_of rc)) x cl"

fun sized_claim :: "proof_claim \<Rightarrow> bool" where
  "sized_claim (ctx, key, version, inputs) \<longleftrightarrow> length key = 32 \<and> length version = 32"

definition verified :: "('l, 't) runtime \<Rightarrow> h256 multiset" where
  "verified s =
     mset (verified_of (rt_tee s)) +
     mset (verified_of (rt_ezkl s)) +
     mset (verified_of (rt_fflonk s)) +
     mset (verified_of (rt_groth16 s)) +
     mset (verified_of (rt_sp1 s)) +
     mset (verified_of (rt_risc0 s)) +
     mset (verified_of (rt_ultrahonk s)) +
     mset (verified_of (rt_ultraplonk s)) +
     mset (verified_of (rt_plonky2 s))"

definition instances_ok :: "('l, 't, 'v) runtime_config \<Rightarrow> ('l, 't) runtime \<Rightarrow> bool" where
  "instances_ok rc s \<longleftrightarrow>
     vf_inv (vf_verifier (tee_pallet rc)) (rt_tee s) \<and>
     vf_inv (vf_verifier (ezkl_pallet rc)) (rt_ezkl s) \<and>
     vf_inv (vf_verifier (fflonk_pallet rc)) (rt_fflonk s) \<and>
     vf_inv (vf_verifier (groth16_pallet rc)) (rt_groth16 s) \<and>
     vf_inv (vf_verifier (sp1_pallet rc)) (rt_sp1 s) \<and>
     vf_inv (vf_verifier (risc0_pallet rc)) (rt_risc0 s) \<and>
     vf_inv (vf_verifier (ultrahonk_pallet rc)) (rt_ultrahonk s) \<and>
     vf_inv (vf_verifier (ultraplonk_pallet rc)) (rt_ultraplonk s) \<and>
     vf_inv (vf_verifier (plonky2_pallet rc)) (rt_plonky2 s)"

lemmas pallet_defs = tee_pallet_def ezkl_pallet_def fflonk_pallet_def groth16_pallet_def sp1_pallet_def risc0_pallet_def ultrahonk_pallet_def ultraplonk_pallet_def plonky2_pallet_def

lemma length_version:
  "length (r0_version_hash pf) = 32" "length (uh_version_hash pf') = 32" "length (default_version_hash pf'') = 32"
  by (cases pf; cases pf'; simp add: default_version_hash_def NO_VERSION_HASH_def)+

lemma compute_statement_claim:
  "compute_statement_hash (instance_of rc V W z) voh pf pubs = rt_keccak rc (claim_data (rt_keccak rc)
     (hash_context_data V, named_hash V voh, verifier_version_hash V pf, pubs_bytes V pubs))"
  by (simp add: compute_statement_hash_def named_hash_def Let_def)

text \<open>The effect of a call of an instance on the runtime.\<close>

lemma on_instance_step:
  fixes V :: "(('l, 't) hub, 'vk, 'proof, 'pubs) proof_verifier" and s :: "('l, 't) runtime"
  assumes ok: "runtime_ok rc" and agg: "agg_inv (rt_agg rc) (hub_agg (rt_hub s))" and inv: "vf_inv V (get s)"
    and named: "h256_named V c" and sized: "\<And>pf. length (verifier_version_hash V pf) = 32"
  obtains (quiet) p l where "fst (on_instance (instance_of rc V W z) c get put s) = put p (s\<lparr>rt_hub := set_ledger l (rt_hub s)\<rparr>)"
      "vf_inv V p" "verified_of p = verified_of (get s)"
      "ho_on_hold (agg_holds (rt_agg rc)) l = ho_on_hold (agg_holds (rt_agg rc)) (agg_ledger (hub_agg (rt_hub s)))"
  | (added) p a i cl where "fst (on_instance (instance_of rc V W z) c get put s) = put p (s\<lparr>rt_hub := (rt_hub s)\<lparr>hub_agg :=
        fst (agg_dispatch (rt_agg rc) (ProofVerified a i (rt_keccak rc (claim_data (rt_keccak rc) cl))) (hub_agg (rt_hub s)))\<rparr>\<rparr>)"
      "vf_inv V p" "verified_of p = verified_of (get s) @ [rt_keccak rc (claim_data (rt_keccak rc) cl)]"
      "proves V (rt_hub s) cl" "sized_claim cl"
proof -
  let ?cfg = "instance_of rc V W z"
  obtain p x r where run: "vf_dispatch ?cfg c (get s, rt_hub s) = ((p, x), r)" by (metis prod.exhaust)
  then have s': "fst (on_instance ?cfg c get put s) = put p (s\<lparr>rt_hub := x\<rparr>)" by (simp add: on_instance_def)
  have p: "vf_inv V p"
    using registry.dispatch_inv [of ?cfg "(get s, rt_hub s)" c] inv run by simp
  show thesis
  proof (cases rule: instance_step [OF ok agg inv run, case_names quiet verified])
    case (quiet l)
    then show thesis using that(1) [of p l] s' p by simp
  next
    case (verified og voh pf pubs i vk w)
    let ?cl = "(hash_context_data V, vk_hash V vk, verifier_version_hash V pf, pubs_bytes V pubs)"
    have "proves V (rt_hub s) ?cl" using verified(2,4) by (auto simp: proves_def)
    moreover have "sized_claim ?cl" using named verified(1,3) sized by simp
    ultimately show thesis
      using that(2) [of p "signer og" i ?cl] s' p verified(3,5,6) by (simp add: compute_statement_claim)
  qed
qed

text \<open>
  The effects of a call on the runtime: at most the ledger changes, or a verified proof is reported, or one of
  the other two pallets is called.
\<close>

inductive runtime_effect :: "('l, 't, 'v) runtime_config \<Rightarrow> ('l, 't) runtime \<Rightarrow> ('l, 't) runtime \<Rightarrow> bool" for rc s where
  quiet: "rt_hub s' = set_ledger l (rt_hub s) \<Longrightarrow>
    ho_on_hold (agg_holds (rt_agg rc)) l = ho_on_hold (agg_holds (rt_agg rc)) (agg_ledger (hub_agg (rt_hub s))) \<Longrightarrow>
    verified s' = verified s \<Longrightarrow> instances_ok rc s' \<Longrightarrow> runtime_effect rc s s'"
| added: "rt_hub s' = (rt_hub s)\<lparr>hub_agg := fst (agg_dispatch (rt_agg rc)
      (ProofVerified a i (rt_keccak rc (claim_data (rt_keccak rc) cl))) (hub_agg (rt_hub s)))\<rparr> \<Longrightarrow>
    verified s' = add_mset (rt_keccak rc (claim_data (rt_keccak rc) cl)) (verified s) \<Longrightarrow>
    proved rc (rt_hub s) cl \<Longrightarrow> sized_claim cl \<Longrightarrow> instances_ok rc s' \<Longrightarrow> runtime_effect rc s s'"
| aggregate: "rt_hub s' = (rt_hub s)\<lparr>hub_agg := fst (agg_dispatch (rt_agg rc) c (hub_agg (rt_hub s)))\<rparr> \<Longrightarrow>
    (\<And>a i st. c \<noteq> ProofVerified a i st) \<Longrightarrow> verified s' = verified s \<Longrightarrow> instances_ok rc s' \<Longrightarrow> runtime_effect rc s s'"
| crl: "rt_hub s' = (rt_hub s)\<lparr>hub_crl := fst (crl_dispatch (crl_of rc) tc (hub_crl (rt_hub s)))\<rparr> \<Longrightarrow>
    verified s' = verified s \<Longrightarrow> instances_ok rc s' \<Longrightarrow> runtime_effect rc s s'"

lemma instance_effect:
  fixes V :: "(('l, 't) hub, 'vk, 'proof, 'pubs) proof_verifier" and s :: "('l, 't) runtime"
  assumes ok: "runtime_ok rc" and agg: "agg_inv (rt_agg rc) (hub_agg (rt_hub s))" and inv: "vf_inv V (get s)"
    and named: "h256_named V c" and sized: "\<And>pf. length (verifier_version_hash V pf) = 32"
    and hub: "\<And>p x. rt_hub (put p (s\<lparr>rt_hub := x\<rparr>)) = x"
    and log: "\<And>p x. verified (put p (s\<lparr>rt_hub := x\<rparr>)) + mset (verified_of (get s)) = verified s + mset (verified_of p)"
    and inst: "\<And>p x. vf_inv V p \<Longrightarrow> instances_ok rc (put p (s\<lparr>rt_hub := x\<rparr>))"
    and one: "\<And>x cl. proves V x cl \<Longrightarrow> proved rc x cl"
  shows "runtime_effect rc s (fst (on_instance (instance_of rc V W z) c get put s))"
proof (cases rule: on_instance_step [where get = get and put = put and W = W and z = z,
      OF ok agg inv named sized, case_names quiet added])
  case (quiet p l)
  show ?thesis
    unfolding quiet(1) using log [of p] quiet(3,4) inst [OF quiet(2)]
    by (intro runtime_effect.quiet [OF hub]) simp_all
next
  case (added p a i cl)
  show ?thesis
    unfolding added(1) using log [of p] added(3) one [OF added(4)] added(5) inst [OF added(2)]
    by (intro runtime_effect.added [OF hub]) simp_all
qed

lemma runtime_step:
  assumes ok: "runtime_ok rc" and agg: "agg_inv (rt_agg rc) (hub_agg (rt_hub s))" and inst: "instances_ok rc s"
    and sent: "sendable rc c"
  shows "runtime_effect rc s (fst (runtime_dispatch rc c s))"
proof (cases c)
  case (TeeCall k)
  show ?thesis
    unfolding TeeCall runtime_dispatch.simps tee_pallet_def
    by (rule instance_effect [OF ok agg])
      (use inst sent TeeCall in \<open>simp_all add: instances_ok_def tee_pallet_def verified_def proved_def tee_verifier_def length_version\<close>)
next
  case (EzklCall k)
  show ?thesis
    unfolding EzklCall runtime_dispatch.simps ezkl_pallet_def
    by (rule instance_effect [OF ok agg])
      (use inst sent EzklCall in \<open>simp_all add: instances_ok_def ezkl_pallet_def verified_def proved_def ezkl_verifier_def length_version\<close>)
next
  case (FflonkCall k)
  show ?thesis
    unfolding FflonkCall runtime_dispatch.simps fflonk_pallet_def
    by (rule instance_effect [OF ok agg])
      (use inst sent FflonkCall in \<open>simp_all add: instances_ok_def fflonk_pallet_def verified_def proved_def fflonk_verifier_def length_version\<close>)
next
  case (Groth16Call k)
  show ?thesis
    unfolding Groth16Call runtime_dispatch.simps groth16_pallet_def
    by (rule instance_effect [OF ok agg])
      (use inst sent Groth16Call in \<open>simp_all add: instances_ok_def groth16_pallet_def verified_def proved_def groth16_verifier_def length_version\<close>)
next
  case (Sp1Call k)
  show ?thesis
    unfolding Sp1Call runtime_dispatch.simps sp1_pallet_def
    by (rule instance_effect [OF ok agg])
      (use inst sent Sp1Call in \<open>simp_all add: instances_ok_def sp1_pallet_def verified_def proved_def sp1_verifier_def length_version\<close>)
next
  case (Risc0Call k)
  show ?thesis
    unfolding Risc0Call runtime_dispatch.simps risc0_pallet_def
    by (rule instance_effect [OF ok agg])
      (use inst sent Risc0Call in \<open>simp_all add: instances_ok_def risc0_pallet_def verified_def proved_def risc0_verifier_def length_version\<close>)
next
  case (UltrahonkCall k)
  show ?thesis
    unfolding UltrahonkCall runtime_dispatch.simps ultrahonk_pallet_def
    by (rule instance_effect [OF ok agg])
      (use inst sent UltrahonkCall in \<open>simp_all add: instances_ok_def ultrahonk_pallet_def verified_def proved_def ultrahonk_verifier_def length_version\<close>)
next
  case (UltraplonkCall k)
  show ?thesis
    unfolding UltraplonkCall runtime_dispatch.simps ultraplonk_pallet_def
    by (rule instance_effect [OF ok agg])
      (use inst sent UltraplonkCall in \<open>simp_all add: instances_ok_def ultraplonk_pallet_def verified_def proved_def ultraplonk_verifier_def length_version\<close>)
next
  case (Plonky2Call k)
  show ?thesis
    unfolding Plonky2Call runtime_dispatch.simps plonky2_pallet_def
    by (rule instance_effect [OF ok agg])
      (use inst sent Plonky2Call in \<open>simp_all add: instances_ok_def plonky2_pallet_def verified_def proved_def plonky2_verifier_def length_version\<close>)
next
  case (AggregateCall c')
  then have "\<And>a i st. c' \<noteq> ProofVerified a i st" using sent by auto
  then show ?thesis
    using AggregateCall inst
    by (auto intro!: runtime_effect.aggregate [where c = c'] simp: verified_def instances_ok_def split: prod.splits)
next
  case (CrlCall c')
  then show ?thesis
    using inst
    by (auto intro!: runtime_effect.crl [where tc = "(hub_time (rt_hub s), c')"] simp: verified_def instances_ok_def
        split: prod.splits)
qed


section \<open>The chain as a whole\<close>

text \<open>Where a verified statement comes from: a state that the chain went through, where it was proved.\<close>

definition originates :: "('l, 't, 'v) runtime_config \<Rightarrow> h256 \<Rightarrow> bool" where
  "originates rc st \<longleftrightarrow>
     (\<exists>h s cl. rt_chain rc h s \<and> proved rc (rt_hub s) cl \<and> sized_claim cl \<and> st = rt_keccak rc (claim_data (rt_keccak rc) cl))"

lemma accepted_step:
  assumes ok: "agg_config_ok cfg" and inv: "agg_inv cfg s"
  shows "mset (map snd (accepted (fst (agg_dispatch cfg c s)))) \<subseteq>#
    mset (map snd (accepted s)) + (case c of ProofVerified a i st \<Rightarrow> {#st#} | _ \<Rightarrow> {#})"
proof (cases "agg_call_body cfg c s")
  case (Pair s' r)
  show ?thesis
  proof (cases r)
    case (Inl e)
    then show ?thesis using Pair by (simp add: agg_dispatch_def transactional_def)
  next
    case (Inr u)
    then have run: "agg_call_body cfg c s = (s', Inr ())" and s': "fst (agg_dispatch cfg c s) = s'"
      using Pair by (simp_all add: agg_dispatch_def transactional_def)
    show ?thesis
      unfolding s' by (cases rule: agg_effect [OF ok inv run, case_names quiet added published])
        (auto simp: ledger_view_def)
  qed
qed

lemma accepted_quiet:
  assumes "agg_config_ok cfg" and "agg_inv cfg s" and "\<And>a i st. c \<noteq> ProofVerified a i st"
  shows "mset (map snd (accepted (fst (agg_dispatch cfg c s)))) \<subseteq># mset (map snd (accepted s))"
  using accepted_step [OF assms(1,2), of c] assms(3) by (cases c) auto

lemma hub_simps [simp]:
  "hub_agg (set_ledger l x) = (hub_agg x)\<lparr>agg_ledger := l\<rparr>" "hub_crl (set_ledger l x) = hub_crl x"
  "rt_hub (new_block t s) = (rt_hub s)\<lparr>hub_agg := agg_on_initialize (hub_agg (rt_hub s)), hub_time := t\<rparr>"
  "verified (new_block t s) = verified s" "instances_ok rc (new_block t s) = instances_ok rc s"
  "verified (s\<lparr>rt_hub := x\<rparr>) = verified s" "instances_ok rc (s\<lparr>rt_hub := x\<rparr>) = instances_ok rc s"
  by (simp_all add: set_ledger_def new_block_def verified_def instances_ok_def)

definition rt_inv ::
  "('l, 't, 'v) runtime_config \<Rightarrow> (nat \<times> aggregation) list \<Rightarrow> ('l, 't) runtime \<Rightarrow> bool"
where
  "rt_inv rc h s \<longleftrightarrow> agg_chain (rt_agg rc) h (hub_agg (rt_hub s)) \<and> crl_chain (crl_of rc) (hub_crl (rt_hub s)) \<and>
     instances_ok rc s \<and> mset (map snd (accepted (hub_agg (rt_hub s)))) \<subseteq># verified s \<and>
     (\<forall>st \<in># verified s. originates rc st)"

lemma rt_inv_agg:
  assumes "rt_inv rc h s" and "runtime_ok rc"
  shows "agg_inv (rt_agg rc) (hub_agg (rt_hub s))"
  using agg_inv_recall agg_chain_inv assms runtime_okD(3) unfolding rt_inv_def by blast

lemma rt_inv_step:
  assumes chain: "rt_chain rc h s" and inv: "rt_inv rc h s" and ok: "runtime_ok rc" and eff: "runtime_effect rc s s'"
  shows "rt_inv rc h s'"
  using eff
proof cases
  case (quiet l)
  then show ?thesis
    using inv agg_chain.others [of "rt_agg rc" h "hub_agg (rt_hub s)" l] by (simp add: rt_inv_def)
next
  case (added a i cl)
  let ?st = "rt_keccak rc (claim_data (rt_keccak rc) cl)"
  have "originates rc ?st" using chain added(3,4) unfolding originates_def by blast
  moreover have "mset (map snd (accepted (hub_agg (rt_hub s')))) \<subseteq># add_mset ?st (verified s)"
    using accepted_step [OF runtime_okD(1) [OF ok] rt_inv_agg [OF inv ok], of "ProofVerified a i ?st"] inv added(1)
    by (simp add: rt_inv_def) (meson mset_subset_eq_add_mset_cancel subset_mset.order_trans)
  ultimately show ?thesis
    using inv added(1,2,5) agg_chain.call [of "rt_agg rc" h "hub_agg (rt_hub s)"] by (simp add: rt_inv_def)
next
  case (aggregate c)
  then show ?thesis
    using inv accepted_quiet [OF runtime_okD(1) [OF ok] rt_inv_agg [OF inv ok], of c]
      agg_chain.call [of "rt_agg rc" h "hub_agg (rt_hub s)"]
    by (auto simp: rt_inv_def intro: subset_mset.order_trans)
next
  case (crl tc)
  then show ?thesis using inv crl_chain.call [of "crl_of rc" "hub_crl (rt_hub s)"] by (simp add: rt_inv_def)
qed

lemma rt_chain_inv:
  assumes "rt_chain rc h s" and ok: "runtime_ok rc"
  shows "rt_inv rc h s"
  using assms(1)
proof induction
  case (start l t)
  have "hub_agg (rt_hub (runtime_start l t)) = agg_start l" by (simp add: runtime_start_def agg_start_def)
  then show ?case
    using agg_chain.start [of "rt_agg rc" l] crl_chain.start
    by (simp add: rt_inv_def) (simp add: runtime_start_def instances_ok_def verified_def accepted_def agg_start_def map_filter_def)
next
  case (call h s c)
  then show ?case using rt_inv_step runtime_step ok rt_inv_agg unfolding rt_inv_def by blast
next
  case (block h s t)
  then show ?case
    using agg_chain.block [of "rt_agg rc" h "hub_agg (rt_hub s)"]
    by (simp add: rt_inv_def agg_on_initialize_def)
next
  case (others h s l)
  then show ?case
    using agg_chain.others [of "rt_agg rc" h "hub_agg (rt_hub s)" l] by (simp add: rt_inv_def)
qed

end
