(* ===== verification/PipelineProps.thy ===== *)
theory PipelineProps
  imports ProofPipeline AggregateSample
begin

text \<open>
  What somebody who relies on a published aggregation can conclude, from the statement back to the proof, and
  what the verifiers guarantee for the runtime: where it can panic, and that refunds are covered.
\<close>


section \<open>From a published statement to a proof\<close>





text \<open>The nine verifiers have nine different names.\<close>

lemma contexts [simp]:
  "hash_context_data (tee_verifier c1) = ''tee''" "hash_context_data (ezkl_verifier c2) = ''ezkl''"
  "hash_context_data (fflonk_verifier c3) = ''fflonk''" "hash_context_data (groth16_verifier c4) = ''groth16''"
  "hash_context_data (sp1_verifier c5) = ''sp1''" "hash_context_data (risc0_verifier c6) = ''risc0''"
  "hash_context_data (ultrahonk_verifier c7) = ''ultrahonk''" "hash_context_data (ultraplonk_verifier c8) = ''ultraplonk''"
  "hash_context_data (plonky2_verifier c9) = ''plonky2''"
  by (simp_all add: tee_verifier_def ezkl_verifier_def fflonk_verifier_def groth16_verifier_def sp1_verifier_def
      risc0_verifier_def ultrahonk_verifier_def ultraplonk_verifier_def plonky2_verifier_def)









section \<open>Attestations\<close>





section \<open>Panics of the runtime\<close>

definition never_aborts :: "('x, 'vk, 'proof, 'pubs) proof_verifier \<Rightarrow> bool" where
  "never_aborts V \<longleftrightarrow> (\<forall>x vk pf pubs msg. validate_vk V x vk \<noteq> Aborted msg \<and> verify_proof V x vk pf pubs \<noteq> Aborted msg)"

lemma verifiers_never_abort:
  "never_aborts (tee_verifier c1)" "never_aborts (ezkl_verifier c2)" "never_aborts (groth16_verifier c4)"
  "never_aborts (sp1_verifier c5)" "never_aborts (risc0_verifier c6)" "never_aborts (ultrahonk_verifier c7)"
  "never_aborts (ultraplonk_verifier c8)" "bn_total (ff_bn c3) \<Longrightarrow> never_aborts (fflonk_verifier c3)"
  by (simp_all add: never_aborts_def tee_verifier_def ezkl_verifier_def fflonk_verifier_def groth16_verifier_def
      sp1_verifier_def risc0_verifier_def ultrahonk_verifier_def ultraplonk_verifier_def default_validate_vk_def
      tee_no_abort ezkl_no_abort g16_no_abort sp1_no_abort r0_no_abort uh_no_abort up_no_abort ff_no_abort verdict_simps)

text \<open>A domain that makes the callback panic: the manager owns it and only its owner may submit proofs.\<close>

definition ownerless_target :: "('l, 't) agg_storage \<Rightarrow> account option \<Rightarrow> nat option \<Rightarrow> bool" where
  "ownerless_target s account domain_id \<longleftrightarrow>
     (\<exists>a i d. account = Some a \<and> domain_id = Some i \<and> Domains s i = Some d \<and> dom_state d = Ready \<and>
        can_add_statement d \<and> dom_proof_rules d = ProofOnlyOwner \<and> dom_owner d = Manager)"

lemma instance_panic:
  assumes ok: "runtime_ok rc" and agg: "agg_inv (rt_agg rc) (hub_agg x)" and inv: "vf_inv V p"
    and "snd (vf_dispatch (instance_of rc V W z) c (p, x)) = Inl (PanicErr msg)"
  shows "(\<exists>vk. validate_vk V x vk = Aborted msg) \<or>
    (\<exists>og voh pf pubs i vk. c = SubmitProof og voh pf pubs i \<and> usable_vk V p x voh = Some vk \<and>
       (verify_proof V x vk pf pubs = Aborted msg \<or> ownerless_target (hub_agg x) (signer og) i))"
proof -
  let ?cfg = "instance_of rc V W z"
  have cb: "ownerless_target (hub_agg x) a i"
    if "snd (cb_on_proof_verified (aggregate_callback (rt_agg rc) w) a i st x) = Some msg" for a i st w
  proof -
    have "\<exists>m. snd (on_proof_verified (rt_agg rc) a i st (hub_agg x)) = Inl (PanicErr m)"
      using that by (auto simp: aggregate_callback_def split: prod.splits sum.splits dispatch_error.splits)
    then show ?thesis
      using verified_panics_iff [OF runtime_okD(3) [OF ok] agg, of a i st] by (simp add: ownerless_target_def)
  qed
  have body: "snd (vf_call_body ?cfg c (p, x)) = Inl (PanicErr msg)" using assms(4) by (simp add: vf_dispatch_def)
  show ?thesis
  proof (cases c)
    case (SubmitProof og voh pf pubs i)
    then have "snd (submit_proof ?cfg og voh pf pubs i (p, x)) = Inl (PanicErr msg)"
      using body by (auto simp: bind_Inl)
    from submit_panic [OF this] show ?thesis using SubmitProof cb by auto
  next
    case (RegisterVk og vk)
    then show ?thesis using body register_panic [of ?cfg og vk p x msg] by auto
  next
    case (Disable og b)
    then show ?thesis using body by (simp add: disable_def ensure_root_def then_ensure split: if_splits)
  next
    case (UnregisterVk og h)
    then show ?thesis using body unregister_panic_free [OF inv, of ?cfg og h x msg] by simp
  qed
qed

lemma crl_panic_free: "snd (crl_dispatch cfg tc s) \<noteq> Inl (PanicErr msg)"
proof -
  have "panic_free (crl_call_body cfg now c) s" for now c
    by (cases c)
      (auto intro!: panic_intros simp: register_ca_def unregister_ca_def update_crl_def bounded_name_def put_ca_def put_revoked_def
        crl_deposit_def parse_input_def merge_revoked_certs_for_ca_def Let_def ensure_origin_def
        split: CrlInput.splits option.splits list.splits sum.splits)
  then show ?thesis by (simp add: crl_dispatch_def panic_free_def)
qed

fun submission_of :: "('vk, 'proof, 'pubs) vf_call \<Rightarrow> (account option \<times> nat option) option" where
  "submission_of (SubmitProof og voh pf pubs i) = Some (signer og, i)"
| "submission_of _ = None"

fun submission :: "runtime_call \<Rightarrow> (account option \<times> nat option) option" where
  "submission (TeeCall c) = submission_of c"
| "submission (EzklCall c) = submission_of c"
| "submission (FflonkCall c) = submission_of c"
| "submission (Groth16Call c) = submission_of c"
| "submission (Sp1Call c) = submission_of c"
| "submission (Risc0Call c) = submission_of c"
| "submission (UltrahonkCall c) = submission_of c"
| "submission (UltraplonkCall c) = submission_of c"
| "submission (Plonky2Call c) = submission_of c"
| "submission (AggregateCall c) = None"
| "submission (CrlCall c) = None"

lemma outcome_panicked: "outcome_of r = Panicked msg \<longleftrightarrow> r = Inl (PanicErr msg)"
  by (cases r rule: outcome_of.cases) auto

lemma on_instance_panicked:
  "snd (on_instance cfg c get put s) = Panicked msg \<longleftrightarrow> snd (vf_dispatch cfg c (get s, rt_hub s)) = Inl (PanicErr msg)"
  by (auto simp: on_instance_def outcome_panicked split: prod.splits)

lemma calm_instance_panic:
  assumes ok: "runtime_ok rc" and agg: "agg_inv (rt_agg rc) (hub_agg (rt_hub s))" and inv: "vf_inv V (get s)"
    and calm: "never_aborts V" and "snd (on_instance (instance_of rc V W z) c get put s) = Panicked msg"
  shows "\<exists>a i. submission_of c = Some (a, i) \<and> ownerless_target (hub_agg (rt_hub s)) a i"
  using instance_panic [OF ok agg inv, of W z c msg] assms(5) calm
  by (auto simp: on_instance_panicked never_aborts_def)

lemma plonky2_usable:
  assumes "vf_inv (plonky2_verifier cfg) p" and "usable_vk (plonky2_verifier cfg) p x voh = Some vk"
  shows "p2_validate_vk cfg vk = Accepted ()"
  using assms(2) vf_inv_slot [OF assms(1)]
  by (cases voh) (fastforce simp: usable_vk_def plonky2_verifier_def vk_slot_ok_def split: if_splits option.splits)+

text \<open>A key of plonky2 that was found valid although its circuit has a single row.\<close>

definition degenerate_vk :: "'v p2_library \<Rightarrow> VkWithConfig \<Rightarrow> bool" where
  "degenerate_vk L vk \<longleftrightarrow> (\<exists>v. deserialize_vk L (p2_config vk) (p2_bytes vk) = Some v \<and> degree_bits L v = 0)"

lemma runtime_panics_aux:
  fixes rc :: "('l, 't, 'v) runtime_config"
  assumes chain: "rt_chain rc h s" and ok: "runtime_ok rc" and bn: "bn_total (rt_bn rc)" and sent: "sendable rc c"
    and "snd (runtime_dispatch rc c s) = Panicked msg"
  shows "(\<exists>og voh pf pubs i vk. c = Plonky2Call (SubmitProof og voh pf pubs i) \<and>
       usable_vk (plonky2_verifier (plonky2_of rc)) (rt_plonky2 s) (rt_hub s) voh = Some vk \<and>
       degenerate_vk (rt_p2_lib rc) vk) \<or>
    (\<exists>a i. submission c = Some (a, i) \<and> ownerless_target (hub_agg (rt_hub s)) a i)"
proof -
  have inv: "rt_inv rc h s" using chain ok by (rule rt_chain_inv)
  have inst: "instances_ok rc s" using inv by (simp add: rt_inv_def)
  note agg = rt_inv_agg [OF inv ok]
  note calm = calm_instance_panic [OF ok agg]
  have bn': "bn_total (ff_bn (fflonk_of rc))" using bn by (simp add: fflonk_of_def)
  show ?thesis
  proof (cases c)
    case (TeeCall k)
    then show ?thesis
      using calm [of "tee_verifier (tee_of rc)" rt_tee _ _ k] assms(5) inst bn'
      by (simp add: instances_ok_def tee_pallet_def verifiers_never_abort)
  next
    case (EzklCall k)
    then show ?thesis
      using calm [of "ezkl_verifier (ezkl_of rc)" rt_ezkl _ _ k] assms(5) inst bn'
      by (simp add: instances_ok_def ezkl_pallet_def verifiers_never_abort)
  next
    case (FflonkCall k)
    then show ?thesis
      using calm [of "fflonk_verifier (fflonk_of rc)" rt_fflonk _ _ k] assms(5) inst bn'
      by (simp add: instances_ok_def fflonk_pallet_def verifiers_never_abort)
  next
    case (Groth16Call k)
    then show ?thesis
      using calm [of "groth16_verifier (groth16_of rc)" rt_groth16 _ _ k] assms(5) inst bn'
      by (simp add: instances_ok_def groth16_pallet_def verifiers_never_abort)
  next
    case (Sp1Call k)
    then show ?thesis
      using calm [of "sp1_verifier (sp1_of rc)" rt_sp1 _ _ k] assms(5) inst bn'
      by (simp add: instances_ok_def sp1_pallet_def verifiers_never_abort)
  next
    case (Risc0Call k)
    then show ?thesis
      using calm [of "risc0_verifier (risc0_of rc)" rt_risc0 _ _ k] assms(5) inst bn'
      by (simp add: instances_ok_def risc0_pallet_def verifiers_never_abort)
  next
    case (UltrahonkCall k)
    then show ?thesis
      using calm [of "ultrahonk_verifier (ultrahonk_of rc)" rt_ultrahonk _ _ k] assms(5) inst bn'
      by (simp add: instances_ok_def ultrahonk_pallet_def verifiers_never_abort)
  next
    case (UltraplonkCall k)
    then show ?thesis
      using calm [of "ultraplonk_verifier (ultraplonk_of rc)" rt_ultraplonk _ _ k] assms(5) inst bn'
      by (simp add: instances_ok_def ultraplonk_pallet_def verifiers_never_abort)
  next
    case (Plonky2Call k)
    have p: "vf_inv (plonky2_verifier (plonky2_of rc) :: (('l, 't) hub, _, _, _) proof_verifier) (rt_plonky2 s)"
      using inst by (simp add: instances_ok_def plonky2_pallet_def)
    have "snd (vf_dispatch (plonky2_pallet rc) k (rt_plonky2 s, rt_hub s)) = Inl (PanicErr msg)"
      using assms(5) Plonky2Call by (simp add: on_instance_panicked)
    from instance_panic [OF ok agg p this [unfolded plonky2_pallet_def]] show ?thesis
    proof (elim disjE exE conjE)
      fix vk
      assume "validate_vk (plonky2_verifier (plonky2_of rc)) (rt_hub s) vk = Aborted msg"
      then show ?thesis by (simp add: plonky2_verifier_def p2_validate_no_abort)
    next
      fix og voh pf pubs i vk
      assume k: "k = SubmitProof og voh pf pubs i"
        and vk: "usable_vk (plonky2_verifier (plonky2_of rc)) (rt_plonky2 s) (rt_hub s) voh = Some vk"
        and "verify_proof (plonky2_verifier (plonky2_of rc)) (rt_hub s) vk pf pubs = Aborted msg"
      then have "degenerate_vk (rt_p2_lib rc) vk"
        using p2_abort [OF _ plonky2_usable [OF p vk], of pf pubs msg]
        by (simp add: plonky2_verifier_def plonky2_of_def degenerate_vk_def)
      then show ?thesis using k vk Plonky2Call by blast
    next
      fix og voh pf pubs i vk
      assume "k = SubmitProof og voh pf pubs i" "ownerless_target (hub_agg (rt_hub s)) (signer og) i"
      then show ?thesis using Plonky2Call by simp
    qed
  next
    case (AggregateCall c')
    then have "panic_free (agg_call_body (rt_agg rc) c') (hub_agg (rt_hub s))"
      using sent by (cases c') (auto intro: panic_free_calls agg)
    then show ?thesis
      using assms(5) AggregateCall
      by (auto simp: panic_free_def agg_dispatch_def outcome_panicked transactional_def split: prod.splits sum.splits)
  next
    case (CrlCall c')
    then show ?thesis
      using assms(5) crl_panic_free [of "crl_of rc" "(hub_time (rt_hub s), c')" "hub_crl (rt_hub s)" msg]
      by (simp add: outcome_panicked split: prod.splits)
  qed
qed


section \<open>Refunds\<close>

definition refunds_capped :: "('x, 't, 'vk, 'proof, 'pubs) vf_config \<Rightarrow> bool" where
  "refunds_capped cfg \<longleftrightarrow>
     (\<forall>og voh pf pubs i s s' w. submit_proof cfg og voh pf pubs i s = (s', Inr (Some w)) \<longrightarrow>
        weight_le w (submit_proof_weight cfg voh pf pubs i None))"

text \<open>A verifier and its weights: what it gives back is at most what it charged.\<close>

locale capped_verifier =
  fixes V :: "('x, 'vk, 'proof, 'pubs) proof_verifier" and W :: "('vk, 'proof, 'pubs) weight_info"
  assumes covered: "verify_proof V x vk pf pubs = Accepted (Some w) \<Longrightarrow> weight_le w (wi_verify_proof W pf pubs)"
begin

lemma capped: "vf_verifier cfg = V \<Longrightarrow> vf_weights cfg = W \<Longrightarrow> refunds_capped cfg"
  unfolding refunds_capped_def using refund_le_charge covered by metis

end

interpretation tee_cap: capped_verifier "tee_verifier cfg" "tee_weights cfg W" for cfg W
  by unfold_locales (simp add: tee_verifier_def tee_weights_def flat_info_def tee_refund)

interpretation ezkl_cap: capped_verifier "ezkl_verifier cfg" "ezkl_info W" for cfg W
  by unfold_locales (simp add: ezkl_verifier_def ezkl_verify_proof_def verdict_simps lib_verdict_eq)

interpretation fflonk_cap: capped_verifier "fflonk_verifier cfg" "fflonk_info W" for cfg W
  by unfold_locales (simp add: fflonk_verifier_def ff_verify_proof_def verdict_simps)

interpretation groth16_cap: capped_verifier "groth16_verifier cfg" "groth16_info W" for cfg W
  by unfold_locales (simp add: groth16_verifier_def g16_verify_proof_def verdict_simps)

interpretation sp1_cap: capped_verifier "sp1_verifier cfg" "sp1_info W" for cfg W
  by unfold_locales (simp add: sp1_verifier_def sp1_verify_proof_def verdict_simps)

interpretation ultraplonk_cap: capped_verifier "ultraplonk_verifier cfg" "ultraplonk_info W" for cfg W
  by unfold_locales (simp add: ultraplonk_verifier_def up_verify_proof_def verdict_simps lib_verdict_eq)

interpretation risc0_cap: capped_verifier "risc0_verifier (risc0_of rc)" "risc0_info (risc0_of rc) W" for rc W
proof unfold_locales
  fix x :: 'x and vk pf pubs w
  assume "verify_proof (risc0_verifier (risc0_of rc)) x vk pf pubs = Accepted (Some w)"
  moreover have "proof_size (w_succinct (r0_weights (risc0_of rc))) = 0"
    by (simp add: risc0_of_def risc0_runtime_weights_def time_only_def)
  ultimately show "weight_le w (wi_verify_proof (risc0_info (risc0_of rc) W) pf pubs)"
    using r0_refund [of "risc0_of rc" vk pf pubs w] by (simp add: risc0_verifier_def risc0_info_def flat_info_def)
qed

lemma per_circuit_size_mono: "n \<le> m \<Longrightarrow> weight_le (per_circuit_size a b n) (per_circuit_size a b m)"
  by (simp add: weight_le_def per_circuit_size_def time_only_def min_le_iff_disj)

interpretation ultrahonk_cap:
  capped_verifier "ultrahonk_verifier (ultrahonk_of rc)" "ultrahonk_info (ultrahonk_of rc) W" for rc W
proof unfold_locales
  fix x :: 'x and vk pf pubs w
  assume "verify_proof (ultrahonk_verifier (ultrahonk_of rc)) x vk pf pubs = Accepted (Some w)"
  then have "uh_verify_proof (ultrahonk_of rc) vk pf pubs = Accepted (Some w)" by (simp add: ultrahonk_verifier_def)
  from uh_refund [OF this] show "weight_le w (wi_verify_proof (ultrahonk_info (ultrahonk_of rc) W) pf pubs)"
    by (simp add: ultrahonk_info_def flat_info_def ultrahonk_of_def uh_runtime_weights_def per_circuit_size_mono)
qed

lemma p2_times: "t \<in> set poseidon_times \<union> set keccak_times \<Longrightarrow> t \<le> poseidon_times ! 17"
  by (auto simp: poseidon_times_def keccak_times_def)

interpretation plonky2_cap: capped_verifier "plonky2_verifier (plonky2_of rc)" "plonky2_info (plonky2_of rc) W" for rc W
proof unfold_locales
  fix x :: 'x and vk pf pubs w
  assume "verify_proof (plonky2_verifier (plonky2_of rc)) x vk pf pubs = Accepted (Some w)"
  then have run: "p2_verify_proof (plonky2_of rc) vk pf pubs = Accepted (Some w)" by (simp add: plonky2_verifier_def)
  have "poseidon_times ! (d - 2) \<le> poseidon_times ! 17 \<and> keccak_times ! (d - 2) \<le> poseidon_times ! 17" if "d \<le> 19" for d
  proof -
    have "d - 2 < length poseidon_times" "d - 2 < length keccak_times"
      using that by (simp_all add: poseidon_times_def keccak_times_def)
    then show ?thesis using p2_times nth_mem by blast
  qed
  then show "weight_le w (wi_verify_proof (plonky2_info (plonky2_of rc) W) pf pubs)"
    using p2_refund [OF run]
    by (simp add: plonky2_info_def flat_info_def plonky2_of_def p2_runtime_weights_def weight_le_def time_only_def)
qed



section \<open>A concrete runtime\<close>

definition zero_weights :: flat_weights where
  "zero_weights =
     \<lparr>fw_verify_proof = no_weight, fw_register_vk = no_weight, fw_unregister_vk = no_weight, fw_get_vk = no_weight,
      fw_validate_vk = no_weight, fw_compute_statement_hash = no_weight\<rparr>"

definition sample_g16_vk :: VerificationKeyWithCurve where
  "sample_g16_vk =
     \<lparr>alpha_g1 = ''a'', beta_g2 = ''b'', gamma_g2 = ''c'', delta_g2 = ''d'', gamma_abc_g1 = [''p'', ''q''], vk_curve = Bn254\<rparr>"

definition sample_rc :: "(held_ledger, nat, string) runtime_config" where
  "sample_rc =
     \<lparr>rt_agg = sample_agg_config,
      rt_parse_pem = (\<lambda>crl chain cert now. None), rt_parse_der = (\<lambda>crl chain cert now. None),
      rt_blake2 = sample_hash, rt_keccak = sample_hash, rt_sha2 = sample_hash, rt_deposits = ledger_tickets,
      rt_db_reads = (\<lambda>n. no_weight), rt_callback_weight = no_weight, rt_weights = (\<lambda>n. zero_weights),
      rt_groth16_weights = \<lparr>w_verify_proof = (\<lambda>c n. no_weight), w_register_vk = (\<lambda>c n. no_weight),
        w_validate_vk = (\<lambda>c n. no_weight), w_unregister_vk = no_weight, w_get_vk = no_weight,
        w_compute_statement_hash = (\<lambda>n. no_weight)\<rparr>,
      rt_ezkl_encode = (\<lambda>vk. vk),
      rt_tee_lib = \<lparr>intel_parse_quote = Some, intel_parse_tcb_response = Some, tcb_from_json = Some,
        tcb_info_verify = (\<lambda>tcb now. True), tcb_response_verify = (\<lambda>tcb cs crl now. True),
        quote_verify = (\<lambda>q tcb crl now. crl = []), nitro_parse_attestation = Some,
        attestation_verify = (\<lambda>a crl now. True)\<rparr>,
      rt_tee_encode = (\<lambda>vk. case vk of Intel r c \<Rightarrow> r @ c | Nitro \<Rightarrow> []),
      rt_risc0_lib = \<lparr>r0_deserialize = Some, r0_composite = (\<lambda>r. None),
        extract_composite_segments_info = (\<lambda>v c. None), r0_verify = (\<lambda>v vk r pubs. True)\<rparr>,
      rt_uh_lib = \<lparr>uh84_proof = (\<lambda>p. None), uh84_verify = (\<lambda>vk p pubs. None), uh84_key = (\<lambda>vk. True),
        uh30_verify = (\<lambda>vk p pubs. None), uh30_key = (\<lambda>vk. True), extract_log_circuit_size = (\<lambda>vk. None)\<rparr>,
      rt_uh_encode = (\<lambda>vk. []),
      rt_p2_lib = \<lparr>deserialize_vk = (\<lambda>c vk. Some vk), degree_bits = length, standard_recursion_config = (\<lambda>v. True),
        p2_verify = (\<lambda>c vk pf pubs. True)\<rparr>,
      rt_p2_encode = p2_bytes,
      rt_ark = \<lparr>ark_g1 = (\<lambda>c. Some), ark_g2 = (\<lambda>c. Some), ark_g1_unchecked = (\<lambda>c. Some), ark_g2_unchecked = (\<lambda>c. Some),
        ark_scalar = (\<lambda>c b. if 32 \<le> length b then Some (take 32 b) else None),
        ark_verify = (\<lambda>c vk pf inputs. Some True)\<rparr>,
      rt_g16_encode = (\<lambda>vk. if vk = sample_g16_vk then ''s'' else []),
      rt_bn = \<lparr>fr_from_slice = Some, fq_from_slice = Inr, fq2_new = (@), bn_g1_new = (\<lambda>a b c. a), g1_normalize = (\<lambda>p. p),
        affine_g1 = (\<lambda>p. True), bn_g2_new = (\<lambda>a b c. a), g2_normalize = (\<lambda>p. p), affine_g2 = (\<lambda>p. True)\<rparr>,
      rt_ff_proof = Some, rt_ff_verify = (\<lambda>k pf pubs. True), rt_ff_encode = (\<lambda>vk. []),
      rt_sp1_decode = Some, rt_sp1_verify = (\<lambda>vk pf pubs. True), rt_ezkl_verify = (\<lambda>vk pf pubs. None),
      rt_up_proof_size = 1, rt_up_vk_size = 1, rt_up_verify = (\<lambda>vk pf pubs. None), rt_up_key = (\<lambda>vk. True)\<rparr>"

definition runtime_run ::
  "('l, 't, 'v) runtime_config \<Rightarrow> runtime_call list \<Rightarrow> ('l, 't) runtime \<Rightarrow> ('l, 't) runtime"
where
  "runtime_run rc cs s = fold (\<lambda>c s. fst (runtime_dispatch rc c s)) cs s"

lemma rt_chain_run: "rt_chain rc h s \<Longrightarrow> list_all (sendable rc) cs \<Longrightarrow> rt_chain rc h (runtime_run rc cs s)"
  by (induction cs arbitrary: s) (simp_all add: runtime_run_def rt_chain.call)

lemma sample_rc_ok: "runtime_ok sample_rc" "length (rt_keccak sample_rc b) = 32" "bn_total (rt_bn sample_rc)"
proof -
  have "tickets_apart ledger_holds ledger_tickets"
    unfolding tickets_apart_def ledger_tickets_def ledger_holds_def by (auto split: if_splits)
  then show "runtime_ok sample_rc"
    using sample_agg_ok(1) by (simp add: runtime_ok_def sample_rc_def) (simp add: sample_agg_config_def)
  show "length (rt_keccak sample_rc b) = 32" "bn_total (rt_bn sample_rc)"
    by (simp_all add: sample_rc_def sample_hash_def bn_total_def)
qed

definition sample_input :: string where
  "sample_input = replicate 32 CHR ''i''"

text \<open>A domain, an authority, a Groth16 proof and a quote for the domain, and the aggregation of the two.\<close>

definition sample_rt_calls :: "runtime_call list" where
  "sample_rt_calls =
     [AggregateCall (RegisterDomain (Signed ''o'') 2 (Some 1) AggUntrusted ProofUntrusted
        \<lparr>dl_destination = NoDestination, dl_fee = 6, dl_owner_tip = 2\<rparr> None),
      CrlCall (RegisterCa Root ''Intel_SGX_Processor'' ''c''),
      Groth16Call (SubmitProof (Signed ''a'') (Vk sample_g16_vk)
        \<lparr>pf_curve = Bn254, pf_points = \<lparr>pf_a = ''a'', pf_b = ''b'', pf_c = ''c''\<rparr>\<rparr> [sample_input] (Some 0)),
      TeeCall (SubmitProof (Signed ''b'') (Vk (Intel ''r'' ''c'')) ''q'' [] (Some 0)),
      AggregateCall (Aggregate (Signed ''p'') 0 1)]"

definition sample_rt :: "(held_ledger, nat) runtime" where
  "sample_rt = runtime_run sample_rc sample_rt_calls (runtime_start (\<lambda>_. 100, \<lambda>_ _. 0) 5)"

lemma length_sample_hash [simp]: "length (sample_hash b) = 32"
  by (simp add: sample_hash_def)

lemma sample_rt_chain: "rt_chain sample_rc [] sample_rt"
  unfolding sample_rt_def
  by (rule rt_chain_run [OF rt_chain.start])
    (simp add: sample_rt_calls_def named_hash_def tee_pallet_def groth16_pallet_def tee_verifier_def groth16_verifier_def
      default_vk_hash_def tee_of_def groth16_of_def sample_rc_def)

lemmas runtime_eval = on_instance_def vf_dispatch_def submit_proof_def obtain_vk_def ask_def tell_def
  ensure_signed_or_root_def vf_deposit_def vf_disabled_def aggregate_callback_def instance_of_def
  compute_statement_hash_def vd_ensure_def vd_option_def







section \<open>The properties of the runtime\<close>








text \<open>
  C21: AWS Nitro attestations cannot be submitted. The verifier has code that checks them, but their key is never
  stored, and a submission that carries it fails without any effect, because such keys never pass validation.
\<close>

theorem nitro_never_accepted:
  assumes "rt_chain rc h s" and "runtime_ok rc"
  shows "(\<forall>k n. Vks (rt_tee s) k \<noteq> Some \<lparr>ve_vk = Nitro, ve_ref_count = n\<rparr>) \<and>
    fst (runtime_dispatch rc (TeeCall (SubmitProof og (Vk Nitro) pf pubs i)) s) = s \<and>
    snd (runtime_dispatch rc (TeeCall (SubmitProof og (Vk Nitro) pf pubs i)) s) \<noteq> Done"
proof -
  let ?V = "vf_verifier (tee_pallet rc)"
  have nitro: "validate_vk ?V x Nitro \<noteq> Accepted ()" for x
    by (simp add: tee_pallet_def tee_verifier_def tee_validate_vk_def)
  have inv: "vf_inv ?V (rt_tee s)"
    using rt_chain_inv [OF assms] by (simp add: rt_inv_def instances_ok_def)
  have "Vks (rt_tee s) k \<noteq> Some \<lparr>ve_vk = Nitro, ve_ref_count = n\<rparr>" for k n
    using vf_inv_slot [OF inv, of k] nitro by (auto simp: vk_slot_ok_def)
  moreover obtain p x r where run: "vf_dispatch (tee_pallet rc) (SubmitProof og (Vk Nitro) pf pubs i) (rt_tee s, rt_hub s) = ((p, x), r)"
    by (metis prod.exhaust)
  moreover have "\<exists>err. r = Inl err"
  proof (cases r)
    case (Inr u)
    then obtain w where "submit_proof (tee_pallet rc) og (Vk Nitro) pf pubs i (rt_tee s, rt_hub s) = ((p, x), Inr w)"
      using run by (auto simp: vf_dispatch_def act_bind_eq_Inr)
    then show ?thesis by (rule submit_proof_Inr) (use nitro in simp)
  qed simp
  ultimately show ?thesis
    by (auto simp: on_instance_def vf_dispatch_def transactional_eq_Inl elim: outcome_of.elims)
qed

theorem nitro_never_accepted_witness:
  "snd (runtime_dispatch sample_rc (TeeCall (SubmitProof (Signed ''a'') (Vk Nitro) ''q'' [] None)) sample_rt) \<noteq> Done"
  using nitro_never_accepted [OF sample_rt_chain sample_rc_ok(1)] by blast

text \<open>
  C24: what can make the runtime panic. In every state that the chain reaches, of all calls of the nine verifiers, of
  the aggregations and of the revocation lists, only submissions can panic, and only for two reasons:
  a plonky2 key that passed validation although the degree of its circuit is zero, and a domain of the
  manager that takes proofs of its owner only.
\<close>

theorem runtime_panics:
  assumes "rt_chain rc h s" and "runtime_ok rc" and "bn_total (rt_bn rc)" and "sendable rc c"
    and "snd (runtime_dispatch rc c s) = Panicked msg"
  shows "(\<exists>og voh pf pubs i vk. c = Plonky2Call (SubmitProof og voh pf pubs i) \<and>
       usable_vk (plonky2_verifier (plonky2_of rc)) (rt_plonky2 s) (rt_hub s) voh = Some vk \<and>
       degenerate_vk (rt_p2_lib rc) vk) \<or>
    (\<exists>a i. submission c = Some (a, i) \<and> ownerless_target (hub_agg (rt_hub s)) a i)"
  using assms by (rule runtime_panics_aux)

theorem runtime_panics_witness:
  "\<exists>c msg. snd (runtime_dispatch sample_rc c sample_rt) = Panicked msg \<and>
     ((\<exists>og voh pf pubs i vk. c = Plonky2Call (SubmitProof og voh pf pubs i) \<and>
        usable_vk (plonky2_verifier (plonky2_of sample_rc)) (rt_plonky2 sample_rt) (rt_hub sample_rt) voh = Some vk \<and>
        degenerate_vk (rt_p2_lib sample_rc) vk) \<or>
      (\<exists>a i. submission c = Some (a, i) \<and> ownerless_target (hub_agg (rt_hub sample_rt)) a i))"
proof -
  let ?c = "Plonky2Call (SubmitProof (Signed ''a'') (Vk \<lparr>p2_config = Poseidon, p2_bytes = []\<rparr>) [] [] None)"
  have "rt_plonky2 sample_rt = vf_start"
    by (simp add: sample_rt_def runtime_run_def sample_rt_calls_def on_instance_def runtime_start_def split: prod.splits)
  then have panic: "snd (runtime_dispatch sample_rc ?c sample_rt) = Panicked ''Invalid value given for degree_bits.''"
    by (simp add: runtime_eval agg_eval sample_rc_def plonky2_pallet_def plonky2_verifier_def plonky2_of_def p2_verify_proof_def
        p2_validate_vk_def p2_compute_weight_def vf_start_def)
  have "sendable sample_rc ?c"
    by (simp add: plonky2_pallet_def plonky2_verifier_def named_hash_def default_vk_hash_def plonky2_of_def sample_rc_def)
  from runtime_panics [OF sample_rt_chain sample_rc_ok(1,3) this panic] panic show ?thesis by blast
qed

text \<open>
  C39: with the weights of the runtime, what a submission turns out to cost is never more than what it was
  charged in advance, for each of the nine verifiers.
\<close>

theorem refunds_within_charge:
  "refunds_capped (tee_pallet rc) \<and>
   refunds_capped (ezkl_pallet rc) \<and>
   refunds_capped (fflonk_pallet rc) \<and>
   refunds_capped (groth16_pallet rc) \<and>
   refunds_capped (sp1_pallet rc) \<and>
   refunds_capped (risc0_pallet rc) \<and>
   refunds_capped (ultrahonk_pallet rc) \<and>
   refunds_capped (ultraplonk_pallet rc) \<and>
   refunds_capped (plonky2_pallet rc)"
  by (intro conjI; rule tee_cap.capped ezkl_cap.capped fflonk_cap.capped groth16_cap.capped sp1_cap.capped
      risc0_cap.capped ultrahonk_cap.capped ultraplonk_cap.capped plonky2_cap.capped; simp add: pallet_defs)

end
