(* ===== verification/NodeServices.thy ===== *)
theory NodeServices
  imports PipelineProps
begin

text \<open>
  What surrounds the pallets of the proofs: the RPC methods of the node that compute the hash of a key
  (\<open>rpc/vk_hash\<close>) and the Merkle path of a statement (\<open>rpc/aggregate\<close>), and the storage migrations of two
  verifiers (\<open>verifiers/ultrahonk/src/migrations.rs\<close>, \<open>verifiers/tee/src/migrations/v2.rs\<close>).
\<close>


section \<open>Hashes of keys\<close>

text \<open>An error of an RPC method: its code and its message.\<close>

type_synonym rpc_error = "nat \<times> string"

record Groth16Vk =
  g_curve :: Curve
  g_alpha_g1 :: string
  g_beta_g2 :: string
  g_gamma_g2 :: string
  g_delta_g2 :: string
  g_gamma_abc_g1 :: "string list"

definition groth16_vk_from :: "Groth16Vk \<Rightarrow> VerificationKeyWithCurve" where
  "groth16_vk_from vk =
     \<lparr>alpha_g1 = g_alpha_g1 vk, beta_g2 = g_beta_g2 vk, gamma_g2 = g_gamma_g2 vk, delta_g2 = g_delta_g2 vk,
      gamma_abc_g1 = map (\<lambda>v. v) (g_gamma_abc_g1 vk), vk_curve = g_curve vk\<rparr>"

datatype UltrahonkVk = Uh_V0_84 string | Uh_V3_0 string | Uh_Legacy string

record vk_sizes =
  VK_SIZE_V0_84 :: nat
  VK_SIZE_V3_0 :: nat

fun ultrahonk_try_from :: "vk_sizes \<Rightarrow> UltrahonkVk \<Rightarrow> string + VersionedVk" where
  "ultrahonk_try_from z (Uh_V0_84 b) =
     (if length b = VK_SIZE_V0_84 z then Inr (Vk_V0_84 b) else Inl ''Incorrect length for V0_84 VK'')"
| "ultrahonk_try_from z (Uh_V3_0 b) =
     (if length b = VK_SIZE_V3_0 z then Inr (Vk_V3_0 b) else Inl ''Incorrect length for V3_0 VK'')"
| "ultrahonk_try_from z (Uh_Legacy b) =
     (if length b = VK_SIZE_V0_84 z then Inr (Vk_Legacy b) else Inl ''Incorrect length for Legacy VK'')"

definition rpc_ezkl :: "('l, 't, 'v) runtime_config \<Rightarrow> string \<Rightarrow> rpc_error + h256" where
  "rpc_ezkl rc vk_bytes =
     (if vk_bytes = [] \<or> length vk_bytes mod 32 \<noteq> 0 \<or> EZKL_MAX_VK_LENGTH < length vk_bytes
      then Inl (1, ''Incorrect Slice Length'')
      else Inr (vk_hash (vf_verifier (ezkl_pallet rc)) vk_bytes))"

definition rpc_fflonk :: "('l, 't, 'v) runtime_config \<Rightarrow> fflonk_vk \<Rightarrow> rpc_error + h256" where
  "rpc_fflonk rc vk = Inr (vk_hash (vf_verifier (fflonk_pallet rc)) vk)"

definition rpc_groth16 :: "('l, 't, 'v) runtime_config \<Rightarrow> Groth16Vk \<Rightarrow> rpc_error + h256" where
  "rpc_groth16 rc vk = Inr (vk_hash (vf_verifier (groth16_pallet rc)) (groth16_vk_from vk))"

definition rpc_plonky2 :: "('l, 't, 'v) runtime_config \<Rightarrow> Plonky2Config \<Rightarrow> string \<Rightarrow> rpc_error + h256" where
  "rpc_plonky2 rc config bytes = Inr (vk_hash (vf_verifier (plonky2_pallet rc)) \<lparr>p2_config = config, p2_bytes = bytes\<rparr>)"

definition rpc_risc0 :: "h256 \<Rightarrow> rpc_error + h256" where
  "rpc_risc0 vk = Inr vk"

definition rpc_ultrahonk :: "('l, 't, 'v) runtime_config \<Rightarrow> vk_sizes \<Rightarrow> UltrahonkVk \<Rightarrow> rpc_error + h256" where
  "rpc_ultrahonk rc z vk =
     (case ultrahonk_try_from z vk of
        Inl e \<Rightarrow> Inl (1, e)
      | Inr vk \<Rightarrow> Inr (vk_hash (vf_verifier (ultrahonk_pallet rc)) vk))"

definition rpc_ultraplonk :: "('l, 't, 'v) runtime_config \<Rightarrow> string \<Rightarrow> rpc_error + h256" where
  "rpc_ultraplonk rc vk =
     (if length vk \<noteq> rt_up_vk_size rc then Inl (1, ''Incorrect Slice Length'')
      else Inr (vk_hash (vf_verifier (ultraplonk_pallet rc)) vk))"

definition rpc_sp1 :: "h256 \<Rightarrow> rpc_error + h256" where
  "rpc_sp1 vk = Inr vk"

text \<open>A key that was registered is stored under its hash.\<close>

lemma registered_under:
  assumes "snd (on_instance cfg (RegisterVk og vk) get put s) = Done"
    and "\<And>p x. get (put p (s\<lparr>rt_hub := x\<rparr>)) = p"
  shows "Vks (get (fst (on_instance cfg (RegisterVk og vk) get put s))) (vk_hash (vf_verifier cfg) vk) \<noteq> None \<and>
    validate_vk (vf_verifier cfg) (rt_hub s) vk = Accepted ()"
proof -
  obtain p x r where run: "vf_dispatch cfg (RegisterVk og vk) (get s, rt_hub s) = ((p, x), r)" by (metis prod.exhaust)
  then have "r = Inr ()" using assms(1) by (cases r rule: outcome_of.cases) (auto simp: on_instance_def)
  then have reg: "register_vk cfg og vk (get s, rt_hub s) = ((p, x), Inr ())" using run by (simp add: vf_dispatch_def)
  then have "Vks p (vk_hash (vf_verifier cfg) vk) \<noteq> None \<and> validate_vk (vf_verifier cfg) (rt_hub s) vk = Accepted ()"
    by (rule register_vk_Inr) simp
  then show ?thesis using run assms(2) by (simp add: on_instance_def)
qed

text \<open>
  The node and the chain agree on hashes: a key that an account registers is stored under the hash that the RPC method
  of its verifier answers for it, which the method does not refuse.
\<close>

definition answer_registers ::
  "('l, 't, 'v) runtime_config \<Rightarrow> ('l, 't) runtime \<Rightarrow> runtime_call \<Rightarrow> (('l, 't) runtime \<Rightarrow> ('t, 'vk) vf_storage) \<Rightarrow>
   rpc_error + h256 \<Rightarrow> bool"
where
  "answer_registers rc s c get answer \<longleftrightarrow>
     (snd (runtime_dispatch rc c s) = Done \<longrightarrow>
        (\<exists>h. answer = Inr h \<and> Vks (get (fst (runtime_dispatch rc c s))) h \<noteq> None))"

theorem rpc_hash_registers:
  assumes "ultrahonk_try_from z uh = Inr vk" and "length up = rt_up_vk_size rc"
  shows "answer_registers rc s (EzklCall (RegisterVk og ezkl)) rt_ezkl (rpc_ezkl rc ezkl) \<and>
    answer_registers rc s (FflonkCall (RegisterVk og ff)) rt_fflonk (rpc_fflonk rc ff) \<and>
    answer_registers rc s (Groth16Call (RegisterVk og (groth16_vk_from g16))) rt_groth16 (rpc_groth16 rc g16) \<and>
    answer_registers rc s (Plonky2Call (RegisterVk og \<lparr>p2_config = config, p2_bytes = bytes\<rparr>)) rt_plonky2 (rpc_plonky2 rc config bytes) \<and>
    answer_registers rc s (Risc0Call (RegisterVk og r0)) rt_risc0 (rpc_risc0 r0) \<and>
    answer_registers rc s (Sp1Call (RegisterVk og sp1)) rt_sp1 (rpc_sp1 sp1) \<and>
    answer_registers rc s (UltrahonkCall (RegisterVk og vk)) rt_ultrahonk (rpc_ultrahonk rc z uh) \<and>
    answer_registers rc s (UltraplonkCall (RegisterVk og up)) rt_ultraplonk (rpc_ultraplonk rc up)"
  unfolding answer_registers_def runtime_dispatch.simps
proof (intro conjI impI)
  assume "snd (on_instance (ezkl_pallet rc) (RegisterVk og ezkl) rt_ezkl (\<lambda>p. rt_ezkl_update (\<lambda>_. p)) s) = Done"
  from registered_under [OF this]
  show "\<exists>h. rpc_ezkl rc ezkl = Inr h \<and>
      Vks (rt_ezkl (fst (on_instance (ezkl_pallet rc) (RegisterVk og ezkl) rt_ezkl (\<lambda>p. rt_ezkl_update (\<lambda>_. p)) s))) h \<noteq> None"
    using assms by (simp add: rpc_ezkl_def ezkl_pallet_def ezkl_verifier_def ezkl_validate_vk_def split: if_splits)
next
  assume "snd (on_instance (fflonk_pallet rc) (RegisterVk og ff) rt_fflonk (\<lambda>p. rt_fflonk_update (\<lambda>_. p)) s) = Done"
  from registered_under [OF this]
  show "\<exists>h. rpc_fflonk rc ff = Inr h \<and>
      Vks (rt_fflonk (fst (on_instance (fflonk_pallet rc) (RegisterVk og ff) rt_fflonk (\<lambda>p. rt_fflonk_update (\<lambda>_. p)) s))) h \<noteq> None"
    using assms by (simp add: rpc_fflonk_def  split: if_splits)
next
  assume "snd (on_instance (groth16_pallet rc) (RegisterVk og (groth16_vk_from g16)) rt_groth16 (\<lambda>p. rt_groth16_update (\<lambda>_. p)) s) = Done"
  from registered_under [OF this]
  show "\<exists>h. rpc_groth16 rc g16 = Inr h \<and>
      Vks (rt_groth16 (fst (on_instance (groth16_pallet rc) (RegisterVk og (groth16_vk_from g16)) rt_groth16 (\<lambda>p. rt_groth16_update (\<lambda>_. p)) s))) h \<noteq> None"
    using assms by (simp add: rpc_groth16_def  split: if_splits)
next
  assume "snd (on_instance (plonky2_pallet rc) (RegisterVk og \<lparr>p2_config = config, p2_bytes = bytes\<rparr>) rt_plonky2 (\<lambda>p. rt_plonky2_update (\<lambda>_. p)) s) = Done"
  from registered_under [OF this]
  show "\<exists>h. rpc_plonky2 rc config bytes = Inr h \<and>
      Vks (rt_plonky2 (fst (on_instance (plonky2_pallet rc) (RegisterVk og \<lparr>p2_config = config, p2_bytes = bytes\<rparr>) rt_plonky2 (\<lambda>p. rt_plonky2_update (\<lambda>_. p)) s))) h \<noteq> None"
    using assms by (simp add: rpc_plonky2_def  split: if_splits)
next
  assume "snd (on_instance (risc0_pallet rc) (RegisterVk og r0) rt_risc0 (\<lambda>p. rt_risc0_update (\<lambda>_. p)) s) = Done"
  from registered_under [OF this]
  show "\<exists>h. rpc_risc0 r0 = Inr h \<and>
      Vks (rt_risc0 (fst (on_instance (risc0_pallet rc) (RegisterVk og r0) rt_risc0 (\<lambda>p. rt_risc0_update (\<lambda>_. p)) s))) h \<noteq> None"
    using assms by (simp add: rpc_risc0_def risc0_pallet_def risc0_verifier_def split: if_splits)
next
  assume "snd (on_instance (sp1_pallet rc) (RegisterVk og sp1) rt_sp1 (\<lambda>p. rt_sp1_update (\<lambda>_. p)) s) = Done"
  from registered_under [OF this]
  show "\<exists>h. rpc_sp1 sp1 = Inr h \<and>
      Vks (rt_sp1 (fst (on_instance (sp1_pallet rc) (RegisterVk og sp1) rt_sp1 (\<lambda>p. rt_sp1_update (\<lambda>_. p)) s))) h \<noteq> None"
    using assms by (simp add: rpc_sp1_def sp1_pallet_def sp1_verifier_def split: if_splits)
next
  assume "snd (on_instance (ultrahonk_pallet rc) (RegisterVk og vk) rt_ultrahonk (\<lambda>p. rt_ultrahonk_update (\<lambda>_. p)) s) = Done"
  from registered_under [OF this]
  show "\<exists>h. rpc_ultrahonk rc z uh = Inr h \<and>
      Vks (rt_ultrahonk (fst (on_instance (ultrahonk_pallet rc) (RegisterVk og vk) rt_ultrahonk (\<lambda>p. rt_ultrahonk_update (\<lambda>_. p)) s))) h \<noteq> None"
    using assms by (simp add: rpc_ultrahonk_def  split: if_splits)
next
  assume "snd (on_instance (ultraplonk_pallet rc) (RegisterVk og up) rt_ultraplonk (\<lambda>p. rt_ultraplonk_update (\<lambda>_. p)) s) = Done"
  from registered_under [OF this]
  show "\<exists>h. rpc_ultraplonk rc up = Inr h \<and>
      Vks (rt_ultraplonk (fst (on_instance (ultraplonk_pallet rc) (RegisterVk og up) rt_ultraplonk (\<lambda>p. rt_ultraplonk_update (\<lambda>_. p)) s))) h \<noteq> None"
    using assms by (simp add: rpc_ultraplonk_def  split: if_splits)
qed


section \<open>Paths of statements\<close>

text \<open>The codes of the errors; the first argument of the method is the outcome of the call of the runtime.\<close>

fun convert_aggregation_error :: "path_request_error \<Rightarrow> rpc_error" where
  "convert_aggregation_error (StatementNotFound d i h) = (1, ''Statement not found in this aggregation'')"
| "convert_aggregation_error (ReceiptNotPublished d i) = (2, ''Receipt not published in this block'')"
| "convert_aggregation_error IndexOutOfBounds = (1, ''Statement index goes out of u32 bounds'')"

definition rpc_get_statement_path :: "('e + (path_request_error + 'p)) \<Rightarrow> rpc_error + 'p" where
  "rpc_get_statement_path api =
     (case api of
        Inl e \<Rightarrow> Inl (3, ''Unable to query dispatch info.'')
      | Inr (Inl e) \<Rightarrow> Inl (convert_aggregation_error e)
      | Inr (Inr path) \<Rightarrow> Inr path)"

text \<open>The code tells an aggregation that was not published in the block from a statement that it does not contain.\<close>

theorem rpc_path_codes:
  "(\<exists>m. rpc_get_statement_path (Inr (get_statement_path cfg s d k st) :: 'e + _) = Inl (2, m)) \<longleftrightarrow>
     (\<forall>a. (d, a) \<in> set (Published s) \<longrightarrow> ag_id a \<noteq> k)"
proof (cases "find (\<lambda>(i, a). i = d \<and> ag_id a = k) (Published s)")
  case None
  then have "\<forall>a. (d, a) \<in> set (Published s) \<longrightarrow> ag_id a \<noteq> k" by (auto simp: find_None_iff)
  with None show ?thesis by (simp add: get_statement_path_def rpc_get_statement_path_def)
next
  case (Some e)
  then have "e \<in> set (Published s)" "fst e = d" "ag_id (snd e) = k"
    unfolding find_Some_iff by (auto simp: case_prod_unfold)
  then have "\<exists>a. (d, a) \<in> set (Published s) \<and> ag_id a = k" by (metis prod.collapse)
  then show ?thesis
    using Some by (auto simp: get_statement_path_def rpc_get_statement_path_def split: option.splits prod.splits)
qed


section \<open>Migrations\<close>

text \<open>
  Ultrahonk: every stored key becomes one of the variant \<open>Legacy\<close>, under the same hash, with the same count; tickets
  stay as they are.
\<close>

definition migrate_entry :: "string VkEntry \<Rightarrow> VersionedVk VkEntry" where
  "migrate_entry e = \<lparr>ve_vk = Vk_Legacy (ve_vk e), ve_ref_count = ve_ref_count e\<rparr>"

definition ultrahonk_v2 :: "('t, string) vf_storage \<Rightarrow> ('t, VersionedVk) vf_storage" where
  "ultrahonk_v2 p =
     \<lparr>Disabled = Disabled p, Vks = (\<lambda>h. map_option migrate_entry (Vks p h)), Tickets = Tickets p, vf_events = vf_events p\<rparr>"

text \<open>
  What the migration relies on: in version 1 a key was hashed as its raw bytes with SHA2-256, and validated as one of
  version 0.84.
\<close>

definition ultrahonk_v1_hash :: "'p uh_config \<Rightarrow> ('x, string, 'proof, 'pubs) proof_verifier \<Rightarrow> bool" where
  "ultrahonk_v1_hash cfg V \<longleftrightarrow>
     (\<forall>b. vk_hash V b = uh_sha2 cfg b) \<and> (\<forall>x b. validate_vk V x b = Accepted () \<longrightarrow> uh84_key (uh_lib cfg) b)"

text \<open>
  After the migration the storage is one of the new verifier: every key is under its own hash, counts and deposits
  agree, and every deposit can be claimed back as before.
\<close>

theorem ultrahonk_migration_inv:
  assumes "ultrahonk_v1_hash cfg V" and "vf_inv V p"
  shows "vf_inv (ultrahonk_verifier cfg :: ('x, _, _, _) proof_verifier) (ultrahonk_v2 p)"
  unfolding vf_inv_def
proof
  fix h
  have "vk_slot_ok V (holders p h) h (Vks p h)" using assms(2) by (rule vf_inv_slot)
  moreover have "holders (ultrahonk_v2 p) h = holders p h" by (simp add: holders_def ultrahonk_v2_def)
  ultimately show "vk_slot_ok (ultrahonk_verifier cfg :: ('x, _, _, _) proof_verifier) (holders (ultrahonk_v2 p) h) h (Vks (ultrahonk_v2 p) h)"
    using assms(1)
    by (auto simp: vk_slot_ok_def ultrahonk_v2_def migrate_entry_def ultrahonk_v1_hash_def ultrahonk_verifier_def
        vd_ensure_def split: option.splits)
qed

text \<open>
  TEE: the keys of the old format and all tickets are removed. The deposits are released one after the other, and
  a failure is only logged.
\<close>

fun drop_all :: "('x, 't) consideration \<Rightarrow> ((account \<times> h256) \<times> 't) list \<Rightarrow> 'x \<Rightarrow> 'x" where
  "drop_all co [] x = x"
| "drop_all co (((account_id, h), ticket) # rest) x =
     drop_all co rest (case co_drop co x ticket account_id of Inl e \<Rightarrow> x | Inr x' \<Rightarrow> x')"

definition tee_v2 ::
  "('x, 't) consideration \<Rightarrow> ((account \<times> h256) \<times> 't) list \<Rightarrow> ('t, 'vk) vf_storage \<times> 'x \<Rightarrow> ('t, tee_vk) vf_storage \<times> 'x"
where
  "tee_v2 co tickets s =
     (case s of (p, x) \<Rightarrow>
        (\<lparr>Disabled = Disabled p, Vks = (\<lambda>_. None), Tickets = (\<lambda>_. None), vf_events = vf_events p\<rparr>, drop_all co tickets x))"

lemma tee_migration_inv: "vf_inv V (fst (tee_v2 co tickets s))"
  by (simp add: tee_v2_def vf_inv_def vk_slot_ok_def holders_def split: prod.splits)

end
